(* ===== verification/Prelude.thy ===== *)
theory Prelude
  imports Main "HOL-Library.Word" "HOL-Library.Multiset"
begin

text \<open>
  Shared vocabulary of the development: Go's error values and the ways a Go function
  stops early (panic, \<open>os.Exit\<close>), sequences of steps that stop at the first failure, the
  iteration order of a Go map, and the ordering of names in a list.  Nothing here models
  code of the repository; every component theory imports it.
\<close>

named_theorems go_simps \<open>equations of the Go vocabulary that component proofs rewrite with\<close>

section \<open>Machine integers\<close>

type_synonym uint64 = "64 word"
type_synonym int64 = "64 word"
type_synonym uint32 = "32 word"
type_synonym byte = "8 word"
type_synonym bytes = "byte list"

section \<open>Go errors, panics and exits\<close>

text \<open>
  A value of Go's \<open>error\<close> interface is \<open>go_error option\<close>, with \<open>None\<close> for \<open>nil\<close>.  The
  first four constructors are the sentinel errors the repository names; \<open>ErrLib\<close> stands
  for an error value that came out of a library call.
\<close>

datatype go_error =
    ErrNoHistoricalInfo
  | ErrNoValidatorFound
  | ErrUnknownExtensionOptions
  | ErrUnknownRequest
  | ErrNew string
  | ErrWrapf go_error string "string list"
  | ErrJoin "go_error list"
  | ErrLib string

text \<open>
  How a Go function can stop without returning: a panic with an error or a formatted
  message, a nil dereference (named by the selector that was applied), or \<open>os.Exit\<close> with
  what was printed last.
\<close>

datatype stop =
    PanicErr go_error
  | PanicMsg string go_error
  | NilDeref string
  | OsExit int string "go_error option"

text \<open>\<open>errors.Join\<close> of the Go standard library: nil errors are dropped; nil when none is left.\<close>

definition errors_join :: "go_error option list \<Rightarrow> go_error option" where
  "errors_join es =
     (let xs = List.map_filter id es in if xs = [] then None else Some (ErrJoin xs))"

lemma map_filter_id_Nil [go_simps]:
  "List.map_filter id es = [] \<longleftrightarrow> (\<forall>e \<in> set es. e = None)"
  by (induction es) (auto simp: List.map_filter_simps split: option.splits)

lemma errors_join_None [go_simps]:
  "errors_join es = None \<longleftrightarrow> (\<forall>e \<in> set es. e = None)"
  by (simp add: errors_join_def Let_def map_filter_id_Nil)

section \<open>Steps that stop at the first failure\<close>

text \<open>
  A long Go function is the list of its steps, run in order; the first step that stops
  (a panic, an exit, an early return with an error) ends the run with its value.
\<close>

fun run_steps :: "('s \<Rightarrow> 'e + 's) list \<Rightarrow> 's \<Rightarrow> 'e + 's" where
  "run_steps [] s = Inr s"
| "run_steps (f # fs) s = (case f s of Inl e \<Rightarrow> Inl e | Inr s' \<Rightarrow> run_steps fs s')"

lemma run_steps_append [go_simps]:
  "run_steps (fs @ gs) s =
     (case run_steps fs s of Inl e \<Rightarrow> Inl e | Inr s' \<Rightarrow> run_steps gs s')"
  by (induction fs arbitrary: s) (auto split: sum.splits)

lemma run_steps_Cons_Inr:
  "run_steps (f # fs) s = Inr s'' \<longleftrightarrow> (\<exists>s'. f s = Inr s' \<and> run_steps fs s' = Inr s'')"
  by (auto split: sum.splits)

text \<open>The interface a sequence of steps offers its invariants: each step keeps it.\<close>

locale step_invariant =
  fixes I :: "'s \<Rightarrow> bool" and fs :: "('s \<Rightarrow> 'e + 's) list"
  assumes step_keeps: "f \<in> set fs \<Longrightarrow> I s \<Longrightarrow> f s = Inr s' \<Longrightarrow> I s'"
begin

lemma run_keeps_aux:
  "set gs \<subseteq> set fs \<Longrightarrow> I s \<Longrightarrow> run_steps gs s = Inr s' \<Longrightarrow> I s'"
proof (induction gs arbitrary: s)
  case Nil
  then show ?case by simp
next
  case (Cons g gs)
  then obtain u where "g s = Inr u" and "run_steps gs u = Inr s'"
    by (auto split: sum.splits)
  with Cons step_keeps [of g s u] show ?case by auto
qed

lemma run_keeps: "I s \<Longrightarrow> run_steps fs s = Inr s' \<Longrightarrow> I s'"
  using run_keeps_aux [of fs] by blast

end

text \<open>Where every step moves forward in a preorder, so does a run.\<close>

locale step_growth = step_invariant I fs
  for I :: "'s \<Rightarrow> bool" and fs :: "('s \<Rightarrow> 'e + 's) list" +
  fixes R :: "'s \<Rightarrow> 's \<Rightarrow> bool"
  assumes R_refl: "I s \<Longrightarrow> R s s"
    and R_trans: "R s t \<Longrightarrow> R t u \<Longrightarrow> R s u"
    and step_grows: "f \<in> set fs \<Longrightarrow> I s \<Longrightarrow> f s = Inr s' \<Longrightarrow> R s s'"
begin

lemma run_grows_aux:
  "set gs \<subseteq> set fs \<Longrightarrow> I s \<Longrightarrow> run_steps gs s = Inr s' \<Longrightarrow> R s s'"
proof (induction gs arbitrary: s)
  case Nil
  then show ?case by (simp add: R_refl)
next
  case (Cons g gs)
  then obtain u where u: "g s = Inr u" "run_steps gs u = Inr s'"
    by (auto split: sum.splits)
  have "R s u" "I u" using Cons.prems step_grows [of g s u] step_keeps [of g s u] u(1) by auto
  with Cons u show ?case by (auto intro: R_trans)
qed

lemma run_grows: "I s \<Longrightarrow> run_steps fs s = Inr s' \<Longrightarrow> R s s'"
  using run_grows_aux [of fs] by blast

end

text \<open>
  Where an operation adds at most \<open>budget\<close> to the size of the state, and budgets never shrink, a
  run adds at most the sum of its operations' final budgets.
\<close>

locale step_budget =
  fixes I :: "'s \<Rightarrow> bool" and step :: "'o \<Rightarrow> 's \<Rightarrow> 'e + 's"
    and measure_of :: "'s \<Rightarrow> nat" and budget :: "'o \<Rightarrow> 's \<Rightarrow> nat"
  assumes budget_keeps: "I s \<Longrightarrow> step x s = Inr s' \<Longrightarrow> I s'"
    and step_within: "I s \<Longrightarrow> step x s = Inr s' \<Longrightarrow> measure_of s' \<le> measure_of s + budget x s'"
    and budget_mono: "I s \<Longrightarrow> step x s = Inr s' \<Longrightarrow> budget y s \<le> budget y s'"
begin

lemma run_budget_mono: "I s \<Longrightarrow> run_steps (map step xs) s = Inr s' \<Longrightarrow> budget y s \<le> budget y s'"
proof (induction xs arbitrary: s)
  case Nil
  then show ?case by simp
next
  case (Cons x xs)
  then obtain u where u: "step x s = Inr u" "run_steps (map step xs) u = Inr s'"
    by (auto simp: run_steps_Cons_Inr simp del: run_steps.simps)
  from budget_mono [OF Cons.prems(1) u(1)] Cons.IH [OF budget_keeps [OF Cons.prems(1) u(1)] u(2)]
  show ?case by (rule order_trans)
qed

lemma run_within:
  "I s \<Longrightarrow> run_steps (map step xs) s = Inr s' \<Longrightarrow>
     measure_of s' \<le> measure_of s + (\<Sum>x\<leftarrow>xs. budget x s')"
proof (induction xs arbitrary: s)
  case Nil
  then show ?case by simp
next
  case (Cons x xs)
  then obtain u where u: "step x s = Inr u" "run_steps (map step xs) u = Inr s'"
    by (auto simp: run_steps_Cons_Inr simp del: run_steps.simps)
  have I: "I u" by (rule budget_keeps [OF Cons.prems(1) u(1)])
  show ?case
    using step_within [OF Cons.prems(1) u(1)] run_budget_mono [OF I u(2), of x] Cons.IH [OF I u(2)] by simp
qed

end

section \<open>Go maps and their iteration order\<close>

text \<open>
  \<open>for k := range m\<close> visits every key once, in an order the language leaves open.  A loop
  over a map takes that order as an argument; \<open>iter_order m xs\<close> says it is a possible one.
\<close>

definition iter_order :: "('k \<rightharpoonup> 'v) \<Rightarrow> 'k list \<Rightarrow> bool" where
  "iter_order m xs \<longleftrightarrow> distinct xs \<and> set xs = dom m"

lemma iter_order_mset:
  "iter_order m xs \<Longrightarrow> iter_order m ys \<Longrightarrow> mset xs = mset ys"
  by (metis iter_order_def set_eq_iff_mset_eq_distinct)

lemma iter_order_in: "iter_order m xs \<Longrightarrow> k \<in> set xs \<longleftrightarrow> m k \<noteq> None"
  by (auto simp: iter_order_def)

section \<open>Order of names in a list\<close>

fun precedes :: "'a list \<Rightarrow> 'a \<Rightarrow> 'a \<Rightarrow> bool" where
  "precedes [] a b = False"
| "precedes (x # xs) a b = (if x = a then b \<in> set xs else x \<noteq> b \<and> precedes xs a b)"

lemma precedes_in_set:
  "precedes xs a b \<Longrightarrow> a \<in> set xs \<and> b \<in> set xs"
  by (induction xs) (auto split: if_splits)

lemma precedes_split:
  "precedes xs a b \<Longrightarrow> \<exists>us vs. xs = us @ a # vs \<and> a \<notin> set us \<and> b \<notin> set us \<and> b \<in> set vs"
proof (induction xs)
  case Nil
  then show ?case by simp
next
  case (Cons x xs)
  show ?case
  proof (cases "x = a")
    case True
    with Cons.prems show ?thesis by (intro exI [of _ "[]"] exI [of _ xs]) auto
  next
    case False
    with Cons.prems obtain us vs
      where "xs = us @ a # vs \<and> a \<notin> set us \<and> b \<notin> set us \<and> b \<in> set vs" and "x \<noteq> b"
      using Cons.IH by (auto split: if_splits)
    with False show ?thesis by (intro exI [of _ "x # us"] exI [of _ vs]) auto
  qed
qed

lemma precedes_map [simp]:
  "inj_on f (set xs \<union> {a, b}) \<Longrightarrow> precedes (map f xs) (f a) (f b) = precedes xs a b"
proof (induction xs)
  case Nil
  then show ?case by simp
next
  case (Cons x xs)
  have sub: "inj_on f (set xs \<union> {a, b})"
    by (rule inj_on_subset [OF Cons.prems]) auto
  have "f x = f a \<longleftrightarrow> x = a" "f x = f b \<longleftrightarrow> x = b"
    by (rule inj_on_eq_iff [OF Cons.prems], simp, simp)+
  moreover have "f b \<in> f ` set xs \<longleftrightarrow> b \<in> set xs"
    using inj_on_image_mem_iff [OF sub, of b "set xs"] by auto
  ultimately show ?case using Cons.IH [OF sub] by simp
qed

end
