(* ===== verification/GoNames.thy ===== *)
theory GoNames
  imports Prelude
begin

text \<open>
  The constants of imported packages that the application refers to (\<open>authtypes.ModuleName\<close>,
  \<open>evmtypes.StoreKey\<close>, \<open>authtypes.Minter\<close>, precompile addresses).  Their packages are not part
  of the repository, so a constant is a symbol, and its string value is given by a valuation
  \<open>cv :: pkg_const \<Rightarrow> string\<close>, a parameter of every definition that uses one.  Where a fact needs
  two constants to be different strings, it says so with an injectivity hypothesis on the
  symbols concerned.
\<close>

section \<open>Packages and their constants\<close>

datatype pkg =
    Auth | Bank | Consensus | Gov | Upgrade | Poa | Genutil
  | Ibc | Transfer | Gmp | Attestations
  | Evm | Feemarket | Erc20 | Tokenfactory | Ift

datatype precompile =
    P256 | Bech32 | BankPre | GovPre | ICS02
  | StakingPre | DistributionPre | SlashingPre | VestingPre | ICS20

text \<open>
  \<open>ModuleName Auth\<close> is Go's \<open>authtypes.ModuleName\<close>; \<open>PrecompileAddress P256\<close> is
  \<open>evmtypes.P256PrecompileAddress\<close>; \<open>MsgTypeURL s\<close> is \<open>sdk.MsgTypeURL(&s{})\<close> and
  \<open>MessageName s\<close> is \<open>proto.MessageName(&s{})\<close>, which depend on the message type only.
\<close>

datatype pkg_const =
    ModuleName pkg
  | StoreKey pkg
  | ObjectStoreKey pkg
  | TransientStoreKey pkg
  | PortID pkg
  | FeeCollectorName
  | Minter
  | Burner
  | PrecompileAddress precompile
  | DefaultBondDenom
  | MessageName string
  | MsgTypeURL string

type_synonym valuation = "pkg_const \<Rightarrow> string"

text \<open>A valuation used by the witnesses: every symbol has a value of its own.\<close>

primrec pkg_label :: "pkg \<Rightarrow> string" where
  "pkg_label Auth = ''a''" | "pkg_label Bank = ''b''" | "pkg_label Consensus = ''c''"
| "pkg_label Gov = ''g''" | "pkg_label Upgrade = ''u''" | "pkg_label Poa = ''p''"
| "pkg_label Genutil = ''n''" | "pkg_label Ibc = ''i''" | "pkg_label Transfer = ''t''"
| "pkg_label Gmp = ''m''" | "pkg_label Attestations = ''s''" | "pkg_label Evm = ''e''"
| "pkg_label Feemarket = ''f''" | "pkg_label Erc20 = ''r''"
| "pkg_label Tokenfactory = ''k''" | "pkg_label Ift = ''x''"

primrec precompile_label :: "precompile \<Rightarrow> string" where
  "precompile_label P256 = ''a''" | "precompile_label Bech32 = ''b''"
| "precompile_label BankPre = ''c''" | "precompile_label GovPre = ''d''"
| "precompile_label ICS02 = ''e''" | "precompile_label StakingPre = ''f''"
| "precompile_label DistributionPre = ''g''" | "precompile_label SlashingPre = ''h''"
| "precompile_label VestingPre = ''i''" | "precompile_label ICS20 = ''j''"

primrec sample_cv :: valuation where
  "sample_cv (ModuleName p) = CHR ''M'' # pkg_label p"
| "sample_cv (StoreKey p) = CHR ''S'' # pkg_label p"
| "sample_cv (ObjectStoreKey p) = CHR ''O'' # pkg_label p"
| "sample_cv (TransientStoreKey p) = CHR ''T'' # pkg_label p"
| "sample_cv (PortID p) = CHR ''P'' # pkg_label p"
| "sample_cv FeeCollectorName = ''F''"
| "sample_cv Minter = ''m''"
| "sample_cv Burner = ''b''"
| "sample_cv (PrecompileAddress p) = CHR ''A'' # precompile_label p"
| "sample_cv DefaultBondDenom = ''D''"
| "sample_cv (MessageName s) = CHR ''N'' # s"
| "sample_cv (MsgTypeURL s) = CHR ''U'' # s"

lemma pkg_label_inj: "pkg_label p = pkg_label q \<Longrightarrow> p = q"
  by (cases p; cases q) simp_all

lemma precompile_label_inj: "precompile_label p = precompile_label q \<Longrightarrow> p = q"
  by (cases p; cases q) simp_all

lemma sample_cv_inj: "inj sample_cv"
proof (rule injI)
  fix a b
  assume "sample_cv a = sample_cv b"
  then show "a = b"
    by (cases a; cases b) (auto dest: pkg_label_inj precompile_label_inj)
qed

lemma sample_cv_inj_on: "inj_on sample_cv A"
  by (rule inj_on_subset [OF sample_cv_inj]) simp

end
