(* ===== verification/Staking.thy ===== *)
theory Staking
  imports GoNames
begin

text \<open>
  \<open>poaStakingKeeper\<close> (\<open>app/app.go\<close>): the adapter that gives the EVM and ERC-20 modules the
  staking interface on top of the POA keeper.  Its one operation with logic is
  \<open>GetValidatorByConsAddr\<close>, which searches the active validators with a callback that mutates
  two captured variables.  The POA keeper's iteration and the address codecs are library code
  and parameters of the model.
\<close>

section \<open>The adapter and the library it calls\<close>

text \<open>Only \<open>OperatorAddress\<close> of \<open>stakingtypes.Validator\<close> is ever set; the other fields stay zero.\<close>

record validator =
  OperatorAddress :: string

definition zero_validator :: validator where
  "zero_validator = \<lparr>OperatorAddress = ''''\<rparr>"

text \<open>The part of \<open>poatypes.Validator\<close> that the code reads: \<open>v.Metadata.OperatorAddress\<close>.\<close>

record poa_validator =
  Metadata_OperatorAddress :: string

record 'poa poaStakingKeeper =
  denom :: string
  addrCodec :: string
  poa :: "'poa option"

text \<open>
  The captured variables of the closure, \<open>found\<close> and \<open>matched\<close>, are its state; a callback takes
  the state and returns the new one with its results \<open>(stop, err)\<close>.
\<close>

type_synonym search_state = "validator \<times> bool"
type_synonym 's callback =
  "bytes \<Rightarrow> int64 \<Rightarrow> poa_validator \<Rightarrow> 's \<Rightarrow> 's \<times> bool \<times> go_error option"

text \<open>
  Library functions: \<open>Keeper.IterateActiveValidators\<close>, \<open>ConsAddress.Equals\<close>,
  \<open>sdk.AccAddressFromBech32\<close> and \<open>ValAddress.String\<close>.  (\<open>sdk.ValAddress(accAddr)\<close> is a Go
  conversion between byte slices: the same bytes.)
\<close>

record ('poa, 'ctx) staking_lib =
  IterateActiveValidators ::
    "'poa \<Rightarrow> 'ctx \<Rightarrow> search_state callback \<Rightarrow> search_state \<Rightarrow> search_state \<times> go_error option"
  ConsAddress_Equals :: "bytes \<Rightarrow> bytes \<Rightarrow> bool"
  AccAddressFromBech32 :: "string \<Rightarrow> go_error + bytes"
  ValAddress_String :: "bytes \<Rightarrow> string"

section \<open>Operations\<close>

definition GetHistoricalInfo :: "'poa poaStakingKeeper \<Rightarrow> 'hist \<Rightarrow> 'hist \<times> go_error option" where
  "GetHistoricalInfo k zero_info = (zero_info, Some ErrNoHistoricalInfo)"

text \<open>The closure passed to the iteration, with its captured variables threaded through.\<close>

definition match_validator ::
  "('poa, 'ctx) staking_lib \<Rightarrow> bytes \<Rightarrow> search_state callback" where
  "match_validator L consAddr ca pw v st =
     (if ConsAddress_Equals L ca consAddr
      then (case AccAddressFromBech32 L (Metadata_OperatorAddress v) of
              Inl convErr \<Rightarrow> (st, True, Some convErr)
            | Inr accAddr \<Rightarrow>
                let valAddr = accAddr
                in ((\<lparr>OperatorAddress = ValAddress_String L valAddr\<rparr>, True), True, None))
      else (st, False, None))"

definition GetValidatorByConsAddr ::
  "('poa, 'ctx) staking_lib \<Rightarrow> 'poa poaStakingKeeper \<Rightarrow> 'ctx \<Rightarrow> bytes \<Rightarrow>
     validator \<times> go_error option" where
  "GetValidatorByConsAddr L k ctx consAddr =
     (case poa k of
        None \<Rightarrow> (zero_validator, Some ErrNoValidatorFound)
      | Some p \<Rightarrow>
          let ((found, matched), err) =
                IterateActiveValidators L p ctx (match_validator L consAddr) (zero_validator, False)
          in if err \<noteq> None \<or> \<not> matched
             then (zero_validator, Some ErrNoValidatorFound)
             else (found, None))"

definition ValidatorAddressCodec :: "'poa poaStakingKeeper \<Rightarrow> string" where
  "ValidatorAddressCodec k = addrCodec k"

definition BondDenom :: "'poa poaStakingKeeper \<Rightarrow> string \<times> go_error option" where
  "BondDenom k = (denom k, None)"

section \<open>What the library documents about the iteration\<close>

text \<open>
  \<open>IterateActiveValidators\<close> calls the callback on each active validator in turn, until the
  callback asks to stop or returns an error, which it passes on; it may also fail by itself
  after the last one (\<open>tail\<close>: a store error).
\<close>

fun iterate_until ::
  "'s callback \<Rightarrow> go_error option \<Rightarrow> (bytes \<times> int64 \<times> poa_validator) list \<Rightarrow> 's \<Rightarrow>
     's \<times> go_error option" where
  "iterate_until f tail [] s = (s, tail)"
| "iterate_until f tail ((ca, p, v) # vs) s =
     (case f ca p v s of
        (s', stop, err) \<Rightarrow>
          if err \<noteq> None then (s', err)
          else if stop then (s', None)
          else iterate_until f tail vs s')"

definition iterates_over ::
  "('poa, 'ctx) staking_lib \<Rightarrow> 'poa \<Rightarrow> 'ctx \<Rightarrow> (bytes \<times> int64 \<times> poa_validator) list \<Rightarrow>
     go_error option \<Rightarrow> bool" where
  "iterates_over L p ctx vs tail \<longleftrightarrow>
     (\<forall>f s. IterateActiveValidators L p ctx f s = iterate_until f tail vs s)"

section \<open>The search is a first-match lookup\<close>

text \<open>The specification: the first active validator with that address, rendered as an operator.\<close>

definition lookup_operator ::
  "('poa, 'ctx) staking_lib \<Rightarrow> bytes \<Rightarrow> (bytes \<times> int64 \<times> poa_validator) list \<Rightarrow> bytes option" where
  "lookup_operator L consAddr vs =
     (case find (\<lambda>(ca, _). ConsAddress_Equals L ca consAddr) vs of
        None \<Rightarrow> None
      | Some (_, _, v) \<Rightarrow>
          (case AccAddressFromBech32 L (Metadata_OperatorAddress v) of
             Inl _ \<Rightarrow> None | Inr b \<Rightarrow> Some b))"


text \<open>How the tail of \<open>GetValidatorByConsAddr\<close> reads the iteration's outcome.\<close>

fun search_outcome :: "search_state \<times> go_error option \<Rightarrow> validator \<times> go_error option" where
  "search_outcome ((found, matched), err) =
     (if err \<noteq> None \<or> \<not> matched then (zero_validator, Some ErrNoValidatorFound)
      else (found, None))"

fun operator_result ::
  "('poa, 'ctx) staking_lib \<Rightarrow> bytes option \<Rightarrow> validator \<times> go_error option" where
  "operator_result L None = (zero_validator, Some ErrNoValidatorFound)"
| "operator_result L (Some b) = (\<lparr>OperatorAddress = ValAddress_String L b\<rparr>, None)"

lemma GetValidatorByConsAddr_unfold:
  "poa k = Some p \<Longrightarrow> GetValidatorByConsAddr L k ctx consAddr =
     search_outcome (IterateActiveValidators L p ctx (match_validator L consAddr)
       (zero_validator, False))"
  by (auto simp: GetValidatorByConsAddr_def split: prod.splits)

lemma search_is_lookup:
  "search_outcome (iterate_until (match_validator L consAddr) tail vs (zero_validator, False)) =
     operator_result L (lookup_operator L consAddr vs)"
proof (induction vs)
  case Nil
  then show ?case by (simp add: lookup_operator_def)
next
  case (Cons w vs)
  obtain ca p v where w: "w = (ca, p, v)" by (cases w)
  show ?case
  proof (cases "ConsAddress_Equals L ca consAddr")
    case True
    then show ?thesis
      by (simp add: w match_validator_def lookup_operator_def Let_def split: sum.split)
  next
    case False
    with Cons.IH show ?thesis
      by (simp add: w match_validator_def lookup_operator_def)
  qed
qed

text \<open>A library for the witnesses: the POA keeper is its list of active validators.\<close>

definition sample_staking_lib ::
  "((bytes \<times> int64 \<times> poa_validator) list, unit) staking_lib" where
  "sample_staking_lib =
     \<lparr>IterateActiveValidators = (\<lambda>vs _ f s. iterate_until f None vs s),
      ConsAddress_Equals = (\<lambda>a b. a = b),
      AccAddressFromBech32 =
        (\<lambda>s. if s = ''bad'' then Inl (ErrLib ''decoding bech32 failed'') else Inr [9]),
      ValAddress_String = (\<lambda>b. ''valoper'')\<rparr>"

definition sample_validators :: "(bytes \<times> int64 \<times> poa_validator) list" where
  "sample_validators =
     [([1], 10, \<lparr>Metadata_OperatorAddress = ''bad''\<rparr>),
      ([2], 20, \<lparr>Metadata_OperatorAddress = ''cosmos1x''\<rparr>)]"

lemma sample_iterates_over:
  "iterates_over sample_staking_lib vs () vs None"
  by (simp add: iterates_over_def sample_staking_lib_def)

section \<open>Properties\<close>

text \<open>C24: The proposer lookup of the staking adapter is a first-match search: if the POA keeper
  iterates over the active validators as documented (in order, until the callback stops or
  fails), \<open>GetValidatorByConsAddr\<close> returns the operator address of the first validator whose
  consensus address equals the one asked for, re-encoded from the same bytes, and
  \<open>ErrNoValidatorFound\<close> with the zero validator when there is none, when its operator
  address does not decode, or when the iteration fails.\<close>

theorem GetValidatorByConsAddr_first_match:
  assumes "poa k = Some p" and "iterates_over L p ctx vs tail"
  shows "GetValidatorByConsAddr L k ctx consAddr = operator_result L (lookup_operator L consAddr vs)"
  using assms by (simp add: GetValidatorByConsAddr_unfold iterates_over_def search_is_lookup)

theorem GetValidatorByConsAddr_first_match_witness:
  "GetValidatorByConsAddr sample_staking_lib
     \<lparr>denom = ''stake'', addrCodec = ''c'', poa = Some sample_validators\<rparr> () [2] =
   (\<lparr>OperatorAddress = ''valoper''\<rparr>, None)"
  by (subst GetValidatorByConsAddr_first_match [OF _ sample_iterates_over], simp) code_simp

text \<open>Whatever the library does, the adapter reports one error only: its result is either a
  validator with a nil error, or the zero validator with \<open>ErrNoValidatorFound\<close> (never a
  half-filled validator, never a library error); without a POA keeper it is always the
  latter.\<close>

theorem GetValidatorByConsAddr_only_error:
  "(snd (GetValidatorByConsAddr L k ctx consAddr) = None \<and> poa k \<noteq> None) \<or>
   GetValidatorByConsAddr L k ctx consAddr = (zero_validator, Some ErrNoValidatorFound)"
  by (cases "poa k")
    (auto simp: GetValidatorByConsAddr_def GetValidatorByConsAddr_unfold split: prod.splits)

end
