(* ===== verification/Accounts.thy ===== *)
theory Accounts
  imports GoNames
begin

text \<open>
  The module accounts of the chain (\<open>maccPerms\<close> in \<open>app/app.go\<close>) and the set of addresses
  that may not receive coins (\<open>blockedAddresses\<close>).  The address of a module account,
  \<open>authtypes.NewModuleAddress(name).String()\<close>, is library code and a parameter.
\<close>

section \<open>Definitions\<close>

text \<open>
  A Go map literal with constant keys does not compile when two keys are equal, so the
  entries can be read in any order.  A nil permission list is the empty list.
\<close>

definition maccPerms_entries :: "(pkg_const \<times> pkg_const list) list" where
  "maccPerms_entries =
     [(FeeCollectorName, []),
      (ModuleName Gov, [Burner]),
      (ModuleName Poa, []),
      (ModuleName Transfer, [Minter, Burner]),
      (ModuleName Evm, [Minter, Burner]),
      (ModuleName Feemarket, []),
      (ModuleName Erc20, [Minter, Burner]),
      (ModuleName Tokenfactory, [Minter, Burner]),
      (ModuleName Gmp, []),
      (ModuleName Ift, [])]"

definition maccPerms :: "valuation \<Rightarrow> (string \<rightharpoonup> string list)" where
  "maccPerms cv = map_of (map (\<lambda>(n, ps). (cv n, map cv ps)) maccPerms_entries)"

text \<open>The loop of \<open>blockedAddresses\<close> over \<open>order\<close>, the iteration order of \<open>maccPerms\<close>.\<close>

fun block_all :: "(string \<Rightarrow> string) \<Rightarrow> string list \<Rightarrow> (string \<rightharpoonup> bool) \<Rightarrow> (string \<rightharpoonup> bool)" where
  "block_all module_address [] blocked = blocked"
| "block_all module_address (acc # accs) blocked =
     block_all module_address accs (blocked(module_address acc \<mapsto> True))"

definition blockedAddresses :: "(string \<Rightarrow> string) \<Rightarrow> string list \<Rightarrow> (string \<rightharpoonup> bool)" where
  "blockedAddresses module_address order = block_all module_address order Map.empty"

section \<open>Lemmas\<close>

lemma block_all_lookup:
  "block_all f accs b x = (if x \<in> f ` set accs then Some True else b x)"
  by (induction accs arbitrary: b) auto

lemma maccPerms_dom: "dom (maccPerms cv) = cv ` fst ` set maccPerms_entries"
  by (simp add: maccPerms_def dom_map_of_conv_image_fst image_image case_prod_unfold)

lemma maccPerms_lookup:
  assumes "inj_on cv (fst ` set maccPerms_entries)" and "(n, ps) \<in> set maccPerms_entries"
  shows "maccPerms cv (cv n) = Some (map cv ps)"
proof -
  let ?es = "map (\<lambda>(n, ps). (cv n, map cv ps)) maccPerms_entries"
  have "map fst ?es = map cv (map fst maccPerms_entries)"
    by (simp add: case_prod_unfold)
  moreover have "distinct (map cv (map fst maccPerms_entries))"
    using assms(1) by (subst distinct_map) (simp add: maccPerms_entries_def)
  ultimately have "distinct (map fst ?es)"
    by metis
  moreover have "(cv n, map cv ps) \<in> set ?es"
    using assms(2) by force
  ultimately show ?thesis
    by (simp add: maccPerms_def)
qed

section \<open>Properties\<close>

text \<open>C39: The set of blocked recipient addresses does not depend on the order in which Go
  iterates over \<open>maccPerms\<close>: for every iteration order it maps exactly the addresses of the
  ten module accounts to true, so no module account of the chain (the POA account that
  collects the fees included) can be sent coins by an ordinary transfer.\<close>

theorem blockedAddresses_are_module_accounts:
  assumes "iter_order (maccPerms cv) order"
  shows "blockedAddresses module_address order =
    (\<lambda>x. if x \<in> (module_address \<circ> cv) ` fst ` set maccPerms_entries then Some True else None)"
  using assms
  by (simp add: blockedAddresses_def block_all_lookup iter_order_def maccPerms_dom image_comp
      comp_def fun_eq_iff)

theorem blockedAddresses_are_module_accounts_witness:
  "blockedAddresses id (rev (map (sample_cv \<circ> fst) maccPerms_entries)) ''Mp'' = Some True"
proof -
  have "iter_order (maccPerms sample_cv) (rev (map (sample_cv \<circ> fst) maccPerms_entries))"
    by (simp add: iter_order_def maccPerms_dom) (simp add: maccPerms_entries_def)
  from blockedAddresses_are_module_accounts [OF this, of id] show ?thesis
    by (simp add: maccPerms_entries_def)
qed

text \<open>Only the modules that create or destroy coins hold those rights: a module account can
  mint exactly when it is the transfer, EVM, ERC-20 or token-factory account, and can burn
  exactly when it can mint or is the governance account; fee collector, POA, fee market,
  GMP and IFT hold no permission at all.\<close>

theorem mint_and_burn_permissions:
  assumes inj: "inj_on cv (fst ` set maccPerms_entries)" "cv Minter \<noteq> cv Burner"
    and acc: "maccPerms cv acc = Some ps"
  shows "(cv Minter \<in> set ps \<longleftrightarrow>
            acc \<in> cv ` {ModuleName Transfer, ModuleName Evm, ModuleName Erc20, ModuleName Tokenfactory})
       \<and> (cv Burner \<in> set ps \<longleftrightarrow> cv Minter \<in> set ps \<or> acc = cv (ModuleName Gov))
       \<and> set ps \<subseteq> {cv Minter, cv Burner}"
proof -
  have eq: "cv a = cv b \<longleftrightarrow> a = b"
    if "a \<in> fst ` set maccPerms_entries" "b \<in> fst ` set maccPerms_entries" for a b
    using inj_on_eq_iff [OF inj(1) that] .
  from acc obtain n rs where entry: "(n, rs) \<in> set maccPerms_entries" "acc = cv n" "ps = map cv rs"
    unfolding maccPerms_def by (auto dest!: map_of_SomeD)
  then have "n \<in> fst ` set maccPerms_entries" by force
  then have names: "acc = cv m \<longleftrightarrow> n = m" if "m \<in> fst ` set maccPerms_entries" for m
    using eq [OF _ that] entry(2) by simp
  have "acc \<in> cv ` {ModuleName Transfer, ModuleName Evm, ModuleName Erc20, ModuleName Tokenfactory}
      \<longleftrightarrow> n \<in> {ModuleName Transfer, ModuleName Evm, ModuleName Erc20, ModuleName Tokenfactory}"
    using names by (simp add: maccPerms_entries_def)
  moreover have "acc = cv (ModuleName Gov) \<longleftrightarrow> n = ModuleName Gov"
    using names by (simp add: maccPerms_entries_def)
  ultimately show ?thesis
    using entry inj(2) by (auto simp: maccPerms_entries_def)
qed

theorem mint_and_burn_permissions_witness:
  "sample_cv Burner \<in> {sample_cv Burner} \<and> sample_cv Minter \<notin> {sample_cv Burner}"
proof -
  have "maccPerms sample_cv (sample_cv (ModuleName Gov)) = Some [sample_cv Burner]"
    by (simp add: maccPerms_def maccPerms_entries_def)
  from mint_and_burn_permissions [OF sample_cv_inj_on _ this] show ?thesis
    by (simp del: sample_cv.simps add: inj_eq [OF sample_cv_inj])
qed

end
