(* ===== verification/Genesis.thy ===== *)
theory Genesis
  imports GoNames
begin

text \<open>
  The default genesis (\<open>app/genesis.go\<close> and \<open>SandboxApp.DefaultGenesis\<close> of
  \<open>app/app.go\<close>): the EVM genesis with the chain's precompiles, the bank metadata of the EVM
  coin, the bank module override that \<open>sandboxd init\<close> uses and the genesis map of the
  application.  The default states of the library modules and the JSON codec are parameters.
\<close>

section \<open>Data\<close>

text \<open>Fields of the library's genesis types that the code never touches are kept in \<open>*_rest\<close>.\<close>

record denom_unit =
  Denom :: string
  Exponent :: uint32

record metadata =
  Description :: string
  Base :: string
  Display :: string
  Name :: string
  Symbol :: string
  DenomUnits :: "denom_unit list"

record 'b bank_genesis =
  bank_rest :: 'b
  DenomMetadata :: "metadata list"

record 'p evm_params =
  params_rest :: 'p
  EvmDenom :: string
  ActiveStaticPrecompiles :: "string list"

record ('e, 'p, 'i) evm_genesis =
  evm_rest :: 'e
  Params :: "'p evm_params"
  Preinstalls :: "'i list"

text \<open>
  The library: \<open>evmtypes\<close> defaults, the bank module's own default genesis, and the codec.
  \<open>MustUnmarshalJSON\<close> panics on bad input, so it may stop; a missing key of a Go map reads as
  a nil slice, so it takes an optional raw message.
\<close>

record ('e, 'p, 'i, 'b, 'raw) genesis_lib =
  DefaultGenesisState :: "('e, 'p, 'i) evm_genesis"
  DefaultPreinstalls :: "'i list"
  DefaultParams :: "'p evm_params"
  bank_DefaultGenesis :: 'raw
  MustUnmarshalBank :: "'raw option \<Rightarrow> stop + 'b bank_genesis"
  MustMarshalBank :: "'b bank_genesis \<Rightarrow> 'raw"
  MustMarshalEvm :: "('e, 'p, 'i) evm_genesis \<Rightarrow> 'raw"

text \<open>\<open>GenesisState\<close>: a raw JSON message per module name.\<close>

type_synonym 'raw GenesisState = "string \<rightharpoonup> 'raw"

section \<open>Operations of \<open>genesis.go\<close>\<close>

definition ActivePrecompiles :: "valuation \<Rightarrow> string list" where
  "ActivePrecompiles cv =
     map (cv \<circ> PrecompileAddress) [P256, Bech32, BankPre, GovPre, ICS02]"

definition NewEVMGenesisState ::
  "valuation \<Rightarrow> ('e, 'p, 'i, 'b, 'raw) genesis_lib \<Rightarrow> ('e, 'p, 'i) evm_genesis" where
  "NewEVMGenesisState cv L =
     (let gen = DefaultGenesisState L;
          gen = gen\<lparr>Params := (Params gen)\<lparr>ActiveStaticPrecompiles := ActivePrecompiles cv\<rparr>\<rparr>;
          gen = gen\<lparr>Preinstalls := DefaultPreinstalls L\<rparr>
      in gen)"

definition EVMBankDenomMetadata :: "string \<Rightarrow> metadata" where
  "EVMBankDenomMetadata evmDenom =
     (let displayDenom = evmDenom @ ''-display'' in
      \<lparr>Description = ''Native 18-decimal denom metadata for the sandbox EVM chain'',
       Base = evmDenom,
       Display = displayDenom,
       Name = ''Sandbox'',
       Symbol = ''SBX'',
       DenomUnits =
         [\<lparr>Denom = evmDenom, Exponent = 0\<rparr>,
          \<lparr>Denom = displayDenom, Exponent = 18\<rparr>]\<rparr>)"

definition append_metadata :: "metadata \<Rightarrow> 'b bank_genesis \<Rightarrow> 'b bank_genesis" where
  "append_metadata m gs = gs\<lparr>DenomMetadata := DenomMetadata gs @ [m]\<rparr>"

text \<open>\<open>bankBasicWithEVMDenomMetadata.DefaultGenesis\<close>, the override that \<open>sandboxd init\<close> runs.\<close>

definition bankBasic_DefaultGenesis ::
  "('e, 'p, 'i, 'b, 'raw) genesis_lib \<Rightarrow> stop + 'raw" where
  "bankBasic_DefaultGenesis L =
     (case MustUnmarshalBank L (Some (bank_DefaultGenesis L)) of
        Inl s \<Rightarrow> Inl s
      | Inr gs \<Rightarrow>
          Inr (MustMarshalBank L
            (append_metadata (EVMBankDenomMetadata (EvmDenom (DefaultParams L))) gs)))"

section \<open>\<open>SandboxApp.DefaultGenesis\<close>\<close>

text \<open>
  \<open>basic\<close> is what \<open>app.BasicModuleManager.DefaultGenesis\<close> returned: a genesis entry per module.
\<close>

definition App_DefaultGenesis ::
  "valuation \<Rightarrow> ('e, 'p, 'i, 'b, 'raw) genesis_lib \<Rightarrow> 'raw GenesisState \<Rightarrow>
     stop + 'raw GenesisState" where
  "App_DefaultGenesis cv L basic =
     (let genesis = basic;
          evmGenState = NewEVMGenesisState cv L;
          genesis = genesis(cv (ModuleName Evm) \<mapsto> MustMarshalEvm L evmGenState)
      in case MustUnmarshalBank L (genesis (cv (ModuleName Bank))) of
           Inl s \<Rightarrow> Inl s
         | Inr bankGen \<Rightarrow>
             let bankGen = append_metadata
                   (EVMBankDenomMetadata (EvmDenom (Params evmGenState))) bankGen
             in Inr (genesis(cv (ModuleName Bank) \<mapsto> MustMarshalBank L bankGen)))"

text \<open>
  What the code relies on: the codec reads back what it wrote, the bank module's own default
  genesis decodes, and the basic manager runs the bank override for the bank module
  (\<open>NewBasicManagerFromManager\<close> takes the overrides of its map).
\<close>

definition codec_roundtrip :: "('e, 'p, 'i, 'b, 'raw) genesis_lib \<Rightarrow> bool" where
  "codec_roundtrip L \<longleftrightarrow> (\<forall>g. MustUnmarshalBank L (Some (MustMarshalBank L g)) = Inr g)"

definition bank_default_decodes ::
  "('e, 'p, 'i, 'b, 'raw) genesis_lib \<Rightarrow> 'b bank_genesis \<Rightarrow> bool" where
  "bank_default_decodes L gs \<longleftrightarrow> MustUnmarshalBank L (Some (bank_DefaultGenesis L)) = Inr gs"

definition runs_bank_override ::
  "valuation \<Rightarrow> ('e, 'p, 'i, 'b, 'raw) genesis_lib \<Rightarrow> (string \<rightharpoonup> 'raw) \<Rightarrow> bool" where
  "runs_bank_override cv L basic \<longleftrightarrow>
     (\<exists>raw. basic (cv (ModuleName Bank)) = Some raw \<and> bankBasic_DefaultGenesis L = Inr raw)"

section \<open>Lemmas\<close>

lemma append_metadata_sel [simp]:
  "DenomMetadata (append_metadata m gs) = DenomMetadata gs @ [m]"
  "bank_rest (append_metadata m gs) = bank_rest gs"
  by (simp_all add: append_metadata_def)

lemma NewEVMGenesisState_sel [simp]:
  "EvmDenom (Params (NewEVMGenesisState cv L)) = EvmDenom (Params (DefaultGenesisState L))"
  "ActiveStaticPrecompiles (Params (NewEVMGenesisState cv L)) = ActivePrecompiles cv"
  "Preinstalls (NewEVMGenesisState cv L) = DefaultPreinstalls L"
  by (simp_all add: NewEVMGenesisState_def Let_def)

lemma EVMBankDenomMetadata_sel [simp]:
  "Base (EVMBankDenomMetadata d) = d"
  "Display (EVMBankDenomMetadata d) = d @ ''-display''"
  "DenomUnits (EVMBankDenomMetadata d) =
     [\<lparr>Denom = d, Exponent = 0\<rparr>, \<lparr>Denom = d @ ''-display'', Exponent = 18\<rparr>]"
  by (simp_all add: EVMBankDenomMetadata_def Let_def)

lemma bankBasic_DefaultGenesis_decodes:
  assumes "codec_roundtrip L" and "bank_default_decodes L gs"
  shows "\<exists>raw. bankBasic_DefaultGenesis L = Inr raw \<and>
    MustUnmarshalBank L (Some raw) =
      Inr (append_metadata (EVMBankDenomMetadata (EvmDenom (DefaultParams L))) gs)"
  using assms by (simp add: bankBasic_DefaultGenesis_def bank_default_decodes_def codec_roundtrip_def)

lemma App_DefaultGenesis_frame:
  "App_DefaultGenesis cv L basic = Inr g \<Longrightarrow> n \<noteq> cv (ModuleName Evm) \<Longrightarrow>
     n \<noteq> cv (ModuleName Bank) \<Longrightarrow> g n = basic n"
  by (auto simp: App_DefaultGenesis_def Let_def split: sum.splits)

text \<open>A library for the witnesses: raw messages are the bank genesis itself.\<close>

definition sample_genesis_lib :: "(unit, unit, nat, unit, unit bank_genesis) genesis_lib" where
  "sample_genesis_lib =
     \<lparr>DefaultGenesisState =
        \<lparr>evm_rest = (),
         Params = \<lparr>params_rest = (), EvmDenom = ''aatom'', ActiveStaticPrecompiles = [''all'']\<rparr>,
         Preinstalls = []\<rparr>,
      DefaultPreinstalls = [7],
      DefaultParams = \<lparr>params_rest = (), EvmDenom = ''aatom'', ActiveStaticPrecompiles = []\<rparr>,
      bank_DefaultGenesis = \<lparr>bank_rest = (), DenomMetadata = []\<rparr>,
      MustUnmarshalBank =
        (\<lambda>r. case r of None \<Rightarrow> Inl (PanicErr (ErrLib ''EOF'')) | Some g \<Rightarrow> Inr g),
      MustMarshalBank = (\<lambda>g. g),
      MustMarshalEvm = (\<lambda>g. \<lparr>bank_rest = (), DenomMetadata = []\<rparr>)\<rparr>"

lemma sample_codec:
  "codec_roundtrip sample_genesis_lib"
  "bank_default_decodes sample_genesis_lib \<lparr>bank_rest = (), DenomMetadata = []\<rparr>"
  by (simp_all add: codec_roundtrip_def bank_default_decodes_def sample_genesis_lib_def)

lemma sample_override:
  "runs_bank_override sample_cv sample_genesis_lib
     [sample_cv (ModuleName Bank) \<mapsto>
        \<lparr>bank_rest = (), DenomMetadata = [EVMBankDenomMetadata ''aatom'']\<rparr>]"
  by (simp add: runs_bank_override_def bankBasic_DefaultGenesis_def sample_genesis_lib_def
      append_metadata_def)

section \<open>Properties\<close>

text \<open>C20: \<open>SandboxApp.DefaultGenesis\<close> enters the metadata of the EVM coin twice: the basic
  manager it starts from already runs the bank override, which appends the entry, and the
  method appends the same entry again.  With the library's two defaults for the EVM denom
  equal, the bank genesis it returns ends in two entries with the same base denom, so the
  list of base denoms is not distinct.\<close>

theorem App_DefaultGenesis_duplicates_metadata:
  assumes names: "cv (ModuleName Evm) \<noteq> cv (ModuleName Bank)"
    and codec: "codec_roundtrip L" and dflt: "bank_default_decodes L gs"
    and ovr: "runs_bank_override cv L basic"
    and denom: "EvmDenom (Params (DefaultGenesisState L)) = EvmDenom (DefaultParams L)"
  shows "\<exists>genesis raw bank.
      App_DefaultGenesis cv L basic = Inr genesis
    \<and> genesis (cv (ModuleName Bank)) = Some raw
    \<and> MustUnmarshalBank L (Some raw) = Inr bank
    \<and> DenomMetadata bank = DenomMetadata gs @
        [EVMBankDenomMetadata (EvmDenom (DefaultParams L)),
         EVMBankDenomMetadata (EvmDenom (DefaultParams L))]
    \<and> \<not> distinct (map Base (DenomMetadata bank))"
proof -
  from ovr obtain raw where raw: "basic (cv (ModuleName Bank)) = Some raw"
    and run: "bankBasic_DefaultGenesis L = Inr raw"
    by (auto simp: runs_bank_override_def)
  from run bankBasic_DefaultGenesis_decodes [OF codec dflt]
  have "MustUnmarshalBank L (Some raw) =
      Inr (append_metadata (EVMBankDenomMetadata (EvmDenom (DefaultParams L))) gs)"
    by auto
  with names raw denom codec show ?thesis
    by (auto simp: App_DefaultGenesis_def Let_def codec_roundtrip_def)
qed

theorem App_DefaultGenesis_duplicates_metadata_witness:
  "\<exists>genesis raw bank.
      App_DefaultGenesis sample_cv sample_genesis_lib
        [sample_cv (ModuleName Bank) \<mapsto>
          \<lparr>bank_rest = (), DenomMetadata = [EVMBankDenomMetadata ''aatom'']\<rparr>] = Inr genesis
    \<and> genesis (sample_cv (ModuleName Bank)) = Some raw
    \<and> MustUnmarshalBank sample_genesis_lib (Some raw) = Inr bank
    \<and> \<not> distinct (map Base (DenomMetadata bank))"
  using App_DefaultGenesis_duplicates_metadata [OF _ sample_codec sample_override]
  by (simp add: sample_genesis_lib_def) blast

text \<open>On the path of \<open>sandboxd init\<close>, which runs the bank override alone, the entry is there
  exactly once and everything else of the bank genesis is the module's default: decoding the
  written genesis gives the default with one metadata entry appended, whose base is the EVM
  module's default denom.\<close>

theorem init_genesis_has_metadata_once:
  assumes "codec_roundtrip L" and "bank_default_decodes L gs"
    and "EvmDenom (DefaultParams L) \<notin> Base ` set (DenomMetadata gs)"
  shows "\<exists>raw bank. bankBasic_DefaultGenesis L = Inr raw
    \<and> MustUnmarshalBank L (Some raw) = Inr bank
    \<and> bank_rest bank = bank_rest gs
    \<and> butlast (DenomMetadata bank) = DenomMetadata gs
    \<and> filter (\<lambda>m. Base m = EvmDenom (DefaultParams L)) (DenomMetadata bank) =
        [EVMBankDenomMetadata (EvmDenom (DefaultParams L))]"
proof -
  have "filter (\<lambda>m. Base m = EvmDenom (DefaultParams L)) (DenomMetadata gs) = []"
    using assms(3) by (force simp: filter_empty_conv)
  with bankBasic_DefaultGenesis_decodes [OF assms(1,2)] show ?thesis
    by auto
qed

theorem init_genesis_has_metadata_once_witness:
  "\<exists>raw bank. bankBasic_DefaultGenesis sample_genesis_lib = Inr raw
    \<and> MustUnmarshalBank sample_genesis_lib (Some raw) = Inr bank
    \<and> filter (\<lambda>m. Base m = ''aatom'') (DenomMetadata bank) = [EVMBankDenomMetadata ''aatom'']"
  using init_genesis_has_metadata_once [OF sample_codec]
  by (simp add: sample_genesis_lib_def) blast

text \<open>The metadata is well formed for every denom, the empty one included: the units start
  with the base denom at exponent 0 and have strictly increasing exponents and distinct
  names, and reading the exponent of the display unit (as the EVM module derives its
  decimals) gives exactly 18, because the display denom never equals the base.\<close>

theorem EVMBankDenomMetadata_well_formed:
  "Display (EVMBankDenomMetadata d) \<noteq> Base (EVMBankDenomMetadata d)
 \<and> distinct (map Denom (DenomUnits (EVMBankDenomMetadata d)))
 \<and> sorted_wrt (<) (map Exponent (DenomUnits (EVMBankDenomMetadata d)))
 \<and> map_of (map (\<lambda>u. (Denom u, Exponent u)) (DenomUnits (EVMBankDenomMetadata d)))
     (Base (EVMBankDenomMetadata d)) = Some 0
 \<and> map_of (map (\<lambda>u. (Denom u, Exponent u)) (DenomUnits (EVMBankDenomMetadata d)))
     (Display (EVMBankDenomMetadata d)) = Some 18"
  by simp

text \<open>The EVM genesis of the chain activates exactly the five precompiles the chain backs
  (P256, Bech32, Bank, Gov, ICS-02), each once; the staking, distribution, slashing, vesting
  and ICS-20 precompiles are not active, whatever the library's default list was; and
  everything else but the preinstalls stays the library's default.\<close>

theorem NewEVMGenesisState_precompiles:
  assumes "inj_on cv (range PrecompileAddress)"
  shows "distinct (ActiveStaticPrecompiles (Params (NewEVMGenesisState cv L)))
    \<and> (cv (PrecompileAddress p) \<in> set (ActiveStaticPrecompiles (Params (NewEVMGenesisState cv L)))
         \<longleftrightarrow> p \<notin> {StakingPre, DistributionPre, SlashingPre, VestingPre, ICS20})
    \<and> Preinstalls (NewEVMGenesisState cv L) = DefaultPreinstalls L
    \<and> evm_rest (NewEVMGenesisState cv L) = evm_rest (DefaultGenesisState L)
    \<and> EvmDenom (Params (NewEVMGenesisState cv L)) = EvmDenom (Params (DefaultGenesisState L))
    \<and> params_rest (Params (NewEVMGenesisState cv L)) = params_rest (Params (DefaultGenesisState L))"
proof -
  have eq: "cv (PrecompileAddress a) = cv (PrecompileAddress b) \<longleftrightarrow> a = b" for a b
    using assms by (auto dest: inj_onD)
  show ?thesis
    by (cases p) (simp_all add: ActivePrecompiles_def eq NewEVMGenesisState_def Let_def)
qed

theorem NewEVMGenesisState_precompiles_witness:
  "sample_cv (PrecompileAddress ICS20) \<notin>
     set (ActiveStaticPrecompiles (Params (NewEVMGenesisState sample_cv sample_genesis_lib)))"
  using NewEVMGenesisState_precompiles [OF sample_cv_inj_on, where p = ICS20 and L = sample_genesis_lib]
  by simp

text \<open>\<open>SandboxApp.DefaultGenesis\<close> overwrites the genesis of the EVM and bank modules only:
  every other module's entry is the one the basic manager produced, and the EVM entry is the
  encoding of the chain's own EVM genesis.\<close>

theorem App_DefaultGenesis_touches_two_modules:
  assumes "App_DefaultGenesis cv L basic = Inr genesis"
    and "cv (ModuleName Evm) \<noteq> cv (ModuleName Bank)"
  shows "\<exists>bank. genesis = basic(cv (ModuleName Evm) \<mapsto> MustMarshalEvm L (NewEVMGenesisState cv L),
                              cv (ModuleName Bank) \<mapsto> MustMarshalBank L bank)
    \<and> EVMBankDenomMetadata (EvmDenom (Params (DefaultGenesisState L))) = last (DenomMetadata bank)"
  using assms by (auto simp: App_DefaultGenesis_def Let_def split: sum.splits)

theorem App_DefaultGenesis_touches_two_modules_witness:
  "\<exists>g. App_DefaultGenesis sample_cv sample_genesis_lib
      [''Mb'' \<mapsto> \<lparr>bank_rest = (), DenomMetadata = []\<rparr>, ''Ma'' \<mapsto> bank_DefaultGenesis sample_genesis_lib]
      = Inr g \<and> g ''Ma'' = Some (bank_DefaultGenesis sample_genesis_lib)"
proof -
  let ?b = "[''Mb'' \<mapsto> \<lparr>bank_rest = (), DenomMetadata = []\<rparr>,
             ''Ma'' \<mapsto> bank_DefaultGenesis sample_genesis_lib]"
  obtain g where g: "App_DefaultGenesis sample_cv sample_genesis_lib ?b = Inr g"
    by (simp add: App_DefaultGenesis_def Let_def sample_genesis_lib_def)
  from App_DefaultGenesis_touches_two_modules [OF g] g show ?thesis by auto
qed

end
