(* ===== verification/Values.thy ===== *)
theory Values
  imports GoNames
begin

text \<open>
  The values the application passes to library code.  A library object is opaque: what the
  model keeps of it is which library expression made it, from which arguments.  So a library
  call is an uninterpreted term \<open>Lib f args\<close>, an object that a constructor of \<open>NewApp\<close>
  made is \<open>Obj c\<close> (no constructor is called twice, lemma \<open>callees_distinct\<close> of theory WiringSpec, so
  the name tells the object), and the arguments distinguish what matters to the wiring: a store key, the
  nil a missing map entry reads as, the zero value of a struct field that is not assigned yet,
  a pointer to a field of the application and a method bound to it.
\<close>

section \<open>Store keys and values\<close>

datatype store_key =
    KVStoreKey string
  | ObjectKey string
  | TransientKey string

text \<open>
  \<open>Nil\<close> is a nil written in the source; \<open>NilKey\<close> is the nil pointer that indexing a key map
  at an absent name gives; \<open>Zero f\<close> is the zero value of the application's field \<open>f\<close>;
  \<open>FieldPtr f\<close> is \<open>&app.f\<close>; \<open>Lib ''*'' [v]\<close> is \<open>*v\<close> and \<open>Lib ''&'' [v]\<close> is \<open>&v\<close> of another value \<open>v\<close>; \<open>Bound m\<close> is the method value \<open>app.m\<close>; \<open>Local x\<close> is a local
  map or slice whose content the state of \<open>NewApp\<close> holds.
\<close>

datatype val =
    Nil
  | NilKey
  | Zero string
  | SKey store_key
  | Str string
  | U64 uint64
  | BoolV bool
  | Obj string
  | Lib string "val list"
  | AppModule pkg "val list"
  | FieldPtr string
  | Bound string
  | Local string
  | AppSelf

text \<open>Indexing a map of store keys.\<close>

definition key_at :: "(string \<rightharpoonup> store_key) \<Rightarrow> string \<Rightarrow> val" where
  "key_at m n = (case m n of Some k \<Rightarrow> SKey k | None \<Rightarrow> NilKey)"

text \<open>
  Selecting a field or method of a library object through a pointer: a nil pointer panics.
\<close>

definition sel :: "string \<Rightarrow> val \<Rightarrow> val" where
  "sel name v = Lib (CHR ''.'' # name) [v]"

definition through :: "val \<Rightarrow> 'a \<Rightarrow> stop + 'a" where
  "through v r =
     (case v of Nil \<Rightarrow> Inl (NilDeref ''nil'') | Zero f \<Rightarrow> Inl (NilDeref f) | _ \<Rightarrow> Inr r)"

section \<open>What a value contains\<close>

text \<open>\<open>clean v\<close>: no part of \<open>v\<close> is a field read before its assignment or a missing store key.\<close>

fun clean :: "val \<Rightarrow> bool" where
  "clean NilKey = False"
| "clean (Zero f) = False"
| "clean (Lib f vs) = list_all clean vs"
| "clean (AppModule p vs) = list_all clean vs"
| "clean v = True"

text \<open>The store keys handed over in a value, each as often as it occurs.\<close>

fun keys_in :: "val \<Rightarrow> store_key list" where
  "keys_in (SKey k) = [k]"
| "keys_in (Lib f vs) = concat (map keys_in vs)"
| "keys_in (AppModule p vs) = concat (map keys_in vs)"
| "keys_in v = []"

text \<open>The fields of the application that a value points to.\<close>

fun pointers_in :: "val \<Rightarrow> string list" where
  "pointers_in (FieldPtr f) = [f]"
| "pointers_in (Lib f vs) = concat (map pointers_in vs)"
| "pointers_in (AppModule p vs) = concat (map pointers_in vs)"
| "pointers_in v = []"

section \<open>The trace of library calls\<close>

text \<open>
  \<open>Call f args\<close>: a call of a library function for its effect or its fresh object;
  \<open>Method r m args\<close>: a call of the library method \<open>m\<close> on \<open>r\<close> that changes \<open>r\<close>.
\<close>

datatype event =
    Call string "val list"
  | Method val string "val list"

primrec event_vals :: "event \<Rightarrow> val list" where
  "event_vals (Call f args) = args"
| "event_vals (Method r m args) = r # args"

definition event_clean :: "event \<Rightarrow> bool" where
  "event_clean e = list_all clean (event_vals e)"

definition event_keys :: "event \<Rightarrow> store_key list" where
  "event_keys e = concat (map keys_in (event_vals e))"

definition event_pointers :: "event \<Rightarrow> string list" where
  "event_pointers e = concat (map pointers_in (event_vals e))"

lemma event_clean_simps [simp]:
  "event_clean (Call f args) = list_all clean args"
  "event_clean (Method r m args) = (clean r \<and> list_all clean args)"
  by (simp_all add: event_clean_def)

lemma event_keys_simps [simp]:
  "event_keys (Call f args) = concat (map keys_in args)"
  "event_keys (Method r m args) = keys_in r @ concat (map keys_in args)"
  by (simp_all add: event_keys_def)

lemma event_pointers_simps [simp]:
  "event_pointers (Call f args) = concat (map pointers_in args)"
  "event_pointers (Method r m args) = pointers_in r @ concat (map pointers_in args)"
  by (simp_all add: event_pointers_def)

lemma sel_parts [simp]:
  "clean (sel n v) = clean v" "keys_in (sel n v) = keys_in v"
  "pointers_in (sel n v) = pointers_in v"
  by (simp_all add: sel_def)

text \<open>Rewriting never needs to look into the names of library functions.\<close>

lemma val_arg_congs:
  "vs = vs' \<Longrightarrow> Lib f vs = Lib f vs'"
  "vs = vs' \<Longrightarrow> Call f vs = Call f vs'"
  "r = r' \<Longrightarrow> vs = vs' \<Longrightarrow> Method r f vs = Method r' f vs'"
  by simp_all

lemma val_name_congs:
  "Obj c = Obj c" "Local x = Local x" "Zero f = Zero f" "FieldPtr f = FieldPtr f" "Bound m = Bound m"
  by simp_all

lemmas val_congs = val_arg_congs val_name_congs

lemma through_Inr [simp]:
  "through (Obj c) r = Inr r" "through (Lib f vs) r = Inr r"
  by (simp_all add: through_def)

lemma key_at_Some [simp]: "m n = Some k \<Longrightarrow> key_at m n = SKey k"
  by (simp add: key_at_def)

end
