(* ===== verification/Ante.thy ===== *)
theory Ante
  imports Values
begin

text \<open>
  The ante handler (\<open>app/ante.go\<close>) and the registry of pending-transaction listeners
  (\<open>onPendingTx\<close>, \<open>RegisterPendingTxListener\<close> in \<open>app/app.go\<close>): how a transaction is routed
  to the EVM or the Cosmos pipeline and which decorators, in which order, each pipeline
  consists of.  What a decorator does and how \<open>sdk.ChainAnteDecorators\<close> links decorators is
  library code: a parameter.
\<close>

section \<open>Transactions, options and decorators\<close>

text \<open>
  An \<open>sdk.Tx\<close> interface value: nil, or a transaction whose dynamic type does
  (\<open>Some urls\<close>, the type URLs of \<open>GetExtensionOptions()\<close>) or does not (\<open>None\<close>) implement
  \<open>HasExtensionOptionsTx\<close>.
\<close>

datatype 'm sdk_tx =
    NilTx
  | SdkTx "string list option" 'm

record handler_options =
  ho_Cdc :: val
  ho_AccountKeeper :: val
  ho_BankKeeper :: val
  ho_ExtensionOptionChecker :: val
  ho_EvmKeeper :: val
  ho_IBCKeeper :: val
  ho_FeeMarketKeeper :: val
  ho_FeegrantKeeper :: val
  ho_SignModeHandler :: val
  ho_SigGasConsumer :: val
  ho_MaxTxGasWanted :: uint64
  ho_DynamicFeeChecker :: bool
  ho_PendingTxListener :: val

text \<open>
  A decorator is the constructor call that makes it.  \<open>'e\<close> and \<open>'f\<close> are the parameters of the
  EVM and fee-market modules; a nil \<open>TxFeeChecker\<close> is \<open>None\<close>.
\<close>

datatype 'f fee_checker = DynamicFeeChecker 'f

datatype ('e, 'f) decorator =
    EVMMonoDecorator val val val uint64 'e 'f
  | TxListenerDecorator val
  | RejectMessagesDecorator
  | AuthzLimiterDecorator "string list"
  | SetUpContextDecorator
  | ExtensionOptionsDecorator val
  | ValidateBasicDecorator
  | TxTimeoutHeightDecorator
  | ValidateMemoDecorator val
  | MinGasPriceDecorator 'f
  | ConsumeGasForTxSizeDecorator val
  | DeductFeeDecorator val val val "'f fee_checker option" string
  | SetPubKeyDecorator val
  | ValidateSigCountDecorator val
  | SigGasConsumeDecorator val val
  | SigVerificationDecorator val val
  | IncrementSequenceDecorator val
  | RedundantRelayDecorator val

type_synonym ('c, 'm) ante_handler = "'c \<Rightarrow> 'm sdk_tx \<Rightarrow> bool \<Rightarrow> 'c \<times> go_error option"

text \<open>
  Library calls: reading the module parameters at a context, and linking decorators.
\<close>

record ('c, 'm, 'e, 'f) ante_lib =
  Evm_GetParams :: "val \<Rightarrow> 'c \<Rightarrow> 'e"
  FeeMarket_GetParams :: "val \<Rightarrow> 'c \<Rightarrow> 'f"
  ChainAnteDecorators :: "('e, 'f) decorator list \<Rightarrow> ('c, 'm) ante_handler"

section \<open>The two pipelines\<close>

definition newEVMAnteHandler ::
  "('c, 'm, 'e, 'f) ante_lib \<Rightarrow> 'c \<Rightarrow> handler_options \<Rightarrow> ('c, 'm) ante_handler" where
  "newEVMAnteHandler L ctx options =
     (let evmParams = Evm_GetParams L (ho_EvmKeeper options) ctx;
          feemarketParams = FeeMarket_GetParams L (ho_FeeMarketKeeper options) ctx
      in ChainAnteDecorators L
           [EVMMonoDecorator
              (ho_AccountKeeper options) (ho_FeeMarketKeeper options) (ho_EvmKeeper options)
              (ho_MaxTxGasWanted options) evmParams feemarketParams,
            TxListenerDecorator (ho_PendingTxListener options)])"

definition cosmos_decorators ::
  "valuation \<Rightarrow> handler_options \<Rightarrow> 'f \<Rightarrow> ('e, 'f) decorator list" where
  "cosmos_decorators cv options feemarketParams =
     (let txFeeChecker =
            (if ho_DynamicFeeChecker options then Some (DynamicFeeChecker feemarketParams) else None)
      in [RejectMessagesDecorator,
          AuthzLimiterDecorator
            [cv (MsgTypeURL ''MsgEthereumTx''), cv (MsgTypeURL ''MsgCreateVestingAccount'')],
          SetUpContextDecorator,
          ExtensionOptionsDecorator (ho_ExtensionOptionChecker options),
          ValidateBasicDecorator,
          TxTimeoutHeightDecorator,
          ValidateMemoDecorator (ho_AccountKeeper options),
          MinGasPriceDecorator feemarketParams,
          ConsumeGasForTxSizeDecorator (ho_AccountKeeper options),
          DeductFeeDecorator (ho_AccountKeeper options) (ho_BankKeeper options)
            (ho_FeegrantKeeper options) txFeeChecker (cv (ModuleName Poa)),
          SetPubKeyDecorator (ho_AccountKeeper options),
          ValidateSigCountDecorator (ho_AccountKeeper options),
          SigGasConsumeDecorator (ho_AccountKeeper options) (ho_SigGasConsumer options),
          SigVerificationDecorator (ho_AccountKeeper options) (ho_SignModeHandler options),
          IncrementSequenceDecorator (ho_AccountKeeper options),
          RedundantRelayDecorator (ho_IBCKeeper options)])"

definition newPOACosmosAnteHandler ::
  "valuation \<Rightarrow> ('c, 'm, 'e, 'f) ante_lib \<Rightarrow> 'c \<Rightarrow> handler_options \<Rightarrow> ('c, 'm) ante_handler" where
  "newPOACosmosAnteHandler cv L ctx options =
     (let feemarketParams = FeeMarket_GetParams L (ho_FeeMarketKeeper options) ctx
      in ChainAnteDecorators L (cosmos_decorators cv options feemarketParams))"

section \<open>The routing handler\<close>

definition extensionOptionsEthereumTx :: "valuation \<Rightarrow> string" where
  "extensionOptionsEthereumTx cv = ''/'' @ cv (MessageName ''ExtensionOptionsEthereumTx'')"

definition extensionOptionsDynamicFeeTx :: "valuation \<Rightarrow> string" where
  "extensionOptionsDynamicFeeTx cv = ''/'' @ cv (MessageName ''ExtensionOptionDynamicFeeTx'')"

definition NewPOAEVMAnteHandler ::
  "valuation \<Rightarrow> ('c, 'm, 'e, 'f) ante_lib \<Rightarrow> handler_options \<Rightarrow> ('c, 'm) ante_handler" where
  "NewPOAEVMAnteHandler cv L options = (\<lambda>ctx tx sim.
     let by_type =
           (case tx of
              SdkTx _ _ \<Rightarrow> newPOACosmosAnteHandler cv L ctx options ctx tx sim
            | NilTx \<Rightarrow>
                (ctx, Some (ErrWrapf ErrUnknownRequest ''invalid transaction type: %T'' [''<nil>''])))
     in case tx of
          SdkTx (Some (typeURL # _)) _ \<Rightarrow>
            if typeURL = extensionOptionsEthereumTx cv
            then newEVMAnteHandler L ctx options ctx tx sim
            else if typeURL = extensionOptionsDynamicFeeTx cv
            then newPOACosmosAnteHandler cv L ctx options ctx tx sim
            else (ctx, Some (ErrWrapf ErrUnknownExtensionOptions
                    ''rejecting tx with unsupported extension option: %s'' [typeURL]))
        | _ \<Rightarrow> by_type)"

section \<open>Linked decorators\<close>

text \<open>
  What \<open>ChainAnteDecorators\<close> documents: the first decorator runs first and decides whether to
  call the rest; after the last one a terminator returns the context unchanged.  \<open>run d\<close> is the
  decorator's \<open>AnteHandle\<close>, with the rest of the chain as its last argument.
\<close>

type_synonym ('c, 'm, 'e, 'f) decorator_run =
  "('e, 'f) decorator \<Rightarrow> 'c \<Rightarrow> 'm sdk_tx \<Rightarrow> bool \<Rightarrow> ('c, 'm) ante_handler \<Rightarrow> 'c \<times> go_error option"

fun run_chain ::
  "('c, 'm, 'e, 'f) decorator_run \<Rightarrow> ('e, 'f) decorator list \<Rightarrow> ('c, 'm) ante_handler" where
  "run_chain run [] ctx tx sim = (ctx, None)"
| "run_chain run (d # ds) ctx tx sim = run d ctx tx sim (run_chain run ds)"

definition chains_with ::
  "('c, 'm, 'e, 'f) ante_lib \<Rightarrow> ('c, 'm, 'e, 'f) decorator_run \<Rightarrow> bool" where
  "chains_with L run \<longleftrightarrow> (\<forall>ds. ChainAnteDecorators L ds = run_chain run ds)"

text \<open>A decorator uses the rest of the chain as a black box: the same rest, the same result.\<close>

lemma run_chain_cong:
  "(\<And>d. d \<in> set ds \<Longrightarrow> run d = run' d) \<Longrightarrow> run_chain run ds = run_chain run' ds"
proof (induction ds)
  case Nil
  show ?case by (intro ext) simp
next
  case (Cons d ds)
  then have "run_chain run ds = run_chain run' ds" and "run d = run' d"
    by simp_all
  then show ?case by (intro ext) simp
qed

text \<open>
  The decorators of these pipelines are gates: a decorator either ends the transaction with
  an error, or hands a context to the rest of the chain, with the same transaction.
  \<open>passed\<close> lists the gates a transaction got through.
\<close>

type_synonym ('c, 'm, 'e, 'f) gate =
  "('e, 'f) decorator \<Rightarrow> 'c \<Rightarrow> 'm sdk_tx \<Rightarrow> bool \<Rightarrow> ('c \<times> go_error) + 'c"

definition gates_of :: "('c, 'm, 'e, 'f) gate \<Rightarrow> ('c, 'm, 'e, 'f) decorator_run" where
  "gates_of g d ctx tx sim next =
     (case g d ctx tx sim of Inl (c, e) \<Rightarrow> (c, Some e) | Inr c \<Rightarrow> next c tx sim)"

fun passed ::
  "('c, 'm, 'e, 'f) gate \<Rightarrow> ('e, 'f) decorator list \<Rightarrow> 'c \<Rightarrow> 'm sdk_tx \<Rightarrow> bool \<Rightarrow>
     ('e, 'f) decorator list" where
  "passed g [] ctx tx sim = []"
| "passed g (d # ds) ctx tx sim =
     (case g d ctx tx sim of Inl _ \<Rightarrow> [] | Inr c \<Rightarrow> d # passed g ds c tx sim)"

lemma passed_prefix: "\<exists>k. passed g ds ctx tx sim = take k ds"
proof (induction ds arbitrary: ctx)
  case Nil
  show ?case by simp
next
  case (Cons d ds)
  show ?case
  proof (cases "g d ctx tx sim")
    case (Inl x)
    then show ?thesis by (intro exI [of _ 0]) simp
  next
    case (Inr c)
    with Cons.IH [of c] obtain k where "passed g ds c tx sim = take k ds" by blast
    with Inr show ?thesis by (intro exI [of _ "Suc k"]) simp
  qed
qed

lemma accepted_iff_passed_all:
  "snd (run_chain (gates_of g) ds ctx tx sim) = None \<longleftrightarrow> passed g ds ctx tx sim = ds"
  by (induction ds arbitrary: ctx) (auto simp: gates_of_def split: sum.splits)

lemma passed_before:
  assumes "y \<in> set (passed g ds ctx tx sim)" and "ds = us @ vs" and "y \<notin> set us"
  shows "set us \<subseteq> set (passed g ds ctx tx sim)"
proof -
  from passed_prefix [of g ds ctx tx sim]
  obtain k where k: "passed g ds ctx tx sim = take k ds" by blast
  have "length us \<le> k"
  proof (rule ccontr)
    assume "\<not> length us \<le> k"
    with assms(2) have "take k ds = take k us" by simp
    with k assms(1) have "y \<in> set us" by (auto dest: in_set_takeD)
    with assms(3) show False by simp
  qed
  with k assms(2) show ?thesis by auto
qed

section \<open>The registry of pending-transaction listeners\<close>

text \<open>
  The registry is a field of the application and \<open>onPendingTx\<close> is bound to the application, so
  a notification sees the listeners registered by then.  A listener changes a state \<open>'s\<close>.
\<close>

record ('h, 's) listener_app =
  pendingTxListeners :: "('h \<Rightarrow> 's \<Rightarrow> 's) list"

fun notify_all :: "('h \<Rightarrow> 's \<Rightarrow> 's) list \<Rightarrow> 'h \<Rightarrow> 's \<Rightarrow> 's" where
  "notify_all [] hash s = s"
| "notify_all (l # ls) hash s = notify_all ls hash (l hash s)"

definition onPendingTx :: "('h, 's) listener_app \<Rightarrow> 'h \<Rightarrow> 's \<Rightarrow> 's" where
  "onPendingTx app hash s = notify_all (pendingTxListeners app) hash s"

definition RegisterPendingTxListener ::
  "('h \<Rightarrow> 's \<Rightarrow> 's) \<Rightarrow> ('h, 's) listener_app \<Rightarrow> ('h, 's) listener_app" where
  "RegisterPendingTxListener l app = app\<lparr>pendingTxListeners := pendingTxListeners app @ [l]\<rparr>"

text \<open>What the server relies on: a registry notifies old listeners first, then the new one.\<close>

locale listener_registry =
  fixes register :: "('h \<Rightarrow> 's \<Rightarrow> 's) \<Rightarrow> 'a \<Rightarrow> 'a"
    and notify :: "'a \<Rightarrow> 'h \<Rightarrow> 's \<Rightarrow> 's"
  assumes notify_register: "notify (register l a) h s = l h (notify a h s)"
begin

lemma notify_fold_register: "notify (fold register ls a) h s = fold (\<lambda>l. l h) ls (notify a h s)"
  by (induction ls arbitrary: a) (simp_all add: notify_register)

end

lemma notify_all_fold: "notify_all ls h s = fold (\<lambda>l. l h) ls s"
  by (induction ls arbitrary: s) simp_all

interpretation pending: listener_registry RegisterPendingTxListener onPendingTx
  by unfold_locales (simp add: RegisterPendingTxListener_def onPendingTx_def notify_all_fold)

section \<open>Routes\<close>

text \<open>The route of a transaction, as the specification of the routing handler.\<close>

datatype tx_route = EvmRoute | CosmosRoute | RejectRoute

definition route_of :: "valuation \<Rightarrow> 'm sdk_tx \<Rightarrow> tx_route" where
  "route_of cv tx =
     (case tx of
        NilTx \<Rightarrow> RejectRoute
      | SdkTx urls _ \<Rightarrow>
          (case (case urls of None \<Rightarrow> [] | Some us \<Rightarrow> us) of
             [] \<Rightarrow> CosmosRoute
           | u # _ \<Rightarrow>
               if u = extensionOptionsEthereumTx cv then EvmRoute
               else if u = extensionOptionsDynamicFeeTx cv then CosmosRoute
               else RejectRoute))"

lemma NewPOAEVMAnteHandler_evm:
  "route_of cv tx = EvmRoute \<Longrightarrow>
     NewPOAEVMAnteHandler cv L options ctx tx sim = newEVMAnteHandler L ctx options ctx tx sim"
  by (auto simp: route_of_def NewPOAEVMAnteHandler_def
      split: sdk_tx.splits option.splits list.splits if_splits)

lemma NewPOAEVMAnteHandler_cosmos:
  "route_of cv tx = CosmosRoute \<Longrightarrow>
     NewPOAEVMAnteHandler cv L options ctx tx sim = newPOACosmosAnteHandler cv L ctx options ctx tx sim"
  by (auto simp: route_of_def NewPOAEVMAnteHandler_def
      split: sdk_tx.splits option.splits list.splits if_splits)

lemma NewPOAEVMAnteHandler_reject:
  "route_of cv tx = RejectRoute \<Longrightarrow>
     \<exists>cause fmt args. NewPOAEVMAnteHandler cv L options ctx tx sim = (ctx, Some (ErrWrapf cause fmt args))
       \<and> cause = (if tx = NilTx then ErrUnknownRequest else ErrUnknownExtensionOptions)"
  by (auto simp: route_of_def NewPOAEVMAnteHandler_def
      split: sdk_tx.splits option.splits list.splits if_splits)

lemmas handler_by_route =
  NewPOAEVMAnteHandler_evm NewPOAEVMAnteHandler_cosmos NewPOAEVMAnteHandler_reject

definition evm_only :: "('e, 'f) decorator \<Rightarrow> bool" where
  "evm_only d \<longleftrightarrow>
     (case d of EVMMonoDecorator _ _ _ _ _ _ \<Rightarrow> True | TxListenerDecorator _ \<Rightarrow> True | _ \<Rightarrow> False)"

lemma cosmos_not_evm_only: "d \<in> set (cosmos_decorators cv options p) \<Longrightarrow> \<not> evm_only d"
  by (auto simp: cosmos_decorators_def Let_def evm_only_def)

text \<open>
  A world for the witnesses: a context counts the gates passed; \<open>sample_gate\<close> opens every
  gate, \<open>evm_closed_gate\<close> shuts those of the EVM pipeline.
\<close>

definition sample_gate :: "(nat, 'm, 'e, 'f) gate" where
  "sample_gate d ctx tx sim = Inr (Suc ctx)"

definition evm_closed_gate :: "(nat, 'm, 'e, 'f) gate" where
  "evm_closed_gate d ctx tx sim =
     (if evm_only d then Inl (ctx, ErrLib ''closed'') else Inr (Suc ctx))"

definition sample_ante_lib ::
  "(nat, unit, unit, unit) gate \<Rightarrow> (nat, unit, unit, unit) ante_lib" where
  "sample_ante_lib g =
     \<lparr>Evm_GetParams = (\<lambda>_ _. ()), FeeMarket_GetParams = (\<lambda>_ _. ()),
      ChainAnteDecorators = run_chain (gates_of g)\<rparr>"

definition sample_options :: handler_options where
  "sample_options =
     \<lparr>ho_Cdc = Nil, ho_AccountKeeper = Nil, ho_BankKeeper = Nil,
      ho_ExtensionOptionChecker = Nil, ho_EvmKeeper = Nil, ho_IBCKeeper = Nil,
      ho_FeeMarketKeeper = Nil, ho_FeegrantKeeper = Nil, ho_SignModeHandler = Nil,
      ho_SigGasConsumer = Nil, ho_MaxTxGasWanted = 0, ho_DynamicFeeChecker = True,
      ho_PendingTxListener = Nil\<rparr>"

lemma sample_chains_with: "chains_with (sample_ante_lib g) (gates_of g)"
  by (simp add: chains_with_def sample_ante_lib_def)

section \<open>Properties\<close>

text \<open>C9: The two pipelines are isolated.  Take any two worlds of decorators that agree on the
  EVM decorators and give a transaction whose first extension option is the Ethereum one: the
  handler cannot tell the worlds apart, so no Cosmos decorator (fee deduction, signature
  check, sequence) takes part; for every other transaction it is the Cosmos decorators alone
  that count, so such a transaction never reaches the EVM pipeline.\<close>

theorem ante_pipelines_isolated:
  assumes "chains_with L run" and "chains_with L' run'"
    and "Evm_GetParams L = Evm_GetParams L'" and "FeeMarket_GetParams L = FeeMarket_GetParams L'"
    and agree: "\<And>d. evm_only d = (route_of cv tx = EvmRoute) \<Longrightarrow> run d = run' d"
  shows "NewPOAEVMAnteHandler cv L options ctx tx sim = NewPOAEVMAnteHandler cv L' options ctx tx sim"
proof (cases "route_of cv tx")
  case EvmRoute
  let ?ds = "[EVMMonoDecorator (ho_AccountKeeper options) (ho_FeeMarketKeeper options)
      (ho_EvmKeeper options) (ho_MaxTxGasWanted options) (Evm_GetParams L (ho_EvmKeeper options) ctx)
      (FeeMarket_GetParams L (ho_FeeMarketKeeper options) ctx),
    TxListenerDecorator (ho_PendingTxListener options)]"
  have "run_chain run ?ds = run_chain run' ?ds"
    by (rule run_chain_cong, rule agree) (auto simp: evm_only_def EvmRoute)
  with assms EvmRoute show ?thesis
    by (simp only: handler_by_route newEVMAnteHandler_def chains_with_def Let_def)
next
  case CosmosRoute
  let ?ds = "cosmos_decorators cv options (FeeMarket_GetParams L (ho_FeeMarketKeeper options) ctx)"
  have "run_chain run ?ds = run_chain run' ?ds"
    by (rule run_chain_cong, rule agree) (auto simp: CosmosRoute dest: cosmos_not_evm_only)
  with assms CosmosRoute show ?thesis
    by (simp only: handler_by_route newPOACosmosAnteHandler_def chains_with_def Let_def)
next
  case RejectRoute
  then show ?thesis
    by (auto simp: route_of_def NewPOAEVMAnteHandler_def
        split: sdk_tx.splits option.splits list.splits if_splits)
qed

theorem ante_pipelines_isolated_witness:
  "NewPOAEVMAnteHandler sample_cv (sample_ante_lib sample_gate) sample_options 0 (SdkTx None ()) False
   = NewPOAEVMAnteHandler sample_cv (sample_ante_lib evm_closed_gate) sample_options 0 (SdkTx None ()) False
 \<and> NewPOAEVMAnteHandler sample_cv (sample_ante_lib sample_gate) sample_options 0 (SdkTx None ()) False
   = (16, None)"
proof
  show "NewPOAEVMAnteHandler sample_cv (sample_ante_lib sample_gate) sample_options 0 (SdkTx None ()) False
   = NewPOAEVMAnteHandler sample_cv (sample_ante_lib evm_closed_gate) sample_options 0 (SdkTx None ()) False"
    by (rule ante_pipelines_isolated [OF sample_chains_with sample_chains_with])
      (simp_all add: sample_ante_lib_def route_of_def gates_of_def sample_gate_def
        evm_closed_gate_def fun_eq_iff)
  show "NewPOAEVMAnteHandler sample_cv (sample_ante_lib sample_gate) sample_options 0 (SdkTx None ()) False
   = (16, None)"
    by code_simp
qed

text \<open>C10: On the Cosmos route, when decorators act as gates linked the documented way, the gates a
  transaction gets through are a prefix of the pipeline and it is accepted only through all
  of them.  In particular a transaction whose sequence number was incremented has had its
  signatures verified, its public keys set, and its fee deducted to the POA module account,
  after the message rejection, the authz limiter and the context set-up.\<close>

theorem cosmos_tx_sequence_needs_fee_and_signature:
  assumes "chains_with L (gates_of g)" and "route_of cv tx = CosmosRoute"
    and fm: "p = FeeMarket_GetParams L (ho_FeeMarketKeeper options) ctx"
    and ds: "ds = cosmos_decorators cv options p"
    and inc: "IncrementSequenceDecorator k \<in> set (passed g ds ctx tx sim)"
  shows "{RejectMessagesDecorator,
      AuthzLimiterDecorator
        [cv (MsgTypeURL ''MsgEthereumTx''), cv (MsgTypeURL ''MsgCreateVestingAccount'')],
      SetUpContextDecorator,
      MinGasPriceDecorator p,
      DeductFeeDecorator (ho_AccountKeeper options) (ho_BankKeeper options)
        (ho_FeegrantKeeper options)
        (if ho_DynamicFeeChecker options then Some (DynamicFeeChecker p) else None)
        (cv (ModuleName Poa)),
      SetPubKeyDecorator (ho_AccountKeeper options),
      SigVerificationDecorator (ho_AccountKeeper options) (ho_SignModeHandler options)}
    \<subseteq> set (passed g ds ctx tx sim)
  \<and> (snd (NewPOAEVMAnteHandler cv L options ctx tx sim) = None
       \<longleftrightarrow> passed g ds ctx tx sim = ds)"
proof -
  let ?us = "take 14 ds"
  have split: "ds = ?us @ drop 14 ds" by simp
  have notin: "IncrementSequenceDecorator k \<notin> set ?us"
    by (simp add: ds cosmos_decorators_def Let_def)
  have "set ?us \<subseteq> set (passed g ds ctx tx sim)"
    by (rule passed_before [OF inc split notin])
  moreover have "NewPOAEVMAnteHandler cv L options ctx tx sim = run_chain (gates_of g) ds ctx tx sim"
    using assms(1,2) by (simp add: handler_by_route newPOACosmosAnteHandler_def chains_with_def fm ds)
  moreover have "{RejectMessagesDecorator,
      AuthzLimiterDecorator
        [cv (MsgTypeURL ''MsgEthereumTx''), cv (MsgTypeURL ''MsgCreateVestingAccount'')],
      SetUpContextDecorator,
      MinGasPriceDecorator p,
      DeductFeeDecorator (ho_AccountKeeper options) (ho_BankKeeper options)
        (ho_FeegrantKeeper options)
        (if ho_DynamicFeeChecker options then Some (DynamicFeeChecker p) else None)
        (cv (ModuleName Poa)),
      SetPubKeyDecorator (ho_AccountKeeper options),
      SigVerificationDecorator (ho_AccountKeeper options) (ho_SignModeHandler options)}
    \<subseteq> set ?us"
    by (simp add: ds cosmos_decorators_def Let_def)
  ultimately show ?thesis
    by (auto simp only: accepted_iff_passed_all)
qed

theorem cosmos_tx_sequence_needs_fee_and_signature_witness:
  "SetUpContextDecorator \<in> set (passed sample_gate
     (cosmos_decorators sample_cv sample_options () :: (unit, unit) decorator list) 0
     (SdkTx (Some []) ()) False)
 \<and> snd (NewPOAEVMAnteHandler sample_cv (sample_ante_lib sample_gate) sample_options 0
     (SdkTx (Some []) ()) False) = None"
proof -
  let ?ds = "cosmos_decorators sample_cv sample_options () :: (unit, unit) decorator list"
  let ?tx = "SdkTx (Some []) () :: unit sdk_tx"
  have all: "passed sample_gate ?ds 0 ?tx False = ?ds"
    by (simp add: cosmos_decorators_def sample_gate_def Let_def)
  have "IncrementSequenceDecorator Nil \<in> set (passed sample_gate ?ds 0 ?tx False)"
    unfolding all by (simp add: cosmos_decorators_def sample_options_def Let_def)
  from cosmos_tx_sequence_needs_fee_and_signature
      [where cv = sample_cv and options = sample_options, OF sample_chains_with _ _ _ this] all
  show ?thesis by (simp add: route_of_def)
qed

text \<open>Every transaction that neither is an Ethereum one nor can be a Cosmos one is refused
  before any decorator runs: a nil transaction with \<open>ErrUnknownRequest\<close>, one whose first
  extension option is of an unknown type with \<open>ErrUnknownExtensionOptions\<close> naming that type,
  and the context comes back unchanged.  Extension options after the first are not looked
  at.\<close>

theorem unsupported_tx_rejected_unchanged:
  "NewPOAEVMAnteHandler cv L options ctx NilTx sim =
     (ctx, Some (ErrWrapf ErrUnknownRequest ''invalid transaction type: %T'' [''<nil>'']))
 \<and> NewPOAEVMAnteHandler cv L options ctx (SdkTx (Some (u # us)) m) sim =
     (if u = extensionOptionsEthereumTx cv
      then newEVMAnteHandler L ctx options ctx (SdkTx (Some (u # us)) m) sim
      else if u = extensionOptionsDynamicFeeTx cv
      then newPOACosmosAnteHandler cv L ctx options ctx (SdkTx (Some (u # us)) m) sim
      else (ctx, Some (ErrWrapf ErrUnknownExtensionOptions
              ''rejecting tx with unsupported extension option: %s'' [u])))
 \<and> (NewPOAEVMAnteHandler cv L options ctx (SdkTx (Some []) m) sim =
     newPOACosmosAnteHandler cv L ctx options ctx (SdkTx (Some []) m) sim)"
  by (simp add: NewPOAEVMAnteHandler_def Let_def)

text \<open>A pending transaction is announced to every registered listener once, in the order of
  registration, those registered after the ante handler was built included: registering a
  list of listeners and then announcing a hash runs the old listeners first and the new ones
  in order.\<close>

theorem pending_listeners_notified_in_order:
  "onPendingTx (fold RegisterPendingTxListener ls app) hash s =
     fold (\<lambda>l. l hash) (pendingTxListeners app @ ls) s"
  using pending.notify_fold_register [of ls app hash s]
  by (simp add: onPendingTx_def notify_all_fold)

end
