(* ===== verification/Wiring.thy ===== *)
theory Wiring
  imports Values Ante
begin

text \<open>
  The construction of the application: \<open>NewApp\<close> in \<open>app/app.go\<close>, as the sequence of its steps
  over an explicit state.  The state holds the fields of \<open>SandboxApp\<close> (the zero value until a
  field is assigned), the locals that outlive a step, the two package-level variables the
  application sets, and the trace of library calls with their arguments.  A step stops the
  construction where the code panics or exits.
\<close>

section \<open>State\<close>

text \<open>
  The struct \<open>SandboxApp\<close>.  \<open>pendingTxListeners\<close> is modelled in theory Ante; \<open>keys\<close> and
  \<open>oKeys\<close> are maps from names to store keys.
\<close>

record sandbox_app =
  BaseApp :: val
  legacyAmino :: val
  appCodec :: val
  interfaceRegistry :: val
  app_txConfig :: val
  app_keys :: "string \<rightharpoonup> store_key"
  app_oKeys :: "string \<rightharpoonup> store_key"
  AccountKeeper :: val
  BankKeeper :: val
  ConsensusParamsKeeper :: val
  GovKeeper :: val
  UpgradeKeeper :: val
  POAKeeper :: val
  IBCKeeper :: val
  TransferKeeper :: val
  GMPKeeper :: val
  TokenFactoryKeeper :: val
  IFTKeeper :: val
  FeeMarketKeeper :: val
  EVMKeeper :: val
  Erc20Keeper :: val
  EVMMempool :: val
  ModuleManager :: val
  BasicModuleManager :: val
  configurator :: val

text \<open>
  Locals of \<open>NewApp\<close>, the globals \<open>ante.FeeRecipientModule\<close> and \<open>sdk.DefaultPowerReduction\<close>,
  the options of the installed ante handler, the errors printed to stderr and the library
  calls made so far, the latest first.
\<close>

record wiring = sandbox_app +
  local_txConfig :: val
  transientKeys :: "string \<rightharpoonup> store_key"
  nonTransientKeys :: "store_key list"
  skipUpgradeHeights :: "int64 \<rightharpoonup> bool"
  FeeRecipientModule :: val
  DefaultPowerReduction :: val
  ante_options :: "handler_options option"
  stderr :: "go_error list"
  calls :: "event list"

text \<open>
  The library as \<open>NewApp\<close> uses it: the values of constants, the constructors of key maps, the
  order in which Go iterates over the two key maps, and the outcome of every call whose error
  the code handles.
\<close>

record sdk =
  cv :: valuation
  NewKVStoreKeys :: "string list \<Rightarrow> (string \<rightharpoonup> store_key)"
  NewObjectStoreKeys :: "string list \<Rightarrow> (string \<rightharpoonup> store_key)"
  NewTransientStoreKeys :: "string list \<Rightarrow> (string \<rightharpoonup> store_key)"
  keys_order :: "string list"
  oKeys_order :: "string list"
  RegisterStreamingServices_err :: "go_error option"
  NewTxConfigWithOptions_err :: "go_error option"
  RegisterServices_err :: "go_error option"
  Validate_err :: "go_error option"
  NewPostHandler_err :: "go_error option"
  MergedRegistry_err :: "go_error option"
  ValidateProtoAnnotations_err :: "go_error option"
  LoadLatestVersion_err :: "go_error option"
  GetChainConfig_nil :: bool
  GetCosmosPoolMaxTx :: int

text \<open>Options, read through \<open>cast.ToUint64\<close>, \<open>cast.ToString\<close> and \<open>cast.ToIntSlice\<close>.\<close>

record app_opts =
  opt_uint64 :: "string \<Rightarrow> uint64"
  opt_string :: "string \<Rightarrow> string"
  opt_ints :: "string \<Rightarrow> int64 list"

type_synonym wiring_step = "wiring \<Rightarrow> stop + wiring"

definition maxCallbackGas :: uint64 where
  "maxCallbackGas = 1000000"

definition appName :: string where
  "appName = ''sandboxd''"

text \<open>\<open>init()\<close> of the package has run; every field of the struct is still zero.\<close>

definition package_state :: wiring where
  "package_state =
     \<lparr>BaseApp = Zero ''BaseApp'', legacyAmino = Zero ''legacyAmino'', appCodec = Zero ''appCodec'',
      interfaceRegistry = Zero ''interfaceRegistry'', app_txConfig = Zero ''txConfig'',
      app_keys = Map.empty, app_oKeys = Map.empty,
      AccountKeeper = Zero ''AccountKeeper'', BankKeeper = Zero ''BankKeeper'',
      ConsensusParamsKeeper = Zero ''ConsensusParamsKeeper'', GovKeeper = Zero ''GovKeeper'',
      UpgradeKeeper = Zero ''UpgradeKeeper'', POAKeeper = Zero ''POAKeeper'',
      IBCKeeper = Zero ''IBCKeeper'', TransferKeeper = Zero ''TransferKeeper'',
      GMPKeeper = Zero ''GMPKeeper'', TokenFactoryKeeper = Zero ''TokenFactoryKeeper'',
      IFTKeeper = Zero ''IFTKeeper'', FeeMarketKeeper = Zero ''FeeMarketKeeper'',
      EVMKeeper = Zero ''EVMKeeper'', Erc20Keeper = Zero ''Erc20Keeper'',
      EVMMempool = Zero ''EVMMempool'', ModuleManager = Zero ''ModuleManager'',
      BasicModuleManager = Zero ''BasicModuleManager'', configurator = Zero ''configurator'',
      local_txConfig = Nil, transientKeys = Map.empty, nonTransientKeys = [],
      skipUpgradeHeights = Map.empty, FeeRecipientModule = Lib ''ante.FeeRecipientModule'' [],
      DefaultPowerReduction = Lib ''utils.AttoPowerReduction'' [],
      ante_options = None, stderr = [], calls = []\<rparr>"

section \<open>Helpers\<close>

definition emit :: "event \<Rightarrow> wiring \<Rightarrow> wiring" where
  "emit e w = w\<lparr>calls := e # calls w\<rparr>"

text \<open>The library calls in the order they are made.\<close>

definition trace :: "wiring \<Rightarrow> event list" where
  "trace w = rev (calls w)"

definition kvService :: "val \<Rightarrow> val" where
  "kvService k = Lib ''runtime.NewKVStoreService'' [k]"

definition key_of :: "sdk \<Rightarrow> wiring \<Rightarrow> pkg \<Rightarrow> val" where
  "key_of L w p = key_at (app_keys w) (cv L (StoreKey p))"

definition moduleAddress :: "sdk \<Rightarrow> pkg \<Rightarrow> val" where
  "moduleAddress L p = Lib ''authtypes.NewModuleAddress'' [Str (cv L (ModuleName p))]"

definition authAddr :: "sdk \<Rightarrow> val" where
  "authAddr L = sel ''String'' (moduleAddress L Gov)"

definition accPrefix :: val where
  "accPrefix = Lib ''sdk.GetConfig().GetBech32AccountAddrPrefix'' []"

definition evmCodec :: "val \<Rightarrow> val" where
  "evmCodec prefix = Lib ''evmaddress.NewEvmCodec'' [prefix]"

definition msgRouter :: "wiring \<Rightarrow> val" where
  "msgRouter w = sel ''MsgServiceRouter'' (BaseApp w)"

text \<open>\<open>for _, k := range m\<close>: the keys' values in the order of the iteration.\<close>

definition range_values :: "(string \<rightharpoonup> store_key) \<Rightarrow> string list \<Rightarrow> store_key list" where
  "range_values m order = List.map_filter m order"

text \<open>The loop that fills \<open>skipUpgradeHeights\<close>.\<close>

fun skip_heights :: "int64 list \<Rightarrow> (int64 \<rightharpoonup> bool) \<Rightarrow> (int64 \<rightharpoonup> bool)" where
  "skip_heights [] m = m"
| "skip_heights (h # hs) m = skip_heights hs (m(h \<mapsto> True))"

section \<open>Steps of \<open>NewApp\<close>\<close>

subsection \<open>Base application and stores\<close>

definition kv_store_names :: "sdk \<Rightarrow> string list" where
  "kv_store_names L =
     map (cv L \<circ> StoreKey)
       [Auth, Bank, Consensus, Gov, Upgrade, Poa,
        Ibc, Transfer, Gmp,
        Evm, Feemarket, Erc20,
        Tokenfactory, Ift]"

definition step_base :: "sdk \<Rightarrow> app_opts \<Rightarrow> val list \<Rightarrow> wiring_step" where
  "step_base L opts baseAppOptions w =
     (let evmChainID = opt_uint64 opts ''srvflags.EVMChainID'';
          encodingConfig = Lib ''evmencoding.MakeConfig'' [U64 evmChainID];
          txConfig = sel ''TxConfig'' encodingConfig;
          registry = sel ''InterfaceRegistry'' encodingConfig;
          options = baseAppOptions @ [Lib ''baseapp.SetOptimisticExecution'' []];
          bApp = Obj ''baseapp.NewBaseApp'';
          w = emit (Call ''baseapp.NewBaseApp''
                ([Str appName, Local ''logger'', Local ''db'', sel ''TxDecoder'' txConfig] @ options)) w;
          w = emit (Method bApp ''SetVersion'' [Lib ''version.Version'' []]) w;
          w = emit (Method bApp ''SetInterfaceRegistry'' [registry]) w;
          w = emit (Method bApp ''SetTxEncoder'' [sel ''TxEncoder'' txConfig]) w;
          keys = NewKVStoreKeys L (kv_store_names L);
          oKeys = NewObjectStoreKeys L [cv L (ObjectStoreKey Bank), cv L (ObjectStoreKey Evm)];
          w = w\<lparr>transientKeys := NewTransientStoreKeys L [cv L (TransientStoreKey Poa)]\<rparr>;
          w = w\<lparr>nonTransientKeys :=
                  range_values keys (keys_order L) @ range_values oKeys (oKeys_order L)\<rparr>;
          w = emit (Method bApp ''SetBlockSTMTxRunner''
                [Lib ''txnrunner.NewSTMRunner''
                  [sel ''TxDecoder'' txConfig, Local ''nonTransientKeys'',
                   Lib ''min'' [Lib ''goruntime.GOMAXPROCS'' [U64 0], Lib ''goruntime.NumCPU'' []],
                   BoolV True, Str (cv L DefaultBondDenom)]]) w;
          w = emit (Method bApp ''SetDisableBlockGasMeter'' [BoolV True]) w;
          w = emit (Method bApp ''RegisterStreamingServices'' [Local ''appOpts'', Local ''keys'']) w
      in case RegisterStreamingServices_err L of
           Some err \<Rightarrow> Inl (OsExit 1 ''failed to load state streaming: %s'' (Some err))
         | None \<Rightarrow>
             Inr (w\<lparr>BaseApp := bApp,
                    legacyAmino := sel ''Amino'' encodingConfig,
                    appCodec := sel ''Codec'' encodingConfig,
                    app_txConfig := txConfig,
                    interfaceRegistry := registry,
                    app_keys := keys,
                    app_oKeys := oKeys,
                    local_txConfig := txConfig\<rparr>))"

subsection \<open>Consensus, auth and bank keepers, transaction config\<close>

definition step_consensus_auth_bank :: "sdk \<Rightarrow> wiring_step" where
  "step_consensus_auth_bank L w =
     (let w = emit (Call ''consensusparamkeeper.NewKeeper''
                [appCodec w, kvService (key_of L w Consensus), authAddr L,
                 Lib ''runtime.EventService'' []]) w;
          w = w\<lparr>ConsensusParamsKeeper := Obj ''consensusparamkeeper.NewKeeper''\<rparr>;
          w = emit (Method (BaseApp w) ''SetParamStore''
                [sel ''ParamsStore'' (ConsensusParamsKeeper w)]) w;
          w = emit (Call ''authkeeper.NewAccountKeeper''
                [appCodec w, kvService (key_of L w Auth), Lib ''authtypes.ProtoBaseAccount'' [],
                 Local ''maccPerms'', evmCodec accPrefix, accPrefix, authAddr L]) w;
          w = w\<lparr>AccountKeeper := Obj ''authkeeper.NewAccountKeeper''\<rparr>;
          w = emit (Call ''bankkeeper.NewBaseKeeper''
                [appCodec w, kvService (key_of L w Bank), AccountKeeper w,
                 Local ''blockedAddresses()'', authAddr L, Local ''logger'']) w;
          w = w\<lparr>BankKeeper := Obj ''bankkeeper.NewBaseKeeper''\<rparr>;
          w = emit (Method (BankKeeper w) ''WithObjStoreKey''
                [key_at (app_oKeys w) (cv L (ObjectStoreKey Bank))]) w;
          w = w\<lparr>BankKeeper := Obj ''bankkeeper.WithObjStoreKey''\<rparr>
      in Inr w)"

definition step_tx_config :: "sdk \<Rightarrow> wiring_step" where
  "step_tx_config L w =
     (let enabledSignModes =
            Lib ''append'' [Lib ''authtx.DefaultSignModes'' [], Lib ''signingtypes.SignMode_SIGN_MODE_TEXTUAL'' []];
          txConfigOpts =
            Lib ''authtx.ConfigOptions''
              [enabledSignModes, Lib ''txmodule.NewBankKeeperCoinMetadataQueryFn'' [BankKeeper w]];
          w = emit (Call ''authtx.NewTxConfigWithOptions'' [appCodec w, txConfigOpts]) w
      in case NewTxConfigWithOptions_err L of
           Some err \<Rightarrow> Inl (PanicErr err)
         | None \<Rightarrow>
             Inr (w\<lparr>local_txConfig := Obj ''authtx.NewTxConfigWithOptions'',
                    app_txConfig := Obj ''authtx.NewTxConfigWithOptions''\<rparr>))"

subsection \<open>POA, governance, upgrade, IBC core, fee market, transfer\<close>

definition step_poa_gov_upgrade :: "sdk \<Rightarrow> app_opts \<Rightarrow> wiring_step" where
  "step_poa_gov_upgrade L opts w =
     (let w = emit (Call ''poakeeper.NewKeeper''
                [appCodec w, kvService (key_of L w Poa),
                 Lib ''runtime.NewTransientStoreService''
                   [key_at (transientKeys w) (cv L (TransientStoreKey Poa))],
                 AccountKeeper w, BankKeeper w]) w;
          w = w\<lparr>POAKeeper := Obj ''poakeeper.NewKeeper''\<rparr>
      in case through (POAKeeper w) (Lib ''*'' [POAKeeper w]) of
           Inl s \<Rightarrow> Inl s
         | Inr poaValue \<Rightarrow>
      let w = emit (Call ''govkeeper.NewKeeper''
                [appCodec w, kvService (key_of L w Gov), AccountKeeper w, BankKeeper w,
                 Nil, msgRouter w, Lib ''govtypes.DefaultConfig'' [], authAddr L,
                 Lib ''poakeeper.NewPOACalculateVoteResultsAndVotingPowerFn'' [poaValue]]) w;
          w = w\<lparr>GovKeeper := Obj ''govkeeper.NewKeeper''\<rparr>
      in case through (GovKeeper w) () of
           Inl s \<Rightarrow> Inl s
         | Inr _ \<Rightarrow>
      let w = emit (Method (GovKeeper w) ''SetHooks''
                [Lib ''govtypes.NewMultiGovHooks'' [sel ''NewGovHooks'' (POAKeeper w)]]) w;
          w = w\<lparr>skipUpgradeHeights :=
                  skip_heights (opt_ints opts ''sdkserver.FlagUnsafeSkipUpgrades'') Map.empty\<rparr>;
          homePath = Str (opt_string opts ''flags.FlagHome'');
          w = emit (Call ''upgradekeeper.NewKeeper''
                [Local ''skipUpgradeHeights'', kvService (key_of L w Upgrade), appCodec w,
                 homePath, BaseApp w, authAddr L]) w;
          w = w\<lparr>UpgradeKeeper := Obj ''upgradekeeper.NewKeeper''\<rparr>
      in Inr w)"

definition step_ibc_feemarket_transfer :: "sdk \<Rightarrow> wiring_step" where
  "step_ibc_feemarket_transfer L w =
     (let w = emit (Call ''ibckeeper.NewKeeper''
                [appCodec w, kvService (key_of L w Ibc), UpgradeKeeper w, authAddr L]) w;
          w = w\<lparr>IBCKeeper := Obj ''ibckeeper.NewKeeper''\<rparr>;
          w = emit (Call ''feemarketkeeper.NewKeeper''
                [appCodec w, moduleAddress L Gov, key_of L w Feemarket]) w;
          w = w\<lparr>FeeMarketKeeper := Obj ''feemarketkeeper.NewKeeper''\<rparr>
      in case through (IBCKeeper w) (sel ''ChannelKeeper'' (IBCKeeper w)) of
           Inl s \<Rightarrow> Inl s
         | Inr channelKeeper \<Rightarrow>
      let w = emit (Call ''transferkeeper.NewKeeper''
                [appCodec w, evmCodec accPrefix, kvService (key_of L w Transfer),
                 channelKeeper, msgRouter w, AccountKeeper w, BankKeeper w, authAddr L]) w;
          w = w\<lparr>TransferKeeper := Obj ''transferkeeper.NewKeeper''\<rparr>
      in Inr w)"


subsection \<open>EVM and ERC-20 keepers\<close>

text \<open>
  \<open>&app.Erc20Keeper\<close> is taken before the field is assigned: the EVM keeper holds a pointer to
  the field, the ERC-20 keeper is built later and holds the EVM keeper.
\<close>

definition staticPrecompiles :: "wiring \<Rightarrow> val \<Rightarrow> val \<Rightarrow> val" where
  "staticPrecompiles w clientKeeper govValue =
     (let p = Lib ''precompiletypes.NewStaticPrecompiles'' [];
          p = Lib ''.WithPraguePrecompiles'' [p];
          p = Lib ''.WithP256Precompile'' [p];
          p = Lib ''.WithBech32Precompile'' [p];
          p = Lib ''.WithICS02Precompile'' [p, appCodec w, clientKeeper];
          p = Lib ''.WithBankPrecompile'' [p, BankKeeper w, FieldPtr ''Erc20Keeper''];
          p = Lib ''.WithGovPrecompile'' [p, govValue, BankKeeper w, appCodec w]
      in p)"

definition step_evm :: "sdk \<Rightarrow> app_opts \<Rightarrow> wiring_step" where
  "step_evm L opts w =
     (let stakingAdapter =
            Lib ''poaStakingKeeper''
              [Str (cv L DefaultBondDenom),
               evmCodec (Lib ''sdk.GetConfig().GetBech32ValidatorAddrPrefix'' []), POAKeeper w];
          evmChainID = opt_uint64 opts ''srvflags.EVMChainID'';
          tracer = Str (opt_string opts ''srvflags.EVMTracer'');
          w = emit (Call ''evmkeeper.NewKeeper''
                [appCodec w, key_of L w Evm, key_at (app_oKeys w) (cv L (ObjectStoreKey Evm)),
                 Local ''nonTransientKeys'', moduleAddress L Gov, AccountKeeper w, BankKeeper w,
                 stakingAdapter, FeeMarketKeeper w, FieldPtr ''ConsensusParamsKeeper'',
                 FieldPtr ''Erc20Keeper'', U64 evmChainID, tracer]) w
      in case through (IBCKeeper w) (sel ''ClientKeeper'' (IBCKeeper w)) of
           Inl s \<Rightarrow> Inl s
         | Inr clientKeeper \<Rightarrow>
      case through (GovKeeper w) (Lib ''*'' [GovKeeper w]) of
           Inl s \<Rightarrow> Inl s
         | Inr govValue \<Rightarrow>
      let w = emit (Method (Obj ''evmkeeper.NewKeeper'') ''WithStaticPrecompiles''
                [staticPrecompiles w clientKeeper govValue]) w;
          w = w\<lparr>EVMKeeper := Obj ''evmkeeper.WithStaticPrecompiles''\<rparr>
      in case through (EVMKeeper w) () of
           Inl s \<Rightarrow> Inl s
         | Inr _ \<Rightarrow>
      let w = emit (Method (EVMKeeper w) ''EnableVirtualFeeCollection'' []) w;
          w = emit (Call ''erc20keeper.NewKeeper''
                [key_of L w Erc20, appCodec w, moduleAddress L Gov, AccountKeeper w, BankKeeper w,
                 EVMKeeper w, stakingAdapter, TransferKeeper w]) w;
          w = w\<lparr>Erc20Keeper := Obj ''erc20keeper.NewKeeper''\<rparr>
      in Inr w)"

subsection \<open>IBC routing, GMP, token factory and IFT\<close>

text \<open>
  The v2 router is a pointer: it is installed with the transfer route only, and the GMP route
  is added to the same router afterwards.
\<close>

definition step_ibc_stack :: "sdk \<Rightarrow> wiring_step" where
  "step_ibc_stack L w =
     (let transferStackV2 = Lib ''transferv2.NewIBCModule'' [TransferKeeper w];
          transferStackV2 = Lib ''erc20v2.NewIBCMiddleware'' [transferStackV2, Erc20Keeper w];
          w = emit (Call ''gmpkeeper.NewKeeper''
                [appCodec w, kvService (key_of L w Gmp), AccountKeeper w, msgRouter w, authAddr L]) w;
          w = w\<lparr>GMPKeeper := Obj ''gmpkeeper.NewKeeper''\<rparr>;
          ibcRouterV2 = Obj ''ibcapi.NewRouter'';
          w = emit (Call ''ibcapi.NewRouter'' []) w;
          w = emit (Method ibcRouterV2 ''AddRoute''
                [Str (cv L (ModuleName Transfer)), transferStackV2]) w
      in case through (IBCKeeper w) (IBCKeeper w) of
           Inl s \<Rightarrow> Inl s
         | Inr ibc \<Rightarrow>
      let w = emit (Call ''porttypes.NewRouter'' []) w;
          w = emit (Method ibc ''SetRouter'' [Obj ''porttypes.NewRouter'']) w;
          w = emit (Method ibc ''SetRouterV2'' [ibcRouterV2]) w;
          clientKeeper = sel ''ClientKeeper'' ibc;
          storeProvider = sel ''GetStoreProvider'' clientKeeper;
          attestationsLightClientModule =
            Lib ''ibcattestations.NewLightClientModule'' [appCodec w, storeProvider];
          w = emit (Method clientKeeper ''AddRoute''
                [Str (cv L (ModuleName Attestations)), Lib ''&'' [attestationsLightClientModule]]) w;
          w = emit (Call ''tokenfactorykeeper.NewKeeper''
                [appCodec w, kvService (key_of L w Tokenfactory), AccountKeeper w, BankKeeper w]) w;
          w = w\<lparr>TokenFactoryKeeper := Obj ''tokenfactorykeeper.NewKeeper''\<rparr>;
          w = emit (Call ''iftkeeper.NewKeeper''
                [appCodec w, kvService (key_of L w Ift), sel ''AddressCodec'' (AccountKeeper w),
                 authAddr L, AccountKeeper w, FieldPtr ''TokenFactoryKeeper'', GMPKeeper w,
                 msgRouter w, sel ''ClientKeeper'' ibc, sel ''ClientV2Keeper'' ibc]) w;
          w = w\<lparr>IFTKeeper := Obj ''iftkeeper.NewKeeper''\<rparr>;
          cbGMPModule =
            Lib ''ibccallbacksv2.NewIBCMiddleware''
              [Lib ''gmp.NewIBCModule'' [GMPKeeper w], sel ''ChannelKeeperV2'' ibc,
               FieldPtr ''IFTKeeper'', sel ''ChannelKeeperV2'' ibc, U64 maxCallbackGas];
          w = emit (Method ibcRouterV2 ''AddRoute'' [Str (cv L (PortID Gmp)), cbGMPModule]) w
      in Inr w)"

subsection \<open>Modules and their order\<close>

definition app_modules :: "wiring \<Rightarrow> val list" where
  "app_modules w =
     (let attestations = Lib ''ibcattestations.NewLightClientModule''
            [appCodec w, sel ''GetStoreProvider'' (sel ''ClientKeeper'' (IBCKeeper w))]
      in
      [AppModule Genutil [AccountKeeper w, Nil, AppSelf, local_txConfig w],
       AppModule Auth [appCodec w, AccountKeeper w, Lib ''authsims.RandomGenesisAccounts'' [], Nil],
       AppModule Bank [appCodec w, BankKeeper w, AccountKeeper w, Nil],
       AppModule Consensus [appCodec w, ConsensusParamsKeeper w],
       AppModule Gov [appCodec w, GovKeeper w, AccountKeeper w, BankKeeper w, Nil],
       AppModule Upgrade [UpgradeKeeper w, sel ''AddressCodec'' (AccountKeeper w)],
       AppModule Poa [appCodec w, POAKeeper w, Lib ''poa.WithSecp256k1Support'' []],
       AppModule Ibc [IBCKeeper w],
       AppModule Transfer [TransferKeeper w],
       AppModule Gmp [GMPKeeper w],
       AppModule Attestations [attestations],
       AppModule Evm [EVMKeeper w, AccountKeeper w, BankKeeper w, sel ''AddressCodec'' (AccountKeeper w)],
       AppModule Feemarket [FeeMarketKeeper w],
       AppModule Erc20 [Erc20Keeper w, AccountKeeper w],
       AppModule Tokenfactory [appCodec w, TokenFactoryKeeper w, AccountKeeper w, BankKeeper w],
       AppModule Ift [appCodec w, IFTKeeper w]])"

definition step_modules :: "sdk \<Rightarrow> wiring_step" where
  "step_modules L w =
     (let w = emit (Call ''module.NewManager'' (app_modules w)) w;
          w = w\<lparr>ModuleManager := Obj ''module.NewManager''\<rparr>;
          w = emit (Call ''module.NewBasicManagerFromManager''
                [ModuleManager w,
                 Lib '':'' [Str (cv L (ModuleName Genutil)),
                   Lib ''genutil.NewAppModuleBasic'' [Lib ''genutiltypes.DefaultMessageValidator'' []]],
                 Lib '':'' [Str (cv L (ModuleName Gov)), Lib ''gov.NewAppModuleBasic'' [Nil]],
                 Lib '':'' [Str (cv L (ModuleName Transfer)), Lib ''transfer.AppModuleBasic'' []],
                 Lib '':'' [Str (cv L (ModuleName Bank)), Lib ''NewBankBasicWithEVMDenomMetadata'' []]]) w;
          w = w\<lparr>BasicModuleManager := Obj ''module.NewBasicManagerFromManager''\<rparr>;
          w = emit (Method (BasicModuleManager w) ''RegisterLegacyAminoCodec'' [legacyAmino w]) w;
          w = emit (Method (BasicModuleManager w) ''RegisterInterfaces'' [interfaceRegistry w]) w
      in Inr w)"

definition preBlockers :: "pkg list" where
  "preBlockers = [Upgrade, Auth, Evm]"

definition beginBlockers :: "pkg list" where
  "beginBlockers =
     [Genutil, Poa, Ibc, Transfer, Erc20, Feemarket, Evm, Bank, Gov, Consensus, Gmp,
      Tokenfactory, Ift]"

definition endBlockers :: "pkg list" where
  "endBlockers =
     [Genutil, Gov, Poa, Bank, Auth, Evm, Erc20, Feemarket, Ibc, Transfer, Upgrade, Consensus,
      Gmp, Tokenfactory, Ift]"

definition genesisModuleOrder :: "pkg list" where
  "genesisModuleOrder =
     [Auth, Bank, Gov, Poa, Ibc, Evm, Feemarket, Erc20, Transfer, Genutil, Upgrade, Consensus,
      Tokenfactory, Gmp, Ift]"

definition module_names :: "sdk \<Rightarrow> pkg list \<Rightarrow> val list" where
  "module_names L ps = map (\<lambda>p. Str (cv L (ModuleName p))) ps"

definition step_order :: "sdk \<Rightarrow> wiring_step" where
  "step_order L w =
     (case through (ModuleManager w) (ModuleManager w) of
        Inl s \<Rightarrow> Inl s
      | Inr mm \<Rightarrow>
      let w = emit (Method mm ''SetOrderPreBlockers'' (module_names L preBlockers)) w;
          w = emit (Method mm ''SetOrderBeginBlockers'' (module_names L beginBlockers)) w;
          w = emit (Method mm ''SetOrderEndBlockers'' (module_names L endBlockers)) w;
          w = emit (Method mm ''SetOrderInitGenesis'' (module_names L genesisModuleOrder)) w;
          w = emit (Method mm ''SetOrderExportGenesis'' (module_names L genesisModuleOrder)) w
      in Inr w)"

subsection \<open>Services, stores and handlers\<close>

definition step_services_mount :: "sdk \<Rightarrow> wiring_step" where
  "step_services_mount L w =
     (let w = w\<lparr>configurator :=
                  Lib ''module.NewConfigurator''
                    [appCodec w, msgRouter w, sel ''GRPCQueryRouter'' (BaseApp w)]\<rparr>;
          w = emit (Method (ModuleManager w) ''RegisterServices'' [configurator w]) w
      in case RegisterServices_err L of
           Some err \<Rightarrow> Inl (PanicErr err)
         | None \<Rightarrow>
      let w = emit (Call ''autocliv1.RegisterQueryServer''
                [sel ''GRPCQueryRouter'' (BaseApp w),
                 Lib ''runtimeservices.NewAutoCLIQueryService'' [sel ''Modules'' (ModuleManager w)]]) w;
          w = emit (Method (BaseApp w) ''MountKVStores'' [Local ''keys'']) w;
          w = emit (Method (BaseApp w) ''MountObjectStores'' [Local ''oKeys'']) w;
          w = emit (Method (BaseApp w) ''MountTransientStores'' [Local ''transientKeys'']) w
      in Inr w)"

text \<open>\<open>setAnteHandler\<close> and \<open>setPostHandler\<close>.\<close>

definition setAnteHandler :: "sdk \<Rightarrow> val \<Rightarrow> uint64 \<Rightarrow> wiring_step" where
  "setAnteHandler L txConfig maxGasWanted w =
     (let w = w\<lparr>FeeRecipientModule := Str (cv L (ModuleName Poa))\<rparr>;
          options =
            \<lparr>ho_Cdc = appCodec w,
             ho_AccountKeeper = AccountKeeper w,
             ho_BankKeeper = BankKeeper w,
             ho_ExtensionOptionChecker = Lib ''antetypes.HasDynamicFeeExtensionOption'' [],
             ho_EvmKeeper = EVMKeeper w,
             ho_IBCKeeper = IBCKeeper w,
             ho_FeeMarketKeeper = FeeMarketKeeper w,
             ho_FeegrantKeeper = Nil,
             ho_SignModeHandler = sel ''SignModeHandler'' txConfig,
             ho_SigGasConsumer = Lib ''evmante.SigVerificationGasConsumer'' [],
             ho_MaxTxGasWanted = maxGasWanted,
             ho_DynamicFeeChecker = True,
             ho_PendingTxListener = Bound ''onPendingTx''\<rparr>
      in case Validate_err L of
           Some err \<Rightarrow> Inl (PanicErr err)
         | None \<Rightarrow>
             Inr (emit (Method (BaseApp w) ''SetAnteHandler'' [Lib ''NewPOAEVMAnteHandler'' []])
                   (w\<lparr>ante_options := Some options\<rparr>)))"

definition setPostHandler :: "sdk \<Rightarrow> wiring_step" where
  "setPostHandler L w =
     (let w = emit (Call ''posthandler.NewPostHandler'' [Lib ''posthandler.HandlerOptions'' []]) w
      in case NewPostHandler_err L of
           Some err \<Rightarrow> Inl (PanicErr err)
         | None \<Rightarrow>
             Inr (emit (Method (BaseApp w) ''SetPostHandler'' [Obj ''posthandler.NewPostHandler'']) w))"

definition step_handlers :: "sdk \<Rightarrow> app_opts \<Rightarrow> wiring_step" where
  "step_handlers L opts w =
     (let maxGasWanted = opt_uint64 opts ''srvflags.EVMMaxTxGasWanted'';
          w = emit (Method (BaseApp w) ''SetInitChainer'' [Bound ''InitChainer'']) w;
          w = emit (Method (BaseApp w) ''SetPreBlocker'' [Bound ''PreBlocker'']) w;
          w = emit (Method (BaseApp w) ''SetBeginBlocker'' [Bound ''BeginBlocker'']) w;
          w = emit (Method (BaseApp w) ''SetEndBlocker'' [Bound ''EndBlocker'']) w
      in run_steps [setAnteHandler L (app_txConfig w) maxGasWanted, setPostHandler L] w)"

subsection \<open>EVM mempool\<close>

text \<open>\<open>configureEVMMempool\<close>: the state after it, with its error result.\<close>

definition configureEVMMempool :: "sdk \<Rightarrow> wiring \<Rightarrow> wiring \<times> go_error option" where
  "configureEVMMempool L w =
     (if GetChainConfig_nil L then (w, None)
      else
        let cosmosPoolMaxTx = GetCosmosPoolMaxTx L in
        if cosmosPoolMaxTx < 0 then (w, None)
        else
          let cfg = (\<lambda>f. Lib f [Local ''appOpts'', Local ''logger'']);
              w = emit (Call ''evmmempool.NewExperimentalEVMMempool''
                    [Bound ''CreateQueryContext'', Local ''logger'', EVMKeeper w, FeeMarketKeeper w,
                     app_txConfig w,
                     Lib ''evmmempool.EVMMempoolConfig''
                       [sel ''AnteHandler'' (BaseApp w), cfg ''GetLegacyPoolConfig'',
                        cfg ''GetBlockGasLimit'', cfg ''GetMinTip''],
                     Local ''cosmosPoolMaxTx'']) w;
              evmMempool = Obj ''evmmempool.NewExperimentalEVMMempool'';
              w = emit (Method (BaseApp w) ''SetCheckTxHandler''
                    [Lib ''evmmempool.NewCheckTxHandler'' [evmMempool]]) w;
              w = emit (Call ''baseapp.NewDefaultProposalHandler'' [evmMempool, AppSelf]) w;
              abciProposalHandler = Obj ''baseapp.NewDefaultProposalHandler'';
              w = emit (Method abciProposalHandler ''SetSignerExtractionAdapter''
                    [Lib ''evmmempool.NewEthSignerExtractionAdapter''
                      [Lib ''sdkmempool.NewDefaultSignerExtractionAdapter'' []]]) w;
              w = emit (Method (BaseApp w) ''SetPrepareProposal''
                    [sel ''PrepareProposalHandler'' abciProposalHandler]) w;
              w = w\<lparr>EVMMempool := evmMempool\<rparr>;
              w = emit (Method (BaseApp w) ''SetMempool'' [evmMempool]) w
          in (w, None))"

definition step_mempool :: "sdk \<Rightarrow> wiring_step" where
  "step_mempool L w =
     (case configureEVMMempool L w of
        (w, Some err) \<Rightarrow> Inl (PanicMsg ''failed to configure EVM mempool: %s'' err)
      | (w, None) \<Rightarrow> Inr w)"

subsection \<open>Proto annotations and loading\<close>

definition step_proto_load :: "sdk \<Rightarrow> bool \<Rightarrow> wiring_step" where
  "step_proto_load L loadLatest w =
     (case MergedRegistry_err L of
        Some err \<Rightarrow> Inl (PanicErr err)
      | None \<Rightarrow>
      let w = (case ValidateProtoAnnotations_err L of
                 Some err \<Rightarrow> w\<lparr>stderr := stderr w @ [err]\<rparr> | None \<Rightarrow> w)
      in if loadLatest
         then (let w = emit (Method (BaseApp w) ''LoadLatestVersion'' []) w
               in case LoadLatestVersion_err L of
                    Some err \<Rightarrow> Inl (OsExit 1 ''error on loading last version'' (Some err))
                  | None \<Rightarrow> Inr w)
         else Inr w)"

section \<open>\<open>NewApp\<close>\<close>

definition NewApp_steps :: "sdk \<Rightarrow> bool \<Rightarrow> app_opts \<Rightarrow> val list \<Rightarrow> wiring_step list" where
  "NewApp_steps L loadLatest opts baseAppOptions =
     [step_base L opts baseAppOptions,
      step_consensus_auth_bank L,
      step_tx_config L,
      step_poa_gov_upgrade L opts,
      step_ibc_feemarket_transfer L,
      step_evm L opts,
      step_ibc_stack L,
      step_modules L,
      step_order L,
      step_services_mount L,
      step_handlers L opts,
      step_mempool L,
      step_proto_load L loadLatest]"

definition NewApp :: "sdk \<Rightarrow> bool \<Rightarrow> app_opts \<Rightarrow> val list \<Rightarrow> stop + wiring" where
  "NewApp L loadLatest opts baseAppOptions =
     run_steps (NewApp_steps L loadLatest opts baseAppOptions) package_state"

end
