(* ===== verification/WiringRun.thy ===== *)
theory WiringRun
  imports Wiring
begin

text \<open>
  Running \<open>NewApp\<close>: what each step stops with, what the first eleven steps (everything up to
  the mempool) leave behind, and the observations on the trace of library calls that the
  properties of theory WiringSpec are stated with.
\<close>

section \<open>Observations on the trace\<close>

text \<open>The routes added to a router object, in order, whenever they were added.\<close>

fun route_added :: "val \<Rightarrow> event \<Rightarrow> (string \<times> val) option" where
  "route_added r (Method r' m [Str n, v]) =
     (if m = ''AddRoute'' \<and> r' = r then Some (n, v) else None)"
| "route_added r e = None"

definition routes_on :: "val \<Rightarrow> event list \<Rightarrow> (string \<times> val) list" where
  "routes_on r evs = List.map_filter (route_added r) evs"

text \<open>The arguments of the calls of one method, in order.\<close>

fun args_if :: "string \<Rightarrow> event \<Rightarrow> val list option" where
  "args_if m (Method r m' args) = (if m' = m then Some args else None)"
| "args_if m (Call f args) = (if f = m then Some args else None)"

definition args_of :: "string \<Rightarrow> event list \<Rightarrow> val list list" where
  "args_of m evs = List.map_filter (args_if m) evs"

text \<open>The methods called on one object, in order.\<close>

fun method_if :: "val \<Rightarrow> event \<Rightarrow> string option" where
  "method_if r (Method r' m args) = (if r' = r then Some m else None)"
| "method_if r (Call f args) = None"

definition methods_on :: "val \<Rightarrow> event list \<Rightarrow> string list" where
  "methods_on r evs = List.map_filter (method_if r) evs"

text \<open>The arguments of one method on one object.\<close>

fun args_on_if :: "val \<Rightarrow> string \<Rightarrow> event \<Rightarrow> val list option" where
  "args_on_if r m (Method r' m' args) = (if r' = r \<and> m' = m then Some args else None)"
| "args_on_if r m (Call f args) = None"

definition args_on :: "val \<Rightarrow> string \<Rightarrow> event list \<Rightarrow> val list list" where
  "args_on r m es = List.map_filter (args_on_if r m) es"

text \<open>The functions called, in order, and the arguments of the calls of one function.\<close>

fun callee :: "event \<Rightarrow> string option" where
  "callee (Call f args) = Some f"
| "callee (Method r m args) = None"

definition callees :: "event list \<Rightarrow> string list" where
  "callees es = List.map_filter callee es"

fun call_args :: "string \<Rightarrow> event \<Rightarrow> val list option" where
  "call_args f (Call f' args) = (if f' = f then Some args else None)"
| "call_args f (Method r m args) = None"

definition calls_to :: "string \<Rightarrow> event list \<Rightarrow> val list list" where
  "calls_to f es = List.map_filter (call_args f) es"

lemma args_on_simps [simp]:
  "args_on r m (xs @ ys) = args_on r m xs @ args_on r m ys"
  "args_on r m [] = []"
  "args_on r m (e # es) = (case args_on_if r m e of None \<Rightarrow> [] | Some x \<Rightarrow> [x]) @ args_on r m es"
  by (simp_all add: args_on_def List.map_filter_def split: option.split)

lemma callees_simps [simp]:
  "callees (xs @ ys) = callees xs @ callees ys"
  "callees [] = []"
  "callees (e # es) = (case callee e of None \<Rightarrow> [] | Some x \<Rightarrow> [x]) @ callees es"
  by (simp_all add: callees_def List.map_filter_def split: option.split)

lemma calls_to_simps [simp]:
  "calls_to f (xs @ ys) = calls_to f xs @ calls_to f ys"
  "calls_to f [] = []"
  "calls_to f (e # es) = (case call_args f e of None \<Rightarrow> [] | Some x \<Rightarrow> [x]) @ calls_to f es"
  by (simp_all add: calls_to_def List.map_filter_def split: option.split)

lemma observations_append [simp]:
  "routes_on r (xs @ ys) = routes_on r xs @ routes_on r ys"
  "args_of m (xs @ ys) = args_of m xs @ args_of m ys"
  "methods_on r (xs @ ys) = methods_on r xs @ methods_on r ys"
  by (simp_all add: routes_on_def args_of_def methods_on_def List.map_filter_def)

lemma observations_Cons [simp]:
  "routes_on r (e # es) = (case route_added r e of None \<Rightarrow> [] | Some x \<Rightarrow> [x]) @ routes_on r es"
  "args_of m (e # es) = (case args_if m e of None \<Rightarrow> [] | Some x \<Rightarrow> [x]) @ args_of m es"
  "methods_on r (e # es) = (case method_if r e of None \<Rightarrow> [] | Some x \<Rightarrow> [x]) @ methods_on r es"
  by (simp_all add: routes_on_def args_of_def methods_on_def List.map_filter_simps split: option.split)

lemma observations_Nil [simp]:
  "routes_on r [] = []" "args_of m [] = []" "methods_on r [] = []"
  by (simp_all add: routes_on_def args_of_def methods_on_def List.map_filter_simps)

lemma args_on_Nil: "m \<notin> set (methods_on r es) \<Longrightarrow> args_on r m es = []"
proof (induction es)
  case (Cons e es)
  then show ?case by (cases e) (auto split: if_splits)
qed simp

lemma calls_to_Nil: "f \<notin> set (callees es) \<Longrightarrow> calls_to f es = []"
proof (induction es)
  case (Cons e es)
  then show ?case by (cases e) (auto split: if_splits)
qed simp

section \<open>The library's key maps\<close>

text \<open>What the constructors of key maps document: a fresh key under each of the given names.\<close>

definition key_maps_law :: "sdk \<Rightarrow> bool" where
  "key_maps_law L \<longleftrightarrow>
     NewKVStoreKeys L = (\<lambda>ns n. if n \<in> set ns then Some (KVStoreKey n) else None)
   \<and> NewObjectStoreKeys L = (\<lambda>ns n. if n \<in> set ns then Some (ObjectKey n) else None)
   \<and> NewTransientStoreKeys L = (\<lambda>ns n. if n \<in> set ns then Some (TransientKey n) else None)"

section \<open>Stops\<close>

text \<open>The failures that the code turns into a stop, in the order they are checked.\<close>

fun first_stop :: "stop option list \<Rightarrow> stop option" where
  "first_stop [] = None"
| "first_stop (None # fs) = first_stop fs"
| "first_stop (Some s # fs) = Some s"

lemma first_stop_append [simp]:
  "first_stop (fs @ gs) = (case first_stop fs of None \<Rightarrow> first_stop gs | Some s \<Rightarrow> Some s)"
  by (induction fs rule: first_stop.induct) simp_all

lemma first_stop_None: "first_stop fs = None \<longleftrightarrow> (\<forall>f \<in> set fs. f = None)"
  by (induction fs rule: first_stop.induct) simp_all

definition core_failures :: "sdk \<Rightarrow> stop option list" where
  "core_failures L =
     [map_option (\<lambda>e. OsExit 1 ''failed to load state streaming: %s'' (Some e))
        (RegisterStreamingServices_err L),
      map_option PanicErr (NewTxConfigWithOptions_err L),
      map_option PanicErr (RegisterServices_err L),
      map_option PanicErr (Validate_err L),
      map_option PanicErr (NewPostHandler_err L)]"

definition load_failures :: "sdk \<Rightarrow> bool \<Rightarrow> stop option list" where
  "load_failures L loadLatest =
     [map_option PanicErr (MergedRegistry_err L),
      if loadLatest
      then map_option (\<lambda>e. OsExit 1 ''error on loading last version'' (Some e))
             (LoadLatestVersion_err L)
      else None]"

definition core_steps :: "sdk \<Rightarrow> app_opts \<Rightarrow> val list \<Rightarrow> wiring_step list" where
  "core_steps L opts baseAppOptions =
     [step_base L opts baseAppOptions,
      step_consensus_auth_bank L,
      step_tx_config L,
      step_poa_gov_upgrade L opts,
      step_ibc_feemarket_transfer L,
      step_evm L opts,
      step_ibc_stack L,
      step_modules L,
      step_order L,
      step_services_mount L,
      step_handlers L opts]"

lemma NewApp_steps_split:
  "NewApp_steps L loadLatest opts bo =
     core_steps L opts bo @ [step_mempool L, step_proto_load L loadLatest]"
  by (simp add: NewApp_steps_def core_steps_def)

lemma emit_sel [simp]:
  "calls (emit e w) = e # calls w"
  "BaseApp (emit e w) = BaseApp w" "IBCKeeper (emit e w) = IBCKeeper w"
  "GovKeeper (emit e w) = GovKeeper w" "POAKeeper (emit e w) = POAKeeper w"
  "ModuleManager (emit e w) = ModuleManager w" "EVMKeeper (emit e w) = EVMKeeper w"
  by (simp_all add: emit_def)

text \<open>
  \<open>made w\<close>: the keepers that later steps reach through a pointer have been assigned.  Each
  step stops with its own failure, or goes on and keeps what is made.
\<close>

definition made :: "wiring \<Rightarrow> bool" where
  "made w \<longleftrightarrow> (\<exists>i g. IBCKeeper w = Obj i \<and> GovKeeper w = Obj g)"

lemma step_base_outcome:
  "step_base L opts bo w = Inl s \<longleftrightarrow>
     (\<exists>e. RegisterStreamingServices_err L = Some e
        \<and> s = OsExit 1 ''failed to load state streaming: %s'' (Some e))"
  by (auto simp: step_base_def Let_def split: option.splits)

lemma step_consensus_auth_bank_outcome: "step_consensus_auth_bank L w \<noteq> Inl s"
  by (simp add: step_consensus_auth_bank_def Let_def)

lemma step_tx_config_outcome:
  "step_tx_config L w = Inl s \<longleftrightarrow> (\<exists>e. NewTxConfigWithOptions_err L = Some e \<and> s = PanicErr e)"
  by (auto simp: step_tx_config_def Let_def split: option.splits)

lemma step_poa_gov_upgrade_outcome:
  "\<exists>w' g. step_poa_gov_upgrade L opts w = Inr w' \<and> GovKeeper w' = Obj g"
  by (simp add: step_poa_gov_upgrade_def Let_def)

lemma step_ibc_feemarket_transfer_outcome:
  "\<exists>w' i. step_ibc_feemarket_transfer L w = Inr w' \<and> IBCKeeper w' = Obj i \<and> GovKeeper w' = GovKeeper w"
  by (simp add: step_ibc_feemarket_transfer_def Let_def)

lemma step_evm_outcome: "made w \<Longrightarrow> \<exists>w'. step_evm L opts w = Inr w' \<and> made w'"
  by (auto simp: step_evm_def Let_def made_def)

lemma step_ibc_stack_outcome: "made w \<Longrightarrow> \<exists>w'. step_ibc_stack L w = Inr w'"
  by (auto simp: step_ibc_stack_def Let_def made_def)

lemma step_modules_outcome: "\<exists>w' m. step_modules L w = Inr w' \<and> ModuleManager w' = Obj m"
  by (simp add: step_modules_def Let_def)

lemma step_order_outcome: "ModuleManager w = Obj m \<Longrightarrow> \<exists>w'. step_order L w = Inr w'"
  by (simp add: step_order_def Let_def)

lemma step_services_mount_outcome:
  "step_services_mount L w = Inl s \<longleftrightarrow> (\<exists>e. RegisterServices_err L = Some e \<and> s = PanicErr e)"
  by (auto simp: step_services_mount_def Let_def split: option.splits)

lemma step_handlers_outcome:
  "step_handlers L opts w = Inl s \<longleftrightarrow>
     first_stop [map_option PanicErr (Validate_err L), map_option PanicErr (NewPostHandler_err L)] = Some s"
  by (auto simp: step_handlers_def setAnteHandler_def setPostHandler_def Let_def split: option.splits)


lemma core_outcome:
  "run_steps (core_steps L opts bo) w = Inl s \<longleftrightarrow> first_stop (core_failures L) = Some s"
proof (cases "step_base L opts bo w")
  case (Inl e)
  then have "first_stop (core_failures L) = Some e"
    using step_base_outcome [of L opts bo w e] by (auto simp: core_failures_def)
  with Inl show ?thesis by (simp add: core_steps_def)
next
  case (Inr w1)
  then have none1: "RegisterStreamingServices_err L = None"
    by (auto simp: step_base_def Let_def split: option.splits)
  obtain w2 where w2: "step_consensus_auth_bank L w1 = Inr w2"
    using step_consensus_auth_bank_outcome [of L w1] by (cases "step_consensus_auth_bank L w1") auto
  show ?thesis
  proof (cases "step_tx_config L w2")
    case (Inl e)
    then have "first_stop (core_failures L) = Some e"
      using none1 step_tx_config_outcome [of L w2 e] by (auto simp: core_failures_def)
    with Inl Inr w2 show ?thesis by (simp add: core_steps_def)
  next
    case tx: (Inr w3)
    then have none2: "NewTxConfigWithOptions_err L = None"
      by (auto simp: step_tx_config_def Let_def split: option.splits)
    obtain w4 g where w4: "step_poa_gov_upgrade L opts w3 = Inr w4" "GovKeeper w4 = Obj g"
      using step_poa_gov_upgrade_outcome [of L opts w3] by blast
    obtain w5 where w5: "step_ibc_feemarket_transfer L w4 = Inr w5" "made w5"
      using step_ibc_feemarket_transfer_outcome [of L w4] w4(2) by (auto simp: made_def)
    obtain w6 where w6: "step_evm L opts w5 = Inr w6" "made w6"
      using step_evm_outcome [OF w5(2)] by blast
    obtain w7 where w7: "step_ibc_stack L w6 = Inr w7"
      using step_ibc_stack_outcome [OF w6(2)] by blast
    obtain w8 m where w8: "step_modules L w7 = Inr w8" "ModuleManager w8 = Obj m"
      using step_modules_outcome [of L w7] by blast
    obtain w9 where w9: "step_order L w8 = Inr w9"
      using step_order_outcome [OF w8(2)] by blast
    have front: "run_steps (core_steps L opts bo) w =
        run_steps [step_services_mount L, step_handlers L opts] w9"
      using Inr w2 tx w4(1) w5(1) w6(1) w7 w8(1) w9 by (simp add: core_steps_def)
    show ?thesis
    proof (cases "step_services_mount L w9")
      case (Inl e)
      then have "first_stop (core_failures L) = Some e"
        using none1 none2 step_services_mount_outcome [of L w9 e] by (auto simp: core_failures_def)
      with Inl front show ?thesis by simp
    next
      case mount: (Inr w10)
      then have "RegisterServices_err L = None"
        by (auto simp: step_services_mount_def Let_def split: option.splits)
      with mount none1 none2 show ?thesis
        using step_handlers_outcome [of L opts w10 s] unfolding front
        by (auto simp: core_failures_def split: sum.splits)
    qed
  qed
qed

lemma step_mempool_Inr: "step_mempool L w = Inr (fst (configureEVMMempool L w))"
  by (simp add: step_mempool_def configureEVMMempool_def Let_def)

lemma step_proto_load_outcome:
  "step_proto_load L ll w = Inl s \<longleftrightarrow> first_stop (load_failures L ll) = Some s"
  by (auto simp: step_proto_load_def load_failures_def Let_def split: option.splits)

lemma NewApp_split:
  "NewApp L ll opts bo =
     (case run_steps (core_steps L opts bo) package_state of
        Inl s \<Rightarrow> Inl s
      | Inr w \<Rightarrow> step_proto_load L ll (fst (configureEVMMempool L w)))"
  by (simp add: NewApp_def NewApp_steps_split run_steps_append step_mempool_Inr split: sum.split)

section \<open>What the core steps leave behind\<close>

text \<open>A value that carries no store key, no pointer and no hole.\<close>

definition plain :: "val \<Rightarrow> bool" where
  "plain v \<longleftrightarrow> clean v \<and> keys_in v = [] \<and> pointers_in v = []"

lemma plainD:
  "plain v \<Longrightarrow> clean v" "plain v \<Longrightarrow> keys_in v = []" "plain v \<Longrightarrow> pointers_in v = []"
  by (simp_all add: plain_def)

lemma plain_list:
  "list_all plain vs \<Longrightarrow>
     list_all clean vs \<and> concat (map keys_in vs) = [] \<and> concat (map pointers_in vs) = []"
  by (induction vs) (simp_all add: plain_def)

text \<open>
  The fields assigned by the first, second and third group of steps.  The values are the
  objects the constructors returned.
\<close>

definition base_fields :: "sdk \<Rightarrow> wiring \<Rightarrow> bool" where
  "base_fields L w \<longleftrightarrow>
     BaseApp w = Obj ''baseapp.NewBaseApp''
   \<and> plain (appCodec w) \<and> plain (legacyAmino w) \<and> plain (interfaceRegistry w)
   \<and> plain (app_txConfig w) \<and> plain (local_txConfig w)
   \<and> app_keys w = NewKVStoreKeys L (kv_store_names L)
   \<and> app_oKeys w = NewObjectStoreKeys L [cv L (ObjectStoreKey Bank), cv L (ObjectStoreKey Evm)]
   \<and> transientKeys w = NewTransientStoreKeys L [cv L (TransientStoreKey Poa)]
   \<and> nonTransientKeys w =
       range_values (app_keys w) (keys_order L) @ range_values (app_oKeys w) (oKeys_order L)
   \<and> ConsensusParamsKeeper w = Obj ''consensusparamkeeper.NewKeeper''
   \<and> AccountKeeper w = Obj ''authkeeper.NewAccountKeeper''
   \<and> BankKeeper w = Obj ''bankkeeper.WithObjStoreKey''"

definition chain_fields :: "wiring \<Rightarrow> bool" where
  "chain_fields w \<longleftrightarrow>
     POAKeeper w = Obj ''poakeeper.NewKeeper''
   \<and> GovKeeper w = Obj ''govkeeper.NewKeeper''
   \<and> UpgradeKeeper w = Obj ''upgradekeeper.NewKeeper''
   \<and> IBCKeeper w = Obj ''ibckeeper.NewKeeper''
   \<and> FeeMarketKeeper w = Obj ''feemarketkeeper.NewKeeper''
   \<and> TransferKeeper w = Obj ''transferkeeper.NewKeeper''"

definition evm_ibc_fields :: "wiring \<Rightarrow> bool" where
  "evm_ibc_fields w \<longleftrightarrow>
     EVMKeeper w = Obj ''evmkeeper.WithStaticPrecompiles''
   \<and> Erc20Keeper w = Obj ''erc20keeper.NewKeeper''
   \<and> GMPKeeper w = Obj ''gmpkeeper.NewKeeper''
   \<and> TokenFactoryKeeper w = Obj ''tokenfactorykeeper.NewKeeper''
   \<and> IFTKeeper w = Obj ''iftkeeper.NewKeeper''"

lemmas field_defs = base_fields_def chain_fields_def evm_ibc_fields_def

text \<open>The calls that the properties ask about, none of which a quiet stretch of the trace has.\<close>

definition routing_quiet :: "event list \<Rightarrow> bool" where
  "routing_quiet es \<longleftrightarrow>
     args_of ''SetRouter'' es = [] \<and> args_of ''SetRouterV2'' es = [] \<and> args_of ''AddRoute'' es = []
   \<and> args_of ''WithStaticPrecompiles'' es = []"

definition order_quiet :: "event list \<Rightarrow> bool" where
  "order_quiet es \<longleftrightarrow>
     args_of ''SetOrderPreBlockers'' es = [] \<and> args_of ''SetOrderBeginBlockers'' es = []
   \<and> args_of ''SetOrderEndBlockers'' es = [] \<and> args_of ''SetOrderInitGenesis'' es = []
   \<and> args_of ''SetOrderExportGenesis'' es = [] \<and> args_of ''module.NewManager'' es = []
   \<and> args_of ''MountKVStores'' es = [] \<and> args_of ''MountObjectStores'' es = []
   \<and> args_of ''MountTransientStores'' es = []"

lemma no_AddRoute_no_routes: "args_of ''AddRoute'' es = [] \<Longrightarrow> routes_on r es = []"
proof (induction es)
  case Nil
  show ?case by simp
next
  case (Cons e es)
  then have "route_added r e = None"
    by (cases "(r, e)" rule: route_added.cases) (auto split: option.splits)
  with Cons show ?case by (auto split: option.splits)
qed

text \<open>\<open>extends w es w'\<close>: the run from \<open>w\<close> to \<open>w'\<close> made the calls \<open>es\<close>, all without holes.\<close>

definition extends :: "wiring \<Rightarrow> event list \<Rightarrow> wiring \<Rightarrow> bool" where
  "extends w es w' \<longleftrightarrow> trace w' = trace w @ es \<and> list_all event_clean es"

lemma extends_trans: "extends u es v \<Longrightarrow> extends v fs w \<Longrightarrow> extends u (es @ fs) w"
  by (simp add: extends_def)

text \<open>What no later step before the mempool touches.\<close>

definition rest_kept :: "wiring \<Rightarrow> wiring \<Rightarrow> bool" where
  "rest_kept w w' \<longleftrightarrow>
     EVMMempool w' = EVMMempool w \<and> stderr w' = stderr w \<and> appCodec w' = appCodec w"

lemma rest_kept_trans: "rest_kept u v \<Longrightarrow> rest_kept v w \<Longrightarrow> rest_kept u w"
  by (simp add: rest_kept_def)

lemmas step_defs =
  step_base_def step_consensus_auth_bank_def step_tx_config_def
  step_poa_gov_upgrade_def step_ibc_feemarket_transfer_def step_evm_def step_ibc_stack_def
  step_modules_def step_order_def step_services_mount_def step_handlers_def
  setAnteHandler_def setPostHandler_def

lemmas helper_defs =
  emit_def key_of_def key_at_def evmCodec_def
  accPrefix_def kvService_def msgRouter_def authAddr_def moduleAddress_def

lemmas observation_defs =
  extends_def trace_def routing_quiet_def order_quiet_def field_defs rest_kept_def

lemma key_maps_lawD:
  assumes "key_maps_law L"
  shows "NewKVStoreKeys L = (\<lambda>ns n. if n \<in> set ns then Some (KVStoreKey n) else None)"
    and "NewObjectStoreKeys L = (\<lambda>ns n. if n \<in> set ns then Some (ObjectKey n) else None)"
    and "NewTransientStoreKeys L = (\<lambda>ns n. if n \<in> set ns then Some (TransientKey n) else None)"
  using assms by (simp_all add: key_maps_law_def)

text \<open>The call that makes the BaseApp, with the options it is made with.\<close>

definition new_base_app :: "app_opts \<Rightarrow> val list \<Rightarrow> event" where
  "new_base_app opts baseAppOptions =
     Call ''baseapp.NewBaseApp''
       ([Str appName, Local ''logger'', Local ''db'',
         sel ''TxDecoder'' (sel ''TxConfig''
           (Lib ''evmencoding.MakeConfig'' [U64 (opt_uint64 opts ''srvflags.EVMChainID'')]))]
        @ baseAppOptions @ [Lib ''baseapp.SetOptimisticExecution'' []])"

lemma run_base:
  assumes law: "key_maps_law L" and bo: "list_all plain bo"
    and none: "RegisterStreamingServices_err L = None" "NewTxConfigWithOptions_err L = None"
  shows "\<exists>w es.
      run_steps [step_base L opts bo, step_consensus_auth_bank L, step_tx_config L] package_state = Inr w
    \<and> base_fields L w \<and> es \<noteq> [] \<and> hd es = new_base_app opts bo
    \<and> EVMMempool w = Zero ''EVMMempool'' \<and> stderr w = [] \<and> extends package_state es w \<and> routing_quiet es \<and> order_quiet es
    \<and> concat (map event_keys es) =
        map (KVStoreKey \<circ> cv L \<circ> StoreKey) [Consensus, Auth, Bank] @ [ObjectKey (cv L (ObjectStoreKey Bank))]
    \<and> concat (map event_pointers es) = []
    \<and> callees es =
        [''baseapp.NewBaseApp'', ''consensusparamkeeper.NewKeeper'', ''authkeeper.NewAccountKeeper'',
         ''bankkeeper.NewBaseKeeper'', ''authtx.NewTxConfigWithOptions'']
    \<and> methods_on (Obj ''baseapp.NewBaseApp'') es =
        [''SetVersion'', ''SetInterfaceRegistry'', ''SetTxEncoder'', ''SetBlockSTMTxRunner'',
         ''SetDisableBlockGasMeter'', ''RegisterStreamingServices'', ''SetParamStore'']"
  by (simp add: step_defs helper_defs Let_def none key_maps_lawD [OF law] kv_store_names_def
      new_base_app_def plain_list [OF bo] observation_defs package_state_def plain_def
      cong: val_congs let_weak_cong)


lemma run_chain_segment:
  assumes law: "key_maps_law L" and w: "base_fields L w"
  shows "\<exists>w' es.
      run_steps [step_poa_gov_upgrade L opts, step_ibc_feemarket_transfer L] w = Inr w'
    \<and> base_fields L w' \<and> chain_fields w' \<and> rest_kept w w' \<and> extends w es w'
    \<and> routing_quiet es \<and> order_quiet es
    \<and> concat (map event_keys es) =
        [KVStoreKey (cv L (StoreKey Poa)), TransientKey (cv L (TransientStoreKey Poa))]
        @ map (KVStoreKey \<circ> cv L \<circ> StoreKey) [Gov, Upgrade, Ibc, Feemarket, Transfer]
    \<and> concat (map event_pointers es) = []
    \<and> callees es =
        [''poakeeper.NewKeeper'', ''govkeeper.NewKeeper'', ''upgradekeeper.NewKeeper'', ''ibckeeper.NewKeeper'',
         ''feemarketkeeper.NewKeeper'', ''transferkeeper.NewKeeper'']
    \<and> methods_on (Obj ''baseapp.NewBaseApp'') es = []"
  using w
  by (simp add: step_defs helper_defs Let_def key_maps_lawD [OF law] kv_store_names_def
      observation_defs plain_def
      cong: val_congs let_weak_cong)

definition transfer_stack_v2 :: val where
  "transfer_stack_v2 =
     Lib ''erc20v2.NewIBCMiddleware''
       [Lib ''transferv2.NewIBCModule'' [Obj ''transferkeeper.NewKeeper''], Obj ''erc20keeper.NewKeeper'']"

definition gmp_stack_v2 :: val where
  "gmp_stack_v2 =
     Lib ''ibccallbacksv2.NewIBCMiddleware''
       [Lib ''gmp.NewIBCModule'' [Obj ''gmpkeeper.NewKeeper''],
        sel ''ChannelKeeperV2'' (Obj ''ibckeeper.NewKeeper''), FieldPtr ''IFTKeeper'',
        sel ''ChannelKeeperV2'' (Obj ''ibckeeper.NewKeeper''), U64 maxCallbackGas]"

definition attestations_client :: "wiring \<Rightarrow> val" where
  "attestations_client w =
     Lib ''&''
       [Lib ''ibcattestations.NewLightClientModule''
          [appCodec w, sel ''GetStoreProvider'' (sel ''ClientKeeper'' (IBCKeeper w))]]"

definition routing_facts :: "sdk \<Rightarrow> wiring \<Rightarrow> event list \<Rightarrow> bool" where
  "routing_facts L w es \<longleftrightarrow>
     args_of ''SetRouterV2'' es = [[Obj ''ibcapi.NewRouter'']]
   \<and> args_of ''SetRouter'' es = [[Obj ''porttypes.NewRouter'']]
   \<and> args_of ''AddRoute'' es =
        [[Str (cv L (ModuleName Transfer)), transfer_stack_v2],
         [Str (cv L (ModuleName Attestations)), attestations_client w],
         [Str (cv L (PortID Gmp)), gmp_stack_v2]]
   \<and> routes_on (Obj ''ibcapi.NewRouter'') es =
        [(cv L (ModuleName Transfer), transfer_stack_v2), (cv L (PortID Gmp), gmp_stack_v2)]
   \<and> routes_on (Obj ''porttypes.NewRouter'') es = []
   \<and> routes_on (sel ''ClientKeeper'' (IBCKeeper w)) es =
        [(cv L (ModuleName Attestations), attestations_client w)]
   \<and> args_of ''WithStaticPrecompiles'' es =
        [[staticPrecompiles w (sel ''ClientKeeper'' (IBCKeeper w)) (Lib ''*'' [GovKeeper w])]]"

definition order_facts :: "sdk \<Rightarrow> wiring \<Rightarrow> event list \<Rightarrow> bool" where
  "order_facts L w es \<longleftrightarrow>
     args_of ''module.NewManager'' es = [app_modules w]
   \<and> args_of ''SetOrderPreBlockers'' es = [module_names L preBlockers]
   \<and> args_of ''SetOrderBeginBlockers'' es = [module_names L beginBlockers]
   \<and> args_of ''SetOrderEndBlockers'' es = [module_names L endBlockers]
   \<and> args_of ''SetOrderInitGenesis'' es = [module_names L genesisModuleOrder]
   \<and> args_of ''SetOrderExportGenesis'' es = [module_names L genesisModuleOrder]
   \<and> args_of ''MountKVStores'' es = [[Local ''keys'']]
   \<and> args_of ''MountObjectStores'' es = [[Local ''oKeys'']]
   \<and> args_of ''MountTransientStores'' es = [[Local ''transientKeys'']]"

lemma run_evm_ibc:
  assumes law: "key_maps_law L" and w: "base_fields L w" "chain_fields w"
  shows "\<exists>w' es.
      run_steps [step_evm L opts, step_ibc_stack L] w = Inr w'
    \<and> base_fields L w' \<and> chain_fields w' \<and> evm_ibc_fields w' \<and> rest_kept w w' \<and> extends w es w' \<and> order_quiet es
    \<and> routing_facts L w' es
    \<and> concat (map event_keys es) =
        [KVStoreKey (cv L (StoreKey Evm)), ObjectKey (cv L (ObjectStoreKey Evm))]
        @ map (KVStoreKey \<circ> cv L \<circ> StoreKey) [Erc20, Gmp, Tokenfactory, Ift]
    \<and> concat (map event_pointers es) =
        [''ConsensusParamsKeeper'', ''Erc20Keeper'', ''Erc20Keeper'', ''TokenFactoryKeeper'', ''IFTKeeper'']
    \<and> callees es =
        [''evmkeeper.NewKeeper'', ''erc20keeper.NewKeeper'', ''gmpkeeper.NewKeeper'', ''ibcapi.NewRouter'',
         ''porttypes.NewRouter'', ''tokenfactorykeeper.NewKeeper'', ''iftkeeper.NewKeeper'']
    \<and> methods_on (Obj ''baseapp.NewBaseApp'') es = []"
  using w
  by (simp add: step_defs helper_defs Let_def key_maps_lawD [OF law] kv_store_names_def
      observation_defs plain_def staticPrecompiles_def transfer_stack_v2_def gmp_stack_v2_def
      attestations_client_def routing_facts_def sel_def
      cong: val_congs let_weak_cong)

definition ante_setup :: "sdk \<Rightarrow> app_opts \<Rightarrow> wiring \<Rightarrow> handler_options" where
  "ante_setup L opts w =
     \<lparr>ho_Cdc = appCodec w,
      ho_AccountKeeper = AccountKeeper w,
      ho_BankKeeper = BankKeeper w,
      ho_ExtensionOptionChecker = Lib ''antetypes.HasDynamicFeeExtensionOption'' [],
      ho_EvmKeeper = EVMKeeper w,
      ho_IBCKeeper = IBCKeeper w,
      ho_FeeMarketKeeper = FeeMarketKeeper w,
      ho_FeegrantKeeper = Nil,
      ho_SignModeHandler = sel ''SignModeHandler'' (app_txConfig w),
      ho_SigGasConsumer = Lib ''evmante.SigVerificationGasConsumer'' [],
      ho_MaxTxGasWanted = opt_uint64 opts ''srvflags.EVMMaxTxGasWanted'',
      ho_DynamicFeeChecker = True,
      ho_PendingTxListener = Bound ''onPendingTx''\<rparr>"

lemma module_names_plain [simp]:
  "list_all clean (module_names L ps)" "concat (map keys_in (module_names L ps)) = []"
  "concat (map pointers_in (module_names L ps)) = []"
  by (induction ps) (simp_all add: module_names_def)

lemma run_modules:
  assumes law: "key_maps_law L" and w: "base_fields L w" "chain_fields w" "evm_ibc_fields w"
    and none: "RegisterServices_err L = None" "Validate_err L = None" "NewPostHandler_err L = None"
  shows "\<exists>w' es.
      run_steps [step_modules L, step_order L, step_services_mount L, step_handlers L opts] w = Inr w'
    \<and> base_fields L w' \<and> chain_fields w' \<and> evm_ibc_fields w' \<and> rest_kept w w' \<and> extends w es w' \<and> routing_quiet es
    \<and> ModuleManager w' = Obj ''module.NewManager''
    \<and> BasicModuleManager w' = Obj ''module.NewBasicManagerFromManager''
    \<and> plain (configurator w')
    \<and> ante_options w' = Some (ante_setup L opts w')
    \<and> FeeRecipientModule w' = Str (cv L (ModuleName Poa))
    \<and> order_facts L w' es
    \<and> concat (map event_keys es) = []
    \<and> concat (map event_pointers es) = []
    \<and> callees es =
        [''module.NewManager'', ''module.NewBasicManagerFromManager'', ''autocliv1.RegisterQueryServer'',
         ''posthandler.NewPostHandler'']
    \<and> methods_on (Obj ''baseapp.NewBaseApp'') es =
        [''MountKVStores'', ''MountObjectStores'', ''MountTransientStores'',
         ''SetInitChainer'', ''SetPreBlocker'', ''SetBeginBlocker'', ''SetEndBlocker'',
         ''SetAnteHandler'', ''SetPostHandler'']"
  using w
  by (simp add: step_defs helper_defs Let_def none ante_setup_def
      observation_defs plain_def app_modules_def order_facts_def
      cong: val_congs let_weak_cong)

end
