(* ===== verification/WiringSpec.thy ===== *)
theory WiringSpec
  imports WiringRun Accounts Genesis
begin

text \<open>
  What the constructed application looks like: the facts about a run of \<open>NewApp\<close> that succeeds,
  composed from the segments of theory WiringRun, and the properties of the wiring.
\<close>

section \<open>A successful run\<close>

text \<open>The state before the mempool, with the calls made so far.\<close>

definition core_facts :: "sdk \<Rightarrow> app_opts \<Rightarrow> wiring \<Rightarrow> event list \<Rightarrow> bool" where
  "core_facts L opts w es \<longleftrightarrow>
     base_fields L w \<and> chain_fields w \<and> evm_ibc_fields w \<and> EVMMempool w = Zero ''EVMMempool'' \<and> stderr w = []
   \<and> extends package_state es w
   \<and> ModuleManager w = Obj ''module.NewManager''
   \<and> BasicModuleManager w = Obj ''module.NewBasicManagerFromManager''
   \<and> plain (configurator w)
   \<and> ante_options w = Some (ante_setup L opts w)
   \<and> FeeRecipientModule w = Str (cv L (ModuleName Poa))"

definition keys_handed_out :: "sdk \<Rightarrow> store_key list" where
  "keys_handed_out L =
     map (KVStoreKey \<circ> cv L \<circ> StoreKey) [Consensus, Auth, Bank] @ [ObjectKey (cv L (ObjectStoreKey Bank))]
   @ [KVStoreKey (cv L (StoreKey Poa)), TransientKey (cv L (TransientStoreKey Poa))]
   @ map (KVStoreKey \<circ> cv L \<circ> StoreKey) [Gov, Upgrade, Ibc, Feemarket, Transfer]
   @ [KVStoreKey (cv L (StoreKey Evm)), ObjectKey (cv L (ObjectStoreKey Evm))]
   @ map (KVStoreKey \<circ> cv L \<circ> StoreKey) [Erc20, Gmp, Tokenfactory, Ift]"

definition core_setters :: "string list" where
  "core_setters =
     [''SetVersion'', ''SetInterfaceRegistry'', ''SetTxEncoder'', ''SetBlockSTMTxRunner'',
      ''SetDisableBlockGasMeter'', ''RegisterStreamingServices'', ''SetParamStore'',
      ''MountKVStores'', ''MountObjectStores'', ''MountTransientStores'',
      ''SetInitChainer'', ''SetPreBlocker'', ''SetBeginBlocker'', ''SetEndBlocker'',
      ''SetAnteHandler'', ''SetPostHandler'']"

definition core_callees :: "string list" where
  "core_callees =
     [''baseapp.NewBaseApp'', ''consensusparamkeeper.NewKeeper'', ''authkeeper.NewAccountKeeper'',
      ''bankkeeper.NewBaseKeeper'', ''authtx.NewTxConfigWithOptions'',
      ''poakeeper.NewKeeper'', ''govkeeper.NewKeeper'', ''upgradekeeper.NewKeeper'', ''ibckeeper.NewKeeper'',
      ''feemarketkeeper.NewKeeper'', ''transferkeeper.NewKeeper'',
      ''evmkeeper.NewKeeper'', ''erc20keeper.NewKeeper'', ''gmpkeeper.NewKeeper'', ''ibcapi.NewRouter'',
      ''porttypes.NewRouter'', ''tokenfactorykeeper.NewKeeper'', ''iftkeeper.NewKeeper'',
      ''module.NewManager'', ''module.NewBasicManagerFromManager'', ''autocliv1.RegisterQueryServer'',
      ''posthandler.NewPostHandler'']"

definition trace_facts :: "sdk \<Rightarrow> event list \<Rightarrow> bool" where
  "trace_facts L es \<longleftrightarrow>
     concat (map event_keys es) = keys_handed_out L
   \<and> concat (map event_pointers es) =
       [''ConsensusParamsKeeper'', ''Erc20Keeper'', ''Erc20Keeper'', ''TokenFactoryKeeper'', ''IFTKeeper'']"

lemma routing_facts_quiet:
  "routing_quiet a \<Longrightarrow> routing_facts L w es \<Longrightarrow> routing_facts L w (a @ es)"
  "routing_quiet b \<Longrightarrow> routing_facts L w es \<Longrightarrow> routing_facts L w (es @ b)"
  by (simp_all add: routing_facts_def routing_quiet_def no_AddRoute_no_routes)

lemma routing_facts_kept:
  "routing_facts L w es \<Longrightarrow> base_fields L w \<Longrightarrow> chain_fields w \<Longrightarrow> base_fields L w' \<Longrightarrow> chain_fields w'
     \<Longrightarrow> appCodec w' = appCodec w \<Longrightarrow> routing_facts L w' es"
  by (simp add: routing_facts_def attestations_client_def staticPrecompiles_def base_fields_def
      chain_fields_def)

lemma order_facts_quiet:
  "order_quiet a \<Longrightarrow> order_facts L w es \<Longrightarrow> order_facts L w (a @ es)"
  "order_quiet b \<Longrightarrow> order_facts L w es \<Longrightarrow> order_facts L w (es @ b)"
  by (simp_all add: order_facts_def order_quiet_def)

lemma rest_keptD:
  "rest_kept w w' \<Longrightarrow> EVMMempool w' = EVMMempool w" "rest_kept w w' \<Longrightarrow> stderr w' = stderr w"
  "rest_kept w w' \<Longrightarrow> appCodec w' = appCodec w"
  by (simp_all add: rest_kept_def)

lemma run_core:
  assumes law: "key_maps_law L" and bo: "list_all plain bo"
    and none: "first_stop (core_failures L) = None"
  shows "\<exists>w es. run_steps (core_steps L opts bo) package_state = Inr w
    \<and> core_facts L opts w es \<and> routing_facts L w es \<and> order_facts L w es \<and> trace_facts L es
    \<and> methods_on (Obj ''baseapp.NewBaseApp'') es = core_setters
    \<and> callees es = core_callees
    \<and> es \<noteq> [] \<and> hd es = new_base_app opts bo"
proof -
  have errs: "RegisterStreamingServices_err L = None" "NewTxConfigWithOptions_err L = None"
    "RegisterServices_err L = None" "Validate_err L = None" "NewPostHandler_err L = None"
    using none by (auto simp: core_failures_def first_stop_None)
  have split: "core_steps L opts bo =
      [step_base L opts bo, step_consensus_auth_bank L, step_tx_config L]
      @ [step_poa_gov_upgrade L opts, step_ibc_feemarket_transfer L]
      @ [step_evm L opts, step_ibc_stack L]
      @ [step_modules L, step_order L, step_services_mount L, step_handlers L opts]"
    by (simp add: core_steps_def)
  show ?thesis
    apply (rule exE [OF run_base [OF law bo errs(1,2), of opts]], elim exE conjE)
    subgoal for w1 e1
      apply (rule exE [OF run_chain_segment [OF law, of w1 opts]], assumption, elim exE conjE)
      subgoal for w2 e2
        apply (rule exE [OF run_evm_ibc [OF law, of w2 opts]], assumption, assumption, elim exE conjE)
        subgoal for w3 e3
          apply (rule exE [OF run_modules [OF law, where w = w3 and opts = opts]], assumption,
              assumption, assumption, rule errs, rule errs, rule errs, elim exE conjE)
          subgoal for w4 e4
            apply (rule exI [of _ w4], rule exI [of _ "e1 @ e2 @ e3 @ e4"], intro conjI)
            subgoal by (simp only: split run_steps_append sum.case)
            subgoal by (simp add: core_facts_def rest_keptD extends_trans)
            subgoal
              by (intro routing_facts_quiet; simp add: routing_facts_kept [of L w3] rest_keptD)
            subgoal by (intro order_facts_quiet)
            subgoal
              by (simp only: trace_facts_def keys_handed_out_def map_append concat_append append_assoc
                append_Nil append_Nil2)
            subgoal by (simp add: core_setters_def)
            subgoal by (simp add: core_callees_def)
            subgoal by simp
            subgoal by simp
            done
          done
        done
      done
    done
qed
section \<open>The mempool and the load step\<close>

definition mempool_on :: "sdk \<Rightarrow> bool" where
  "mempool_on L \<longleftrightarrow> \<not> GetChainConfig_nil L \<and> 0 \<le> GetCosmosPoolMaxTx L"

definition tail_setters :: "sdk \<Rightarrow> bool \<Rightarrow> string list" where
  "tail_setters L loadLatest =
     (if mempool_on L then [''SetCheckTxHandler'', ''SetPrepareProposal'', ''SetMempool''] else [])
     @ (if loadLatest then [''LoadLatestVersion''] else [])"

definition final_mempool :: "sdk \<Rightarrow> val" where
  "final_mempool L =
     (if mempool_on L then Obj ''evmmempool.NewExperimentalEVMMempool'' else Zero ''EVMMempool'')"

definition proto_warning :: "sdk \<Rightarrow> go_error list" where
  "proto_warning L = (case ValidateProtoAnnotations_err L of None \<Rightarrow> [] | Some e \<Rightarrow> [e])"

text \<open>
  How the mempool is put in place: the calls to its constructor and to that of the proposal
  handler, and what is then set in BaseApp.
\<close>

definition mempool_calls :: "wiring \<Rightarrow> event list \<Rightarrow> val list list list" where
  "mempool_calls w es =
     [calls_to ''evmmempool.NewExperimentalEVMMempool'' es,
      calls_to ''baseapp.NewDefaultProposalHandler'' es,
      args_on (BaseApp w) ''SetCheckTxHandler'' es,
      args_on (BaseApp w) ''SetPrepareProposal'' es,
      args_on (BaseApp w) ''SetMempool'' es]"

definition mempool_setup :: "wiring \<Rightarrow> val \<Rightarrow> val list list" where
  "mempool_setup w pool =
     [[Bound ''CreateQueryContext'', Local ''logger'', EVMKeeper w, FeeMarketKeeper w, app_txConfig w,
       Lib ''evmmempool.EVMMempoolConfig''
         (sel ''AnteHandler'' (BaseApp w)
          # map (\<lambda>f. Lib f [Local ''appOpts'', Local ''logger'']) [''GetLegacyPoolConfig'', ''GetBlockGasLimit'', ''GetMinTip'']),
       Local ''cosmosPoolMaxTx''],
      [pool, AppSelf],
      [Lib ''evmmempool.NewCheckTxHandler'' [pool]],
      [sel ''PrepareProposalHandler'' (Obj ''baseapp.NewDefaultProposalHandler'')],
      [pool]]"

definition mempool_facts :: "sdk \<Rightarrow> wiring \<Rightarrow> event list \<Rightarrow> bool" where
  "mempool_facts L w es \<longleftrightarrow>
     mempool_calls w es =
       (if mempool_on L then map (\<lambda>args. [args]) (mempool_setup w (final_mempool L)) else replicate 5 [])"

lemma mempool_calls_append: "mempool_calls w (xs @ ys) = map2 (@) (mempool_calls w xs) (mempool_calls w ys)"
  by (simp add: mempool_calls_def)

definition tail_callees :: "sdk \<Rightarrow> string list" where
  "tail_callees L =
     (if mempool_on L then [''evmmempool.NewExperimentalEVMMempool'', ''baseapp.NewDefaultProposalHandler''] else [])"

lemma mempool_calls_quiet:
  assumes "set (callees es) \<inter> {''evmmempool.NewExperimentalEVMMempool'', ''baseapp.NewDefaultProposalHandler''} = {}"
    and "set (methods_on (BaseApp w) es) \<inter> {''SetCheckTxHandler'', ''SetPrepareProposal'', ''SetMempool''} = {}"
  shows "mempool_calls w es = replicate 5 []"
  using assms by (simp add: mempool_calls_def calls_to_Nil args_on_Nil numeral_eq_Suc)

lemma run_mempool:
  assumes u: "core_facts L opts u es"
  shows "\<exists>fs. fst (configureEVMMempool L u) = u\<lparr>EVMMempool := final_mempool L, calls := rev fs @ calls u\<rparr>
    \<and> list_all event_clean fs \<and> routing_quiet fs \<and> order_quiet fs
    \<and> concat (map event_keys fs) = [] \<and> concat (map event_pointers fs) = []
    \<and> methods_on (Obj ''baseapp.NewBaseApp'') fs = tail_setters L False
    \<and> callees fs = tail_callees L \<and> mempool_facts L u fs"
proof (cases "mempool_on L")
  case True
  with u show ?thesis
    apply (intro exI [of _ "rev (take 6 (calls (fst (configureEVMMempool L u))))"])
    apply (simp add: configureEVMMempool_def emit_def Let_def mempool_on_def final_mempool_def
        tail_setters_def core_facts_def field_defs plain_def routing_quiet_def order_quiet_def numeral_eq_Suc
        tail_callees_def mempool_facts_def mempool_calls_def mempool_setup_def
        cong: val_congs let_weak_cong)
    done
next
  case False
  with u show ?thesis
    by (intro exI [of _ "[]"])
      (auto simp: configureEVMMempool_def mempool_on_def final_mempool_def tail_setters_def tail_callees_def
        mempool_facts_def mempool_calls_def core_facts_def routing_quiet_def order_quiet_def Let_def numeral_eq_Suc)
qed

lemma run_load:
  assumes "step_proto_load L ll u = Inr w" and "BaseApp u = Obj ''baseapp.NewBaseApp''"
  shows "\<exists>fs. w = u\<lparr>stderr := stderr u @ proto_warning L, calls := rev fs @ calls u\<rparr>
    \<and> list_all event_clean fs \<and> routing_quiet fs \<and> order_quiet fs
    \<and> concat (map event_keys fs) = [] \<and> concat (map event_pointers fs) = []
    \<and> methods_on (Obj ''baseapp.NewBaseApp'') fs = (if ll then [''LoadLatestVersion''] else [])
    \<and> callees fs = []"
  using assms
  by (intro exI [of _ "if ll then [Method (Obj ''baseapp.NewBaseApp'') ''LoadLatestVersion'' []] else []"])
    (auto simp: step_proto_load_def Let_def emit_def proto_warning_def routing_quiet_def order_quiet_def
      split: option.splits if_splits)

section \<open>The constructed application\<close>

text \<open>
  \<open>built L loadLatest opts bo w\<close>: \<open>NewApp\<close> returned the application with state \<open>w\<close>, with the
  library's key-map constructors as documented and with options that carry no store keys.
\<close>

definition built :: "sdk \<Rightarrow> bool \<Rightarrow> app_opts \<Rightarrow> val list \<Rightarrow> wiring \<Rightarrow> bool" where
  "built L loadLatest opts bo w \<longleftrightarrow>
     key_maps_law L \<and> list_all plain bo \<and> NewApp L loadLatest opts bo = Inr w"

lemma builtI:
  "key_maps_law L \<Longrightarrow> list_all plain bo \<Longrightarrow> NewApp L ll opts bo = Inr w \<Longrightarrow> built L ll opts bo w"
  by (simp add: built_def)

definition final_facts :: "sdk \<Rightarrow> bool \<Rightarrow> app_opts \<Rightarrow> val list \<Rightarrow> wiring \<Rightarrow> bool" where
  "final_facts L loadLatest opts bo w \<longleftrightarrow>
     base_fields L w \<and> chain_fields w \<and> evm_ibc_fields w
   \<and> ModuleManager w = Obj ''module.NewManager''
   \<and> BasicModuleManager w = Obj ''module.NewBasicManagerFromManager''
   \<and> plain (configurator w)
   \<and> ante_options w = Some (ante_setup L opts w)
   \<and> FeeRecipientModule w = Str (cv L (ModuleName Poa))
   \<and> EVMMempool w = final_mempool L \<and> stderr w = proto_warning L
   \<and> list_all event_clean (trace w)
   \<and> routing_facts L w (trace w) \<and> order_facts L w (trace w) \<and> trace_facts L (trace w)
   \<and> methods_on (Obj ''baseapp.NewBaseApp'') (trace w) = core_setters @ tail_setters L loadLatest
   \<and> callees (trace w) = core_callees @ tail_callees L
   \<and> mempool_facts L w (trace w)
   \<and> hd (trace w) = new_base_app opts bo"

lemma core_facts_kept:
  assumes "core_facts L opts u es"
    and "w = u\<lparr>EVMMempool := m, stderr := x, calls := c\<rparr>"
  shows "base_fields L w" "chain_fields w" "evm_ibc_fields w" "ModuleManager w = Obj ''module.NewManager''"
    "BasicModuleManager w = Obj ''module.NewBasicManagerFromManager''" "plain (configurator w)"
    "ante_options w = Some (ante_setup L opts w)" "FeeRecipientModule w = Str (cv L (ModuleName Poa))"
    "appCodec w = appCodec u"
  using assms by (simp_all add: core_facts_def field_defs ante_setup_def)

lemma mempool_facts_kept:
  "mempool_facts L u es \<Longrightarrow> w = u\<lparr>EVMMempool := m, stderr := x, calls := c\<rparr> \<Longrightarrow> mempool_facts L w es"
  by (simp add: mempool_facts_def mempool_calls_def mempool_setup_def)

lemma mempool_facts_quiet:
  assumes "mempool_facts L w fs"
    and "mempool_calls w es = replicate 5 []" and "mempool_calls w gs = replicate 5 []"
  shows "mempool_facts L w (es @ fs @ gs)"
  using assms
  by (simp add: mempool_facts_def mempool_calls_append mempool_setup_def numeral_eq_Suc split: if_splits)

lemma order_facts_kept:
  "order_facts L u es \<Longrightarrow> core_facts L opts u fs \<Longrightarrow> w = u\<lparr>EVMMempool := m, stderr := x, calls := c\<rparr>
     \<Longrightarrow> order_facts L w es"
  by (simp add: order_facts_def app_modules_def)

lemma trace_facts_quiet:
  "concat (map event_keys b) = [] \<Longrightarrow> concat (map event_pointers b) = [] \<Longrightarrow>
     trace_facts L es \<Longrightarrow> trace_facts L (es @ b)"
  by (simp add: trace_facts_def)

lemma built_facts:
  assumes "built L ll opts bo w"
  shows "final_facts L ll opts bo w"
proof -
  from assms have law: "key_maps_law L" and bo: "list_all plain bo"
    and run: "NewApp L ll opts bo = Inr w" by (simp_all add: built_def)
  have none: "first_stop (core_failures L) = None"
  proof (rule ccontr)
    assume "first_stop (core_failures L) \<noteq> None"
    then obtain s where "first_stop (core_failures L) = Some s" by blast
    then have "run_steps (core_steps L opts bo) package_state = Inl s" by (simp only: core_outcome)
    with run show False by (simp add: NewApp_split)
  qed
  obtain u es where u: "run_steps (core_steps L opts bo) package_state = Inr u"
    and core: "core_facts L opts u es" "routing_facts L u es" "order_facts L u es" "trace_facts L es"
      "methods_on (Obj ''baseapp.NewBaseApp'') es = core_setters"
      "callees es = core_callees" "es \<noteq> []" "hd es = new_base_app opts bo"
    using run_core [OF law bo none, of opts] by blast
  obtain fs where fs: "fst (configureEVMMempool L u) =
        u\<lparr>EVMMempool := final_mempool L, calls := rev fs @ calls u\<rparr>"
    and fs_facts: "list_all event_clean fs" "routing_quiet fs" "order_quiet fs"
      "concat (map event_keys fs) = []" "concat (map event_pointers fs) = []"
      "methods_on (Obj ''baseapp.NewBaseApp'') fs = tail_setters L False"
      "callees fs = tail_callees L" "mempool_facts L u fs"
    using run_mempool [OF core(1)] by blast
  let ?v = "u\<lparr>EVMMempool := final_mempool L, calls := rev fs @ calls u\<rparr>"
  have "step_proto_load L ll ?v = Inr w"
    using run u fs by (simp add: NewApp_split)
  moreover have "BaseApp ?v = Obj ''baseapp.NewBaseApp''"
    using core(1) by (simp add: core_facts_def base_fields_def)
  ultimately obtain gs where gs: "w = ?v\<lparr>stderr := stderr ?v @ proto_warning L, calls := rev gs @ calls ?v\<rparr>"
    and gs_facts: "list_all event_clean gs" "routing_quiet gs" "order_quiet gs"
      "concat (map event_keys gs) = []" "concat (map event_pointers gs) = []"
      "methods_on (Obj ''baseapp.NewBaseApp'') gs = (if ll then [''LoadLatestVersion''] else [])"
      "callees gs = []"
    using run_load [of L ll ?v w] by blast
  have base: "stderr u = []" "trace u = es" "list_all event_clean es"
    using core(1) by (simp_all add: core_facts_def extends_def trace_def package_state_def)
  have w: "w = u\<lparr>EVMMempool := final_mempool L, stderr := proto_warning L, calls := rev gs @ rev fs @ calls u\<rparr>"
    using gs base(1) by simp
  have tr: "trace w = es @ fs @ gs"
    using base(2) by (simp add: w trace_def)
  note kept = core_facts_kept [OF core(1) w]
  have fields: "base_fields L u" "chain_fields u" using core(1) by (simp_all add: core_facts_def)
  show ?thesis
    unfolding final_facts_def tr
  proof (intro conjI)
    show "routing_facts L w (es @ fs @ gs)"
      using routing_facts_kept [OF core(2) fields kept(1,2,9)] fs_facts(2) gs_facts(2)
      by (metis append_assoc routing_facts_quiet(2))
    show "order_facts L w (es @ fs @ gs)"
      using order_facts_kept [OF core(3,1) w] fs_facts(3) gs_facts(3)
      by (metis append_assoc order_facts_quiet(2))
    show "trace_facts L (es @ fs @ gs)"
      using trace_facts_quiet core(4) fs_facts(4,5) gs_facts(4,5) by (metis append_assoc)
    show "methods_on (Obj ''baseapp.NewBaseApp'') (es @ fs @ gs) = core_setters @ tail_setters L ll"
      using core(5) fs_facts(6) gs_facts(6) by (simp add: tail_setters_def)
    show "callees (es @ fs @ gs) = core_callees @ tail_callees L"
      using core(6) fs_facts(7) gs_facts(7) by simp
    have app: "BaseApp w = Obj ''baseapp.NewBaseApp''" using kept(1) by (simp add: base_fields_def)
    have "mempool_calls w es = replicate 5 []"
      by (rule mempool_calls_quiet) (simp_all add: app core(5,6) core_setters_def core_callees_def)
    moreover have "mempool_calls w gs = replicate 5 []"
      by (rule mempool_calls_quiet) (simp_all add: app gs_facts(6,7))
    ultimately show "mempool_facts L w (es @ fs @ gs)"
      by (rule mempool_facts_quiet [OF mempool_facts_kept [OF fs_facts(8) w]])
    show "hd (es @ fs @ gs) = new_base_app opts bo"
      using core(7,8) by simp
  qed (use base fs_facts(1) gs_facts(1) kept w in simp_all)
qed

lemma final_factsD:
  assumes "final_facts L ll opts bo w"
  shows "base_fields L w" "chain_fields w" "evm_ibc_fields w"
    "ante_options w = Some (ante_setup L opts w)"
    "list_all event_clean (trace w)" "routing_facts L w (trace w)" "order_facts L w (trace w)"
    "trace_facts L (trace w)"
    "methods_on (Obj ''baseapp.NewBaseApp'') (trace w) = core_setters @ tail_setters L ll"
  using assms by (simp_all add: final_facts_def)

section \<open>A library instance\<close>

text \<open>The library of the witnesses: documented key maps, no failing call, a mempool.\<close>

definition sample_sdk :: sdk where
  "sample_sdk =
     \<lparr>cv = sample_cv,
      NewKVStoreKeys = (\<lambda>ns n. if n \<in> set ns then Some (KVStoreKey n) else None),
      NewObjectStoreKeys = (\<lambda>ns n. if n \<in> set ns then Some (ObjectKey n) else None),
      NewTransientStoreKeys = (\<lambda>ns n. if n \<in> set ns then Some (TransientKey n) else None),
      keys_order =
        map (sample_cv \<circ> StoreKey)
          [Ift, Auth, Bank, Consensus, Gov, Upgrade, Poa, Ibc, Transfer, Gmp, Evm, Feemarket,
           Erc20, Tokenfactory],
      oKeys_order = map (sample_cv \<circ> ObjectStoreKey) [Evm, Bank],
      RegisterStreamingServices_err = None,
      NewTxConfigWithOptions_err = None,
      RegisterServices_err = None,
      Validate_err = None,
      NewPostHandler_err = None,
      MergedRegistry_err = None,
      ValidateProtoAnnotations_err = Some (ErrLib ''annotation''),
      LoadLatestVersion_err = None,
      GetChainConfig_nil = False,
      GetCosmosPoolMaxTx = 5000\<rparr>"

definition sample_opts :: app_opts where
  "sample_opts = \<lparr>opt_uint64 = (\<lambda>_. 9001), opt_string = (\<lambda>_. ''home''), opt_ints = (\<lambda>_. [7])\<rparr>"

lemma NewApp_outcome_iff:
  "NewApp L ll opts bo = Inl s \<longleftrightarrow> first_stop (core_failures L @ load_failures L ll) = Some s"
proof (cases "run_steps (core_steps L opts bo) package_state")
  case (Inl e)
  then show ?thesis
    using core_outcome [of L opts bo package_state e] by (simp add: NewApp_split)
next
  case (Inr u)
  then have "first_stop (core_failures L) \<noteq> Some e" for e
    using core_outcome [of L opts bo package_state e] by simp
  then have "first_stop (core_failures L) = None" by (cases "first_stop (core_failures L)") auto
  with Inr show ?thesis
    using step_proto_load_outcome [of L ll "fst (configureEVMMempool L u)" s] by (simp add: NewApp_split)
qed

lemma NewApp_returns_iff:
  "(\<exists>w. NewApp L ll opts bo = Inr w) \<longleftrightarrow> first_stop (core_failures L @ load_failures L ll) = None"
proof (cases "NewApp L ll opts bo")
  case (Inl e)
  then show ?thesis using NewApp_outcome_iff [of L ll opts bo e] by simp
next
  case (Inr w)
  then have "first_stop (core_failures L @ load_failures L ll) \<noteq> Some s" for s
    using NewApp_outcome_iff [of L ll opts bo s] by simp
  with Inr show ?thesis
    by (cases "first_stop (core_failures L @ load_failures L ll)") blast+
qed

lemma sample_sdk_sel [simp]:
  "cv sample_sdk = sample_cv" "GetChainConfig_nil sample_sdk = False"
  "GetCosmosPoolMaxTx sample_sdk = 5000"
  by (simp_all add: sample_sdk_def)

lemma sample_built: "\<exists>w. built sample_sdk True sample_opts [] w"
proof -
  have "first_stop (core_failures sample_sdk @ load_failures sample_sdk True) = None"
    by (simp add: sample_sdk_def core_failures_def load_failures_def)
  then obtain w where "NewApp sample_sdk True sample_opts [] = Inr w"
    using NewApp_returns_iff by blast
  then show ?thesis
    by (intro exI [of _ w]) (simp add: built_def key_maps_law_def sample_sdk_def)
qed

section \<open>Properties\<close>

text \<open>C1: Construction stops exactly with the first failing call that the code checks, in the
  order of the code: an exit when state streaming cannot be registered, a panic for the
  transaction config, the module services, the ante handler options, the post handler and the
  proto registry, and an exit when loading fails, which counts only if loading was asked
  for.  Otherwise it returns; a pointer is never dereferenced before it is assigned, and the
  mempool panic is unreachable.\<close>

theorem NewApp_stops_with_first_failure:
  "(NewApp L loadLatest opts bo = Inl s
      \<longleftrightarrow> first_stop (core_failures L @ load_failures L loadLatest) = Some s)
   \<and> NewApp L loadLatest opts bo \<noteq> Inl (NilDeref f)
   \<and> NewApp L loadLatest opts bo \<noteq> Inl (PanicMsg m e)"
proof -
  have "\<forall>f \<in> set (core_failures L @ load_failures L loadLatest).
      \<forall>g m e. f \<noteq> Some (NilDeref g) \<and> f \<noteq> Some (PanicMsg m e)"
    by (auto simp: core_failures_def load_failures_def)
  moreover have "first_stop fs = Some x \<Longrightarrow> Some x \<in> set fs" for fs x
    by (induction fs rule: first_stop.induct) auto
  ultimately show ?thesis
    unfolding NewApp_outcome_iff by blast
qed

text \<open>The fields of the struct that hold a value, with their contents.\<close>

definition struct_fields :: "wiring \<Rightarrow> (string \<times> val) list" where
  "struct_fields w =
     [(''BaseApp'', BaseApp w), (''legacyAmino'', legacyAmino w), (''appCodec'', appCodec w),
      (''interfaceRegistry'', interfaceRegistry w), (''txConfig'', app_txConfig w),
      (''AccountKeeper'', AccountKeeper w), (''BankKeeper'', BankKeeper w),
      (''ConsensusParamsKeeper'', ConsensusParamsKeeper w), (''GovKeeper'', GovKeeper w),
      (''UpgradeKeeper'', UpgradeKeeper w), (''POAKeeper'', POAKeeper w),
      (''IBCKeeper'', IBCKeeper w), (''TransferKeeper'', TransferKeeper w),
      (''GMPKeeper'', GMPKeeper w), (''TokenFactoryKeeper'', TokenFactoryKeeper w),
      (''IFTKeeper'', IFTKeeper w), (''FeeMarketKeeper'', FeeMarketKeeper w),
      (''EVMKeeper'', EVMKeeper w), (''Erc20Keeper'', Erc20Keeper w), (''EVMMempool'', EVMMempool w),
      (''ModuleManager'', ModuleManager w), (''BasicModuleManager'', BasicModuleManager w),
      (''configurator'', configurator w)]"

text \<open>C6: Definite assignment, although the EVM and ERC-20 keepers need each other: no library call
  of \<open>NewApp\<close> receives a field of the application before its assignment or a store key that
  was not created; every field whose address is handed out (the ERC-20, consensus-params,
  token-factory and IFT keepers) is assigned when \<open>NewApp\<close> returns; and so is every other
  field, except the mempool when the chain config is missing or the mempool is disabled.\<close>

theorem NewApp_definite_assignment:
  assumes "built L loadLatest opts bo w"
  shows "list_all event_clean (trace w)
    \<and> (\<forall>f \<in> set (concat (map event_pointers (trace w))). \<exists>c. map_of (struct_fields w) f = Some (Obj c))
    \<and> (\<forall>(f, v) \<in> set (struct_fields w). clean v \<longleftrightarrow> f \<noteq> ''EVMMempool'' \<or> mempool_on L)"
proof -
  note facts = built_facts [OF assms]
  note fields = final_factsD(1-3) [OF facts]
  have "concat (map event_pointers (trace w)) =
      [''ConsensusParamsKeeper'', ''Erc20Keeper'', ''Erc20Keeper'', ''TokenFactoryKeeper'', ''IFTKeeper'']"
    using final_factsD(8) [OF facts] by (simp add: trace_facts_def)
  moreover have "EVMMempool w = final_mempool L" "plain (configurator w)"
    "ModuleManager w = Obj ''module.NewManager''"
    "BasicModuleManager w = Obj ''module.NewBasicManagerFromManager''"
    using facts by (simp_all add: final_facts_def)
  ultimately show ?thesis
    using fields final_factsD(5) [OF facts]
    by (simp add: struct_fields_def field_defs plainD final_mempool_def)
qed

theorem NewApp_definite_assignment_witness:
  "\<exists>w. built sample_sdk True sample_opts [] w \<and> (\<forall>(f, v) \<in> set (struct_fields w). clean v)"
proof -
  obtain w where w: "built sample_sdk True sample_opts [] w" using sample_built by blast
  then show ?thesis
    using NewApp_definite_assignment [OF w] by (auto simp: mempool_on_def)
qed

definition store_names :: "pkg_const set" where
  "store_names =
     StoreKey ` {Auth, Bank, Consensus, Gov, Upgrade, Poa, Ibc, Transfer, Gmp, Evm, Feemarket,
                 Erc20, Tokenfactory, Ift}
     \<union> {ObjectStoreKey Bank, ObjectStoreKey Evm, TransientStoreKey Poa}"

lemma kv_store_names_set:
  "set (kv_store_names L) = cv L ` StoreKey ` {Auth, Bank, Consensus, Gov, Upgrade, Poa, Ibc,
     Transfer, Gmp, Evm, Feemarket, Erc20, Tokenfactory, Ift}"
  by (simp add: kv_store_names_def)

lemma ran_keyed: "ran (\<lambda>n. if n \<in> A then Some (f n) else None) = f ` A"
  by (auto simp: ran_def)

lemma built_key_maps:
  assumes "built L ll opts bo w"
  shows "ran (app_keys w) = KVStoreKey ` set (kv_store_names L)"
    and "ran (app_oKeys w) = ObjectKey ` cv L ` {ObjectStoreKey Bank, ObjectStoreKey Evm}"
    and "ran (transientKeys w) = TransientKey ` cv L ` {TransientStoreKey Poa}"
proof -
  have law: "key_maps_law L" using assms by (simp add: built_def)
  note base = final_factsD(1) [OF built_facts [OF assms]]
  show "ran (app_keys w) = KVStoreKey ` set (kv_store_names L)"
    using base ran_keyed [of "set (kv_store_names L)"] by (simp add: base_fields_def key_maps_lawD [OF law])
  show "ran (app_oKeys w) = ObjectKey ` cv L ` {ObjectStoreKey Bank, ObjectStoreKey Evm}"
    using base ran_keyed [of "cv L ` {ObjectStoreKey Bank, ObjectStoreKey Evm}"]
    by (simp add: base_fields_def key_maps_lawD [OF law])
  show "ran (transientKeys w) = TransientKey ` cv L ` {TransientStoreKey Poa}"
    using base ran_keyed [of "cv L ` {TransientStoreKey Poa}"]
    by (simp add: base_fields_def key_maps_lawD [OF law])
qed



text \<open>C29: The block-STM runner and the EVM keeper see the same stores whatever order Go iterates over
  the two key maps in: the list of non-transient keys holds every key-value and object key
  exactly once, and no transient key.\<close>

theorem nonTransientKeys_order_independent:
  assumes "built L loadLatest opts bo w" and "inj_on (cv L) store_names"
    and "iter_order (app_keys w) (keys_order L)" and "iter_order (app_oKeys w) (oKeys_order L)"
  shows "distinct (nonTransientKeys w)
    \<and> set (nonTransientKeys w) = ran (app_keys w) \<union> ran (app_oKeys w)
    \<and> set (nonTransientKeys w) \<inter> ran (transientKeys w) = {}"
proof -
  have law: "key_maps_law L" using assms(1) by (simp add: built_def)
  note base = final_factsD(1) [OF built_facts [OF assms(1)]]
  have keyed: "set (List.map_filter m ns) = ran m \<and> (inj_on m (dom m) \<longrightarrow> distinct (List.map_filter m ns))"
    if "iter_order m ns" for m :: "string \<rightharpoonup> store_key" and ns
  proof -
    have ns: "List.map_filter m ns = map (the \<circ> m) ns" "distinct ns" "set ns = dom m"
      using that by (auto simp: iter_order_def List.map_filter_def dom_def intro!: filter_True
          arg_cong [where f = "map (the \<circ> m)"])
    have "inj_on (the \<circ> m) (dom m)" if inj: "inj_on m (dom m)"
      using inj by (auto simp: inj_on_def dom_def)
    moreover have "(the \<circ> m) ` dom m = ran m"
      by (force simp: ran_def dom_def)
    ultimately show ?thesis
      using ns by (simp add: distinct_map)
  qed
  have inj: "inj_on (app_keys w) (dom (app_keys w))" "inj_on (app_oKeys w) (dom (app_oKeys w))"
    using base by (auto simp: base_fields_def key_maps_lawD [OF law] inj_on_def split: if_splits)
  have eq: "nonTransientKeys w =
      List.map_filter (app_keys w) (keys_order L) @ List.map_filter (app_oKeys w) (oKeys_order L)"
    using base by (simp add: base_fields_def range_values_def)
  have "ran (app_keys w) \<inter> ran (app_oKeys w) = {}"
    by (auto simp: built_key_maps [OF assms(1)])
  moreover have "(ran (app_keys w) \<union> ran (app_oKeys w)) \<inter> ran (transientKeys w) = {}"
    by (auto simp: built_key_maps [OF assms(1)])
  ultimately show ?thesis
    using keyed [OF assms(3)] keyed [OF assms(4)] inj by (simp add: eq)
qed

theorem nonTransientKeys_order_independent_witness:
  "\<exists>w. built sample_sdk True sample_opts [] w \<and> distinct (nonTransientKeys w)"
proof -
  obtain w where w: "built sample_sdk True sample_opts [] w" using sample_built by blast
  have law: "key_maps_law sample_sdk" using w by (simp add: built_def)
  note base = final_factsD(1) [OF built_facts [OF w]]
  have order: "keys_order sample_sdk =
        map (sample_cv \<circ> StoreKey)
          [Ift, Auth, Bank, Consensus, Gov, Upgrade, Poa, Ibc, Transfer, Gmp, Evm, Feemarket,
           Erc20, Tokenfactory]" "oKeys_order sample_sdk = map (sample_cv \<circ> ObjectStoreKey) [Evm, Bank]"
    by (simp_all add: sample_sdk_def)
  have "iter_order (app_keys w) (keys_order sample_sdk)" "iter_order (app_oKeys w) (oKeys_order sample_sdk)"
    using base
    by (auto simp: iter_order_def order base_fields_def key_maps_lawD [OF law] kv_store_names_def
        split: if_splits)
  moreover have "inj_on (cv sample_sdk) store_names" by (simp add: sample_cv_inj_on)
  ultimately have "distinct (nonTransientKeys w)"
    using nonTransientKeys_order_independent [OF w] by simp
  with w show ?thesis by blast
qed

text \<open>C18: IBC routing: the router installed for v2 ends up with exactly two routes, although one of
  them is added to it after it was installed: the transfer port is served by the ERC-20
  middleware around the transfer module, the GMP port by the callbacks middleware around the
  GMP module with the IFT keeper as contract keeper; the v1 router that is installed has no
  route (v1 is disabled); and the only light client is the attestations client.\<close>

theorem ibc_routes:
  assumes "built L loadLatest opts bo w"
  shows "\<exists>v1 v2. args_of ''SetRouter'' (trace w) = [[v1]] \<and> args_of ''SetRouterV2'' (trace w) = [[v2]]
    \<and> v1 \<noteq> v2 \<and> routes_on v1 (trace w) = []
    \<and> routes_on v2 (trace w) =
        [(cv L (ModuleName Transfer),
          Lib ''erc20v2.NewIBCMiddleware''
            [Lib ''transferv2.NewIBCModule'' [TransferKeeper w], Erc20Keeper w]),
         (cv L (PortID Gmp),
          Lib ''ibccallbacksv2.NewIBCMiddleware''
            [Lib ''gmp.NewIBCModule'' [GMPKeeper w], sel ''ChannelKeeperV2'' (IBCKeeper w),
             FieldPtr ''IFTKeeper'', sel ''ChannelKeeperV2'' (IBCKeeper w), U64 1000000])]
    \<and> map fst (routes_on (sel ''ClientKeeper'' (IBCKeeper w)) (trace w)) = [cv L (ModuleName Attestations)]
    \<and> length (args_of ''AddRoute'' (trace w)) = 3"
proof -
  note facts = built_facts [OF assms]
  show ?thesis
    using final_factsD(2,3,6) [OF facts]
    by (intro exI [of _ "Obj ''porttypes.NewRouter''"] exI [of _ "Obj ''ibcapi.NewRouter''"])
      (simp add: routing_facts_def chain_fields_def evm_ibc_fields_def transfer_stack_v2_def
        gmp_stack_v2_def maxCallbackGas_def)
qed

theorem ibc_routes_witness:
  "\<exists>w v2. built sample_sdk True sample_opts [] w \<and> args_of ''SetRouterV2'' (trace w) = [[v2]]
     \<and> map fst (routes_on v2 (trace w)) = [''Mt'', ''Pm'']"
proof -
  obtain w where w: "built sample_sdk True sample_opts [] w" using sample_built by blast
  from ibc_routes [OF this] w show ?thesis by force
qed

text \<open>
  The calls that make a builder value, in order, and what each installs.  A call that is not in
  the table makes the reading fail, so that no builder is overlooked.
\<close>

datatype installed = PraguePrecompiles | Precompile precompile

fun builder_calls :: "val \<Rightarrow> string list" where
  "builder_calls (Lib f (v # vs)) = builder_calls v @ [f]"
| "builder_calls (Lib f []) = [f]"
| "builder_calls v = []"

definition builder_table :: "(string \<times> installed list) list" where
  "builder_table =
     [(''precompiletypes.NewStaticPrecompiles'', []),
      (''.WithPraguePrecompiles'', [PraguePrecompiles]),
      (''.WithP256Precompile'', [Precompile P256]), (''.WithBech32Precompile'', [Precompile Bech32]),
      (''.WithICS02Precompile'', [Precompile ICS02]), (''.WithBankPrecompile'', [Precompile BankPre]),
      (''.WithGovPrecompile'', [Precompile GovPre]), (''.WithStakingPrecompile'', [Precompile StakingPre]),
      (''.WithDistributionPrecompile'', [Precompile DistributionPre]),
      (''.WithSlashingPrecompile'', [Precompile SlashingPre]),
      (''.WithICS20Precompile'', [Precompile ICS20])]"

definition installed_by :: "val \<Rightarrow> installed list option" where
  "installed_by v = map_option concat (those (map (map_of builder_table) (builder_calls v)))"

text \<open>C36: The EVM keeper gets Ethereum's Prague precompiles and, besides them, exactly the static
  precompiles that the default EVM genesis activates, each once: an address activated by
  \<open>NewEVMGenesisState\<close> always has an implementation, staking, distribution, slashing, vesting and
  ICS20 have none, and no builder other than the known ones is called.\<close>

theorem precompiles_match_genesis:
  assumes "built L loadLatest opts bo w"
  shows "\<exists>v ps. args_of ''WithStaticPrecompiles'' (trace w) = [[v]] \<and> installed_by v = Some ps
    \<and> distinct ps
    \<and> set ps = {PraguePrecompiles, Precompile P256, Precompile Bech32, Precompile BankPre,
        Precompile GovPre, Precompile ICS02}
    \<and> {cv L (PrecompileAddress p) | p. Precompile p \<in> set ps} =
        set (ActiveStaticPrecompiles (Params (NewEVMGenesisState (cv L) G)))"
proof -
  obtain v where v: "args_of ''WithStaticPrecompiles'' (trace w) = [[v]]" and
    ps: "installed_by v = Some [PraguePrecompiles, Precompile P256, Precompile Bech32, Precompile ICS02,
      Precompile BankPre, Precompile GovPre]"
    using final_factsD(6) [OF built_facts [OF assms]]
    by (simp add: routing_facts_def installed_by_def staticPrecompiles_def builder_table_def)
  have "{cv L (PrecompileAddress p) | p. Precompile p \<in> set ps} = (cv L \<circ> PrecompileAddress) ` {p. Precompile p \<in> set ps}"
    for ps by auto
  moreover have "{p. p = P256 \<or> p = Bech32 \<or> p = ICS02 \<or> p = BankPre \<or> p = GovPre} =
      {P256, Bech32, BankPre, GovPre, ICS02}" by auto
  ultimately show ?thesis
    by (intro exI [of _ v] exI [of _ "[PraguePrecompiles, Precompile P256, Precompile Bech32,
        Precompile ICS02, Precompile BankPre, Precompile GovPre]"])
      (auto simp: v ps NewEVMGenesisState_def ActivePrecompiles_def Let_def)
qed

theorem precompiles_match_genesis_witness:
  "\<exists>w v ps. built sample_sdk True sample_opts [] w \<and> args_of ''WithStaticPrecompiles'' (trace w) = [[v]]
     \<and> installed_by v = Some ps \<and> {sample_cv (PrecompileAddress p) | p. Precompile p \<in> set ps} =
       {''Aa'', ''Ab'', ''Ac'', ''Ad'', ''Ae''}"
proof -
  obtain w where w: "built sample_sdk True sample_opts [] w" using sample_built by blast
  have "set (ActiveStaticPrecompiles (Params (NewEVMGenesisState sample_cv sample_genesis_lib))) =
      {''Aa'', ''Ab'', ''Ac'', ''Ad'', ''Ae''}"
    by (simp add: NewEVMGenesisState_def ActivePrecompiles_def Let_def)
  moreover obtain v ps where "args_of ''WithStaticPrecompiles'' (trace w) = [[v]]" "installed_by v = Some ps"
    "{cv sample_sdk (PrecompileAddress p) | p. Precompile p \<in> set ps} =
        set (ActiveStaticPrecompiles (Params (NewEVMGenesisState (cv sample_sdk) sample_genesis_lib)))"
    using precompiles_match_genesis [OF w, of sample_genesis_lib] by - (elim exE conjE, rule that)
  ultimately show ?thesis using w by (intro exI conjI; simp)
qed

text \<open>The name a module registers under, and the name of each module given to the manager.\<close>

fun registered_name :: "sdk \<Rightarrow> val \<Rightarrow> val" where
  "registered_name L (AppModule p vs) = Str (cv L (ModuleName p))"
| "registered_name L v = Nil"

lemma app_modules_names:
  "map (registered_name L) (app_modules w) =
     module_names L [Genutil, Auth, Bank, Consensus, Gov, Upgrade, Poa, Ibc, Transfer, Gmp,
       Attestations, Evm, Feemarket, Erc20, Tokenfactory, Ift]"
  by (simp add: app_modules_def module_names_def Let_def)

lemma module_names_mset:
  "mset ps = mset qs \<Longrightarrow> mset (module_names L ps) = mset (module_names L qs)"
  by (simp add: module_names_def)

lemma module_names_set: "set (module_names L ps) = (\<lambda>p. Str (cv L (ModuleName p))) ` set ps"
  by (simp add: module_names_def)

lemma module_names_inj:
  assumes "inj_on (cv L) (range ModuleName)"
  shows "inj_on (\<lambda>p. Str (cv L (ModuleName p))) A"
  using assms by (auto simp: inj_on_def)

text \<open>C25: No module is forgotten in the orders given to the module manager.  All module names being
  different, the end-block, genesis and export orders list every registered module exactly
  once, except the attestations light client, which has no such hooks and is in none; the
  begin-block order lists the same modules exactly once but for upgrade and auth, which the
  pre-block order has; that one names each of its modules once and no other module; and the
  export order is the genesis order.\<close>

theorem module_orders_complete:
  assumes "built L loadLatest opts bo w" and inj: "inj_on (cv L) (range ModuleName)"
  shows "\<exists>ms pre beg fin gen name.
      name = (\<lambda>p. Str (cv L (ModuleName p)))
    \<and> args_of ''module.NewManager'' (trace w) = [ms]
    \<and> args_of ''SetOrderPreBlockers'' (trace w) = [pre] \<and> args_of ''SetOrderBeginBlockers'' (trace w) = [beg]
    \<and> args_of ''SetOrderEndBlockers'' (trace w) = [fin]
    \<and> args_of ''SetOrderInitGenesis'' (trace w) = [gen] \<and> args_of ''SetOrderExportGenesis'' (trace w) = [gen]
    \<and> distinct (map (registered_name L) ms)
    \<and> mset (map (registered_name L) ms) = add_mset (name Attestations) (mset gen)
    \<and> mset fin = mset gen
    \<and> add_mset (name Upgrade) (add_mset (name Auth) (mset beg)) = mset gen
    \<and> {name Upgrade, name Auth} \<subseteq> set pre \<and> set pre \<subseteq> set gen \<and> distinct pre"
proof -
  let ?name = "\<lambda>p. Str (cv L (ModuleName p))"
  note order = final_factsD(7) [OF built_facts [OF assms(1)]]
  have distinct: "distinct (module_names L ps) = distinct ps" for ps
    by (simp add: module_names_def distinct_map module_names_inj [OF inj])
  have all: "mset (map (registered_name L) (app_modules w)) =
      mset (module_names L (Attestations # genesisModuleOrder))"
    unfolding app_modules_names by (rule module_names_mset) (simp add: genesisModuleOrder_def)
  then have "distinct (map (registered_name L) (app_modules w)) =
      distinct (module_names L (Attestations # genesisModuleOrder))"
    by (rule mset_eq_imp_distinct_iff)
  then have "distinct (map (registered_name L) (app_modules w))"
    unfolding distinct by (simp add: genesisModuleOrder_def)
  moreover have "mset (module_names L endBlockers) = mset (module_names L genesisModuleOrder)"
    by (rule module_names_mset) (simp add: genesisModuleOrder_def endBlockers_def)
  moreover have "mset (module_names L (Upgrade # Auth # beginBlockers)) = mset (module_names L genesisModuleOrder)"
    by (rule module_names_mset) (simp add: genesisModuleOrder_def beginBlockers_def)
  moreover have "{?name Upgrade, ?name Auth} \<subseteq> set (module_names L preBlockers)
      \<and> set (module_names L preBlockers) \<subseteq> set (module_names L genesisModuleOrder)"
    by (auto simp: module_names_set preBlockers_def genesisModuleOrder_def)
  moreover have "distinct (module_names L preBlockers)"
    by (simp add: distinct preBlockers_def)
  ultimately show ?thesis
    using order all by (simp add: order_facts_def module_names_def)
qed

theorem module_orders_complete_witness:
  "\<exists>w ms gen. built sample_sdk True sample_opts [] w \<and> args_of ''module.NewManager'' (trace w) = [ms]
     \<and> args_of ''SetOrderInitGenesis'' (trace w) = [gen] \<and> length ms = Suc (length gen)"
proof -
  obtain w where w: "built sample_sdk True sample_opts [] w" using sample_built by blast
  have inj: "inj_on (cv sample_sdk) (range ModuleName)" by (simp add: sample_cv_inj_on)
  obtain ms gen name
    where "args_of ''module.NewManager'' (trace w) = [ms]" "args_of ''SetOrderInitGenesis'' (trace w) = [gen]"
      and m: "mset (map (registered_name sample_sdk) ms) = add_mset (name Attestations) (mset gen)"
    using module_orders_complete [OF w inj] by - (elim exE conjE, rule that)
  moreover have "length ms = Suc (length gen)"
    using arg_cong [OF m, of size] by simp
  ultimately show ?thesis using w by blast
qed

text \<open>C26: The orders respect the dependencies between modules.  Genesis: auth before bank, bank
  before the EVM (which needs the bank metadata of its denomination), the EVM before fee market
  and ERC-20, IBC before transfer, GMP before IFT, and genutil after auth, bank, governance,
  POA and the EVM, whose state its genesis transactions use.  Blocks: upgrade runs first of all;
  the fee market runs before the EVM at the beginning of a block and after it at the end;
  governance ends a block before POA, which takes its votes.\<close>

theorem module_orders_respect_dependencies:
  assumes "built L loadLatest opts bo w" and inj: "inj_on (cv L) (range ModuleName)"
  shows "\<exists>pre beg fin gen.
      args_of ''SetOrderPreBlockers'' (trace w) = [pre] \<and> args_of ''SetOrderBeginBlockers'' (trace w) = [beg]
    \<and> args_of ''SetOrderEndBlockers'' (trace w) = [fin] \<and> args_of ''SetOrderInitGenesis'' (trace w) = [gen]
    \<and> hd pre = Str (cv L (ModuleName Upgrade))
    \<and> (let before = (\<lambda>ns p q. precedes ns (Str (cv L (ModuleName p))) (Str (cv L (ModuleName q))))
       in before gen Auth Bank \<and> before gen Bank Evm \<and> before gen Evm Feemarket
        \<and> before gen Evm Erc20 \<and> before gen Ibc Transfer \<and> before gen Gmp Ift
        \<and> list_all (\<lambda>p. before gen p Genutil) [Auth, Bank, Gov, Poa, Evm]
        \<and> before beg Feemarket Evm \<and> before fin Evm Feemarket \<and> before fin Gov Poa)"
proof -
  note order = final_factsD(7) [OF built_facts [OF assms(1)]]
  have before: "precedes (module_names L ps) (Str (cv L (ModuleName p))) (Str (cv L (ModuleName q)))
      = precedes ps p q" for ps p q
    unfolding module_names_def by (rule precedes_map [OF module_names_inj [OF inj]])
  show ?thesis
    using order
    by (simp add: order_facts_def before Let_def)
      (simp add: module_names_def preBlockers_def beginBlockers_def endBlockers_def genesisModuleOrder_def)
qed

theorem module_orders_respect_dependencies_witness:
  "\<exists>w gen. built sample_sdk True sample_opts [] w \<and> args_of ''SetOrderInitGenesis'' (trace w) = [gen]
     \<and> precedes gen (Str ''Mb'') (Str ''Me'')"
proof -
  obtain w where w: "built sample_sdk True sample_opts [] w" using sample_built by blast
  have "inj_on (cv sample_sdk) (range ModuleName)" by (simp add: sample_cv_inj_on)
  from module_orders_respect_dependencies [OF w this] w show ?thesis by (auto simp: Let_def)
qed

text \<open>C30: BaseApp is configured before it is loaded, once: no setter of BaseApp is called twice, all
  stores are mounted and every handler (init chainer, block hooks, ante, post) is set on every
  successful construction; the ante handler is set before the mempool reads it; the state is
  loaded only on request, and then nothing is called on BaseApp afterwards (a sealed BaseApp
  panics on setters).\<close>

theorem base_app_configured_before_load:
  assumes "built L loadLatest opts bo w"
  shows "\<exists>ms. methods_on (BaseApp w) (trace w) = ms
    \<and> distinct ms
    \<and> {''MountKVStores'', ''MountObjectStores'', ''MountTransientStores'', ''SetInitChainer'',
        ''SetPreBlocker'', ''SetBeginBlocker'', ''SetEndBlocker'', ''SetAnteHandler'', ''SetPostHandler''}
       \<subseteq> set ms
    \<and> (''SetMempool'' \<in> set ms \<longleftrightarrow> mempool_on L)
    \<and> (mempool_on L \<longrightarrow> precedes ms ''SetAnteHandler'' ''SetCheckTxHandler'' \<and>
          precedes ms ''SetAnteHandler'' ''SetMempool'')
    \<and> (''LoadLatestVersion'' \<in> set ms \<longleftrightarrow> loadLatest)
    \<and> (loadLatest \<longrightarrow> last ms = ''LoadLatestVersion'')"
proof -
  note facts = built_facts [OF assms]
  have "methods_on (BaseApp w) (trace w) = core_setters @ tail_setters L loadLatest"
    using final_factsD(1,9) [OF facts] by (simp add: base_fields_def)
  then show ?thesis
    by (simp add: core_setters_def tail_setters_def)
qed

theorem base_app_configured_before_load_witness:
  "\<exists>w. built sample_sdk True sample_opts [] w
     \<and> last (methods_on (BaseApp w) (trace w)) = ''LoadLatestVersion''"
proof -
  obtain w where w: "built sample_sdk True sample_opts [] w" using sample_built by blast
  from base_app_configured_before_load [OF this] w show ?thesis by auto
qed

lemma callees_distinct: "distinct (core_callees @ tail_callees L)"
  by (simp add: core_callees_def tail_callees_def)

text \<open>C37: The EVM mempool exists exactly when the chain has an EVM chain config and the configured
  Cosmos pool size is not negative.  Then one pool is made, over the application's EVM and fee
  market keepers, its transaction config and the ante handler of BaseApp, and this object is
  everywhere: in the field that \<open>GetMempool\<close> and \<open>Close\<close> read, in BaseApp, in the check-tx handler
  and in the proposal handler that BaseApp prepares proposals with.  Otherwise the field stays
  nil and nothing of this is called, so BaseApp keeps its defaults.  No constructor is called
  twice, so the name of its constructor tells an object from all others.\<close>

theorem mempool_configured_iff_enabled:
  assumes "built L loadLatest opts bo w"
  shows "distinct (callees (trace w))
    \<and> (if GetChainConfig_nil L \<or> GetCosmosPoolMaxTx L < 0
       then EVMMempool w = Zero ''EVMMempool'' \<and> mempool_calls w (trace w) = replicate 5 []
       else \<exists>pool handler config.
            pool = Obj ''evmmempool.NewExperimentalEVMMempool''
          \<and> calls_to ''evmmempool.NewExperimentalEVMMempool'' (trace w) =
              [[Bound ''CreateQueryContext'', Local ''logger'', EVMKeeper w, FeeMarketKeeper w, app_txConfig w,
                Lib ''evmmempool.EVMMempoolConfig'' (sel ''AnteHandler'' (BaseApp w) # config),
                Local ''cosmosPoolMaxTx'']]
          \<and> EVMMempool w = pool
          \<and> args_on (BaseApp w) ''SetMempool'' (trace w) = [[pool]]
          \<and> args_on (BaseApp w) ''SetCheckTxHandler'' (trace w) = [[Lib ''evmmempool.NewCheckTxHandler'' [pool]]]
          \<and> handler = Obj ''baseapp.NewDefaultProposalHandler''
          \<and> calls_to ''baseapp.NewDefaultProposalHandler'' (trace w) = [[pool, AppSelf]]
          \<and> args_on (BaseApp w) ''SetPrepareProposal'' (trace w) = [[sel ''PrepareProposalHandler'' handler]])"
proof -
  have "callees (trace w) = core_callees @ tail_callees L" "mempool_facts L w (trace w)"
    "EVMMempool w = final_mempool L"
    using built_facts [OF assms] by (simp_all add: final_facts_def)
  then show ?thesis
    using callees_distinct [of L]
    by (cases "mempool_on L")
      (auto simp: mempool_facts_def mempool_calls_def mempool_setup_def final_mempool_def mempool_on_def)
qed

theorem mempool_configured_iff_enabled_witness:
  "\<exists>w pool. built sample_sdk True sample_opts [] w \<and> EVMMempool w = pool
     \<and> args_on (BaseApp w) ''SetMempool'' (trace w) = [[pool]]
     \<and> args_on (BaseApp w) ''SetCheckTxHandler'' (trace w) = [[Lib ''evmmempool.NewCheckTxHandler'' [pool]]]"
proof -
  obtain w where w: "built sample_sdk True sample_opts [] w" using sample_built by blast
  from mempool_configured_iff_enabled [OF this] w show ?thesis by auto
qed

text \<open>C27: The ante handler works on the application's own keepers, with the gas limit from the
  options and the application's pending-transaction hook; and the account that fees go to is
  the POA module account, not the fee collector, for Ethereum transactions (the recipient the
  EVM pipeline reads) as for Cosmos transactions (the one fee decorator of that pipeline, on
  the application's account and bank keepers).  That account is registered without permissions
  and is blocked for ordinary transfers.\<close>

theorem fees_go_to_the_poa_account:
  assumes "built L loadLatest opts bo w"
    and inj: "inj_on (cv L) (fst ` set maccPerms_entries)"
    and order: "iter_order (maccPerms (cv L)) macc_order"
  shows "\<exists>options acc. ante_options w = Some options
    \<and> ho_AccountKeeper options = AccountKeeper w \<and> ho_BankKeeper options = BankKeeper w
    \<and> ho_EvmKeeper options = EVMKeeper w \<and> ho_IBCKeeper options = IBCKeeper w
    \<and> ho_FeeMarketKeeper options = FeeMarketKeeper w
    \<and> ho_MaxTxGasWanted options = opt_uint64 opts ''srvflags.EVMMaxTxGasWanted''
    \<and> ho_PendingTxListener options = Bound ''onPendingTx''
    \<and> acc = cv L (ModuleName Poa) \<and> acc \<noteq> cv L FeeCollectorName
    \<and> FeeRecipientModule w = Str acc
    \<and> {(ak, bk, a) | ak bk fk c a.
         DeductFeeDecorator ak bk fk c a \<in> set (cosmos_decorators (cv L) options p :: ('e, 'f) decorator list)} =
       {(AccountKeeper w, BankKeeper w, acc)}
    \<and> maccPerms (cv L) acc = Some [] \<and> blockedAddresses module_address macc_order (module_address acc) = Some True"
proof -
  note facts = built_facts [OF assms(1)]
  have perms: "maccPerms (cv L) (cv L (ModuleName Poa)) = Some []"
    using maccPerms_lookup [OF inj, of "ModuleName Poa" "[]"] by (simp add: maccPerms_entries_def)
  have other: "cv L (ModuleName Poa) \<noteq> cv L FeeCollectorName"
    using inj_on_eq_iff [OF inj, of "ModuleName Poa" FeeCollectorName] by (simp add: maccPerms_entries_def)
  have "blockedAddresses module_address macc_order (module_address (cv L (ModuleName Poa))) = Some True"
    using order perms by (auto simp: blockedAddresses_def block_all_lookup iter_order_def)
  with facts perms other show ?thesis
    by (simp add: final_facts_def ante_setup_def cosmos_decorators_def Let_def)
qed

theorem fees_go_to_the_poa_account_witness:
  "\<exists>w. built sample_sdk True sample_opts [] w
     \<and> FeeRecipientModule w = Str ''Mp'' \<and> maccPerms sample_cv ''Mp'' = Some []"
proof -
  obtain w where w: "built sample_sdk True sample_opts [] w" using sample_built by blast
  have inj: "inj_on (cv sample_sdk) (fst ` set maccPerms_entries)" by (simp add: sample_cv_inj_on)
  have order: "iter_order (maccPerms (cv sample_sdk)) (map (sample_cv \<circ> fst) maccPerms_entries)"
    by (simp add: iter_order_def maccPerms_dom) (simp add: maccPerms_entries_def)
  from fees_go_to_the_poa_account [OF w inj order, where module_address = id and p = "()"]
  have "FeeRecipientModule w = Str (cv sample_sdk (ModuleName Poa))"
    "maccPerms (cv sample_sdk) (cv sample_sdk (ModuleName Poa)) = Some []" by blast+
  with w show ?thesis by auto
qed

end
