(* ===== verification/Announce.thy ===== *)
theory Announce
  imports WiringSpec
begin

text \<open>
  The built application and its pending-transaction listeners together: the handler that
  \<open>setAnteHandler\<close> installs (theory Wiring), its pipelines and the registry (theory Ante).
\<close>

section \<open>Listeners as effects of a decorator\<close>

text \<open>
  A context is paired with the state \<open>'s\<close> that listeners change.  \<open>TxListenerDecorator\<close> announces a
  transaction that is checked for the first time to the function it was made with, here the
  method value \<open>app.onPendingTx\<close>; \<open>hashes_of\<close> gives the hashes it announces, none on other
  occasions.  No other decorator calls listeners.
\<close>

definition listeners_called ::
  "('c \<times> 's, 'm, 'e, 'f) gate \<Rightarrow> ('h, 's) listener_app \<Rightarrow> ('c \<Rightarrow> 'm sdk_tx \<Rightarrow> bool \<Rightarrow> 'h list) \<Rightarrow> bool" where
  "listeners_called g app hashes_of \<longleftrightarrow>
     (\<forall>c s tx sim. g (TxListenerDecorator (Bound ''onPendingTx'')) (c, s) tx sim =
        Inr (c, fold (onPendingTx app) (hashes_of c tx sim) s))
   \<and> (\<forall>d c s tx sim. (\<nexists>l. d = TxListenerDecorator l) \<longrightarrow>
        (case g d (c, s) tx sim of Inl (x, e) \<Rightarrow> snd x = s | Inr x \<Rightarrow> snd x = s))"

lemma quiet_chain:
  assumes "listeners_called g app hashes_of" and "\<And>l. TxListenerDecorator l \<notin> set ds"
  shows "snd (fst (run_chain (gates_of g) ds (c, s) tx sim)) = s"
  using assms(2)
proof (induction ds arbitrary: c)
  case Nil
  show ?case by simp
next
  case (Cons d ds)
  have quiet: "case g d (c, s) tx sim of Inl (x, e) \<Rightarrow> snd x = s | Inr x \<Rightarrow> snd x = s"
    using assms(1) Cons.prems unfolding listeners_called_def by (metis list.set_intros(1))
  show ?case
  proof (cases "g d (c, s) tx sim")
    case (Inl r)
    with quiet show ?thesis by (auto simp: gates_of_def split: prod.splits)
  next
    case (Inr x)
    with quiet obtain c' where "x = (c', s)" by (cases x) simp
    with Inr Cons show ?thesis by (simp add: gates_of_def)
  qed
qed

lemma listener_step:
  "listeners_called g app hashes_of \<Longrightarrow>
     g (TxListenerDecorator (Bound ''onPendingTx'')) (c, s) tx sim =
       Inr (c, fold (onPendingTx app) (hashes_of c tx sim) s)"
  by (simp add: listeners_called_def)

lemma evm_chain:
  assumes "listeners_called g app hashes_of" and "\<nexists>l. d = TxListenerDecorator l"
  shows "(\<exists>c' e. g d (c, s) tx sim = Inl ((c', s), e) \<and>
        run_chain (gates_of g) [d, TxListenerDecorator (Bound ''onPendingTx'')] (c, s) tx sim = ((c', s), Some e))
    \<or> (\<exists>c'. g d (c, s) tx sim = Inr (c', s) \<and>
        run_chain (gates_of g) [d, TxListenerDecorator (Bound ''onPendingTx'')] (c, s) tx sim =
          ((c', fold (onPendingTx app) (hashes_of c' tx sim) s), None))"
proof -
  have quiet: "case g d (c, s) tx sim of Inl (x, e) \<Rightarrow> snd x = s | Inr x \<Rightarrow> snd x = s"
    using assms unfolding listeners_called_def by metis
  show ?thesis
  proof (cases "g d (c, s) tx sim")
    case (Inl r)
    with quiet obtain c' e where "r = ((c', s), e)" by (cases r) auto
    with Inl show ?thesis by (auto simp: gates_of_def)
  next
    case (Inr x)
    with quiet obtain c' where "x = (c', s)" by (cases x) simp
    with Inr show ?thesis by (auto simp: gates_of_def listener_step [OF assms(1)])
  qed
qed

section \<open>Property\<close>

text \<open>C11: In the built application a transaction is announced to the pending-transaction listeners
  only when it is an Ethereum one and the EVM checks, on the application's keepers, accepted
  it; then every listener, those registered after the construction included, hears each of its
  hashes once and in the order of registration, and the handler accepts.  A Cosmos transaction is never
  announced, accepted or not; one that is of neither kind leaves everything as it was.\<close>

theorem accepted_ethereum_txs_are_announced:
  assumes "built L loadLatest opts bo w"
    and "chains_with AL (gates_of g)"
    and "listeners_called g (fold RegisterPendingTxListener ls app) hashes_of"
  shows "\<exists>options. ante_options w = Some options
    \<and> (let mono = EVMMonoDecorator (AccountKeeper w) (FeeMarketKeeper w) (EVMKeeper w)
               (opt_uint64 opts ''srvflags.EVMMaxTxGasWanted'')
               (Evm_GetParams AL (EVMKeeper w) (ctx, s)) (FeeMarket_GetParams AL (FeeMarketKeeper w) (ctx, s));
           handler = NewPOAEVMAnteHandler (cv L) AL options
       in case route_of (cv L) tx of
            EvmRoute \<Rightarrow>
              (\<exists>c e. g mono (ctx, s) tx sim = Inl ((c, s), e) \<and> handler (ctx, s) tx sim = ((c, s), Some e))
            \<or> (\<exists>c. g mono (ctx, s) tx sim = Inr (c, s) \<and> handler (ctx, s) tx sim =
                ((c, fold (\<lambda>h. fold (\<lambda>l. l h) (pendingTxListeners app @ ls)) (hashes_of c tx sim) s), None))
          | CosmosRoute \<Rightarrow> snd (fst (handler (ctx, s) tx sim)) = s
          | RejectRoute \<Rightarrow> \<exists>e. handler (ctx, s) tx sim = ((ctx, s), Some e))"
proof -
  let ?options = "ante_setup L opts w"
  have options: "ante_options w = Some ?options"
    using built_facts [OF assms(1)] by (simp add: final_facts_def)
  have notify: "onPendingTx (fold RegisterPendingTxListener ls app) =
      (\<lambda>h. fold (\<lambda>l. l h) (pendingTxListeners app @ ls))"
    using pending.notify_fold_register [of ls app] by (simp add: fun_eq_iff onPendingTx_def notify_all_fold)
  show ?thesis
  proof (cases "route_of (cv L) tx")
    case EvmRoute
    with evm_chain [OF assms(3), of "EVMMonoDecorator (AccountKeeper w) (FeeMarketKeeper w) (EVMKeeper w)
        (opt_uint64 opts ''srvflags.EVMMaxTxGasWanted'') (Evm_GetParams AL (EVMKeeper w) (ctx, s))
        (FeeMarket_GetParams AL (FeeMarketKeeper w) (ctx, s))" ctx s tx sim] assms(2)
    show ?thesis
      by (simp add: options handler_by_route newEVMAnteHandler_def chains_with_def ante_setup_def Let_def notify
          del: run_chain.simps)
  next
    case CosmosRoute
    have "TxListenerDecorator l \<notin> set (cosmos_decorators (cv L) ?options p)" for l p
      using cosmos_not_evm_only [of "TxListenerDecorator l"] by (auto simp: evm_only_def)
    note quiet = quiet_chain [OF assms(3) this]
    show ?thesis
      using CosmosRoute assms(2)
      by (simp add: options handler_by_route newPOACosmosAnteHandler_def chains_with_def Let_def quiet)
  next
    case RejectRoute
    with NewPOAEVMAnteHandler_reject [of "cv L" tx AL ?options "(ctx, s)" sim] show ?thesis
      by (auto simp: options Let_def)
  qed
qed

section \<open>Witness\<close>

text \<open>
  A world where every gate opens, the transaction is its own hash, and listeners write what
  they hear to a log.
\<close>

definition listener :: "string \<Rightarrow> nat \<Rightarrow> (string \<times> nat) list \<Rightarrow> (string \<times> nat) list" where
  "listener name h log = log @ [(name, h)]"

fun tx_hashes :: "nat \<Rightarrow> nat sdk_tx \<Rightarrow> bool \<Rightarrow> nat list" where
  "tx_hashes c (SdkTx u m) sim = (if sim then [] else [m])"
| "tx_hashes c NilTx sim = []"

definition open_gate ::
  "(nat, (string \<times> nat) list) listener_app \<Rightarrow> (nat \<times> (string \<times> nat) list, nat, unit, unit) gate" where
  "open_gate app d x tx sim =
     Inr (if \<exists>l. d = TxListenerDecorator l
          then (fst x, fold (onPendingTx app) (tx_hashes (fst x) tx sim) (snd x)) else x)"

lemma open_gate_calls: "listeners_called (open_gate app) app tx_hashes"
  by (simp add: listeners_called_def open_gate_def)

lemma open_gate_mono: "open_gate app (EVMMonoDecorator a b c d e f) x tx sim = Inr x"
  by (simp add: open_gate_def)

definition open_ante_lib ::
  "(nat, (string \<times> nat) list) listener_app \<Rightarrow> (nat \<times> (string \<times> nat) list, nat, unit, unit) ante_lib" where
  "open_ante_lib app =
     \<lparr>Evm_GetParams = \<lambda>_ _. (), FeeMarket_GetParams = \<lambda>_ _. (),
      ChainAnteDecorators = run_chain (gates_of (open_gate app))\<rparr>"

lemma open_chains_with: "chains_with (open_ante_lib app) (gates_of (open_gate app))"
  by (simp add: chains_with_def open_ante_lib_def)

theorem accepted_ethereum_txs_are_announced_witness:
  "\<exists>w options. built sample_sdk True sample_opts [] w \<and> ante_options w = Some options
   \<and> NewPOAEVMAnteHandler sample_cv
       (open_ante_lib (fold RegisterPendingTxListener [listener ''mempool''] \<lparr>pendingTxListeners = [listener ''rpc'']\<rparr>))
       options (0, []) (SdkTx (Some [extensionOptionsEthereumTx sample_cv]) 7) False
     = ((0, [(''rpc'', 7), (''mempool'', 7)]), None)"
proof -
  obtain w where w: "built sample_sdk True sample_opts [] w" using sample_built by blast
  let ?tx = "SdkTx (Some [extensionOptionsEthereumTx sample_cv]) 7 :: nat sdk_tx"
  have route: "route_of (cv sample_sdk) ?tx = EvmRoute" by (simp add: route_of_def)
  from accepted_ethereum_txs_are_announced
      [OF w open_chains_with open_gate_calls,
        where ls = "[listener ''mempool'']" and app = "\<lparr>pendingTxListeners = [listener ''rpc'']\<rparr>" and ctx = 0 and s = "[]" and tx = ?tx and sim = False] route
  obtain options where "ante_options w = Some options"
    "NewPOAEVMAnteHandler sample_cv
       (open_ante_lib (fold RegisterPendingTxListener [listener ''mempool''] \<lparr>pendingTxListeners = [listener ''rpc'']\<rparr>))
       options (0, []) ?tx False = ((0, [(''rpc'', 7), (''mempool'', 7)]), None)"
    by (auto simp: open_gate_mono Let_def listener_def)
  with w show ?thesis by blast
qed

end
