(* ===== verification/Services.thy ===== *)
theory Services
  imports WiringSpec
begin

text \<open>
  The services that the server registers on a constructed application (\<open>app/app.go\<close>): the
  API gateway, the transaction, CometBFT and node services, and the accessors that read the
  embedded \<open>BaseApp\<close>.  A registration is a library call recorded in the trace; reading a method
  through the embedded pointer fails where the pointer is nil.
\<close>

section \<open>Accessors of the embedded \<open>BaseApp\<close>\<close>

definition Name :: "wiring \<Rightarrow> stop + val" where
  "Name app = through (BaseApp app) (sel ''Name'' (BaseApp app))"

definition GetAnteHandler :: "wiring \<Rightarrow> stop + val" where
  "GetAnteHandler app = through (BaseApp app) (sel ''AnteHandler'' (BaseApp app))"

abbreviation GRPCQueryRouter :: "wiring \<Rightarrow> stop + val" where
  "GRPCQueryRouter app \<equiv> through (BaseApp app) (sel ''GRPCQueryRouter'' (BaseApp app))"

section \<open>Registration\<close>

text \<open>
  The server's fields that registration reads.  \<open>swagger_err\<close> is the outcome of
  \<open>sdkserver.RegisterSwaggerAPI\<close> for the value of \<open>apiConfig.Swagger\<close>.
\<close>

record api_server =
  ClientCtx :: val
  GRPCGatewayRouter :: val
  api_Router :: val

definition RegisterAPIRoutes ::
  "(bool \<Rightarrow> go_error option) \<Rightarrow> api_server \<Rightarrow> bool \<Rightarrow> wiring \<Rightarrow> wiring \<times> (stop + unit)" where
  "RegisterAPIRoutes swagger_err apiSvr swagger app =
     (let clientCtx = ClientCtx apiSvr; router = GRPCGatewayRouter apiSvr;
          app = emit (Call ''authtx.RegisterGRPCGatewayRoutes'' [clientCtx, router]) app;
          app = emit (Call ''cmtservice.RegisterGRPCGatewayRoutes'' [clientCtx, router]) app;
          app = emit (Call ''node.RegisterGRPCGatewayRoutes'' [clientCtx, router]) app;
          app = emit (Method (BasicModuleManager app) ''RegisterGRPCGatewayRoutes'' [clientCtx, router]) app;
          app = emit (Call ''sdkserver.RegisterSwaggerAPI'' [clientCtx, api_Router apiSvr, BoolV swagger]) app
      in case swagger_err swagger of
           Some err \<Rightarrow> (app, Inl (PanicErr err))
         | None \<Rightarrow> (app, Inr ()))"

definition RegisterTxService :: "val \<Rightarrow> wiring_step" where
  "RegisterTxService clientCtx app =
     (case GRPCQueryRouter app of
        Inl s \<Rightarrow> Inl s
      | Inr router \<Rightarrow>
          Inr (emit (Call ''authtx.RegisterTxService''
            [router, clientCtx, Bound ''Simulate'', interfaceRegistry app]) app))"

definition RegisterTendermintService :: "val \<Rightarrow> wiring_step" where
  "RegisterTendermintService clientCtx app =
     (case GRPCQueryRouter app of
        Inl s \<Rightarrow> Inl s
      | Inr router \<Rightarrow>
          Inr (emit (Call ''cmtservice.RegisterTendermintService''
            [clientCtx, router, interfaceRegistry app, Bound ''Query'']) app))"

text \<open>The closure that \<open>RegisterNodeService\<close> passes on.\<close>

definition earliestVersion :: "wiring \<Rightarrow> stop + val" where
  "earliestVersion app =
     through (BaseApp app) (sel ''EarliestVersion'' (sel ''CommitMultiStore'' (BaseApp app)))"

definition RegisterNodeService :: "val \<Rightarrow> val \<Rightarrow> wiring_step" where
  "RegisterNodeService clientCtx cfg app =
     (case GRPCQueryRouter app of
        Inl s \<Rightarrow> Inl s
      | Inr router \<Rightarrow>
          Inr (emit (Call ''node.RegisterNodeService''
            [clientCtx, router, cfg, Bound ''earliestVersion'']) app))"

section \<open>Properties\<close>

text \<open>The registrations in the order in which the server makes them.\<close>

definition register_services :: "val \<Rightarrow> val \<Rightarrow> wiring_step list" where
  "register_services clientCtx cfg =
     [RegisterTxService clientCtx, RegisterTendermintService clientCtx, RegisterNodeService clientCtx cfg]"

lemma built_base:
  assumes "built L ll opts bo w"
  shows "BaseApp w = Obj ''baseapp.NewBaseApp''" "clean (interfaceRegistry w)"
    "BasicModuleManager w = Obj ''module.NewBasicManagerFromManager''" "list_all event_clean (trace w)"
  using built_facts [OF assms] by (simp_all add: final_facts_def base_fields_def plain_def)

lemma trace_emit: "trace (emit e w) = trace w @ [e]"
  by (simp add: trace_def emit_def)

text \<open>C35: Services are registered on the application that \<open>NewApp\<close> built: on such an application the
  transaction, CometBFT and node services register in turn without a nil dereference, all on
  the query router of the one \<open>BaseApp\<close> and with the application's interface registry, no call
  is handed a field that was never assigned, no field of the application changes, and what the
  node service reads later exists.\<close>

theorem services_use_the_built_application:
  assumes "built L ll opts bo w" and "clean clientCtx" and "clean cfg"
  shows "\<exists>w' es. run_steps (register_services clientCtx cfg) w = Inr w'
    \<and> trace w' = trace w @ es \<and> list_all event_clean (trace w') \<and> length es = 3
    \<and> (\<forall>e \<in> set es. sel ''GRPCQueryRouter'' (BaseApp w) \<in> set (event_vals e))
    \<and> (\<forall>e \<in> set (take 2 es). interfaceRegistry w \<in> set (event_vals e))
    \<and> w' = w\<lparr>calls := calls w'\<rparr> \<and> (\<exists>v. earliestVersion w' = Inr v)"
proof -
  note base = built_base [OF assms(1)]
  let ?r = "sel ''GRPCQueryRouter'' (BaseApp w)"
  let ?es = "[Call ''authtx.RegisterTxService'' [?r, clientCtx, Bound ''Simulate'', interfaceRegistry w],
    Call ''cmtservice.RegisterTendermintService'' [clientCtx, ?r, interfaceRegistry w, Bound ''Query''],
    Call ''node.RegisterNodeService'' [clientCtx, ?r, cfg, Bound ''earliestVersion'']]"
  have "run_steps (register_services clientCtx cfg) w = Inr (w\<lparr>calls := rev ?es @ calls w\<rparr>)"
    by (simp add: register_services_def RegisterTxService_def RegisterTendermintService_def
        RegisterNodeService_def base(1) emit_def cong: val_congs)
  moreover have "trace (w\<lparr>calls := rev ?es @ calls w\<rparr>) = trace w @ ?es"
    by (simp add: trace_def)
  moreover have "list_all event_clean (trace w @ ?es)"
    using base assms(2,3) by simp
  ultimately show ?thesis
    using base(1)
    by (intro exI [of _ "w\<lparr>calls := rev ?es @ calls w\<rparr>"] exI [of _ ?es])
      (simp add: earliestVersion_def)
qed

text \<open>The API server's routes: \<open>RegisterAPIRoutes\<close> registers the gateway routes of the transaction,
  CometBFT and node services and of every module on the server's gateway router, with the
  server's client context, before it registers the Swagger UI, and panics exactly when that
  fails; the routes are registered then too.\<close>

theorem RegisterAPIRoutes_order:
  assumes "built L ll opts bo w"
  shows "\<exists>es. trace (fst (RegisterAPIRoutes swagger_err srv swagger w)) = trace w @ es @
      [Call ''sdkserver.RegisterSwaggerAPI'' [ClientCtx srv, api_Router srv, BoolV swagger]]
    \<and> length es = 4
    \<and> (\<forall>e \<in> set es. \<exists>pre. event_vals e = pre @ [ClientCtx srv, GRPCGatewayRouter srv])
    \<and> Method (Obj ''module.NewBasicManagerFromManager'') ''RegisterGRPCGatewayRoutes'' [ClientCtx srv, GRPCGatewayRouter srv] \<in> set es
    \<and> snd (RegisterAPIRoutes swagger_err srv swagger w) =
        (case swagger_err swagger of Some err \<Rightarrow> Inl (PanicErr err) | None \<Rightarrow> Inr ())"
proof -
  let ?a = "[ClientCtx srv, GRPCGatewayRouter srv]"
  let ?es = "[Call ''authtx.RegisterGRPCGatewayRoutes'' ?a, Call ''cmtservice.RegisterGRPCGatewayRoutes'' ?a,
    Call ''node.RegisterGRPCGatewayRoutes'' ?a,
    Method (Obj ''module.NewBasicManagerFromManager'') ''RegisterGRPCGatewayRoutes'' ?a]"
  have "BasicModuleManager (emit e w) = BasicModuleManager w" for e w by (simp add: emit_def)
  then show ?thesis
    using built_base(3) [OF assms]
    by (intro exI [of _ ?es]) (simp add: RegisterAPIRoutes_def Let_def trace_emit split: option.split cong: val_congs)
qed

theorem services_use_the_built_application_witness:
  "\<exists>w w'. built sample_sdk True sample_opts [] w \<and> run_steps (register_services (Obj ''ctx'') (Obj ''cfg'')) w = Inr w'"
proof -
  obtain w where w: "built sample_sdk True sample_opts [] w" using sample_built by blast
  have "clean (Obj ''ctx'')" "clean (Obj ''cfg'')" by simp_all
  from services_use_the_built_application [OF w this] w show ?thesis by blast
qed

theorem RegisterAPIRoutes_order_witness:
  "\<exists>w. built sample_sdk True sample_opts [] w
     \<and> snd (RegisterAPIRoutes (\<lambda>_. None) \<lparr>ClientCtx = Obj ''ctx'', GRPCGatewayRouter = Obj ''gw'', api_Router = Obj ''router''\<rparr> False w) = Inr ()"
proof -
  obtain w where w: "built sample_sdk True sample_opts [] w" using sample_built by blast
  from RegisterAPIRoutes_order [OF w, of "\<lambda>_. None"
      "\<lparr>ClientCtx = Obj ''ctx'', GRPCGatewayRouter = Obj ''gw'', api_Router = Obj ''router''\<rparr>" False] w
  show ?thesis by auto
qed

end
