(* ===== verification/Lifecycle.thy ===== *)
theory Lifecycle
  imports Services
begin

text \<open>
  The constructed application at work: the ABCI hooks, the accessors, closing, the AutoCLI
  options, state export (\<open>app/export.go\<close>) and the two creators that the server is given,
  \<open>newApp\<close> and \<open>appExport\<close> of \<open>app/app.go\<close>.
\<close>

section \<open>ABCI hooks\<close>

text \<open>
  What the hooks call: decoding of the genesis bytes, the upgrade keeper's version map and the
  module manager, over an opaque context \<open>'c\<close>.
\<close>

record ('c, 'g, 'v, 'r, 'pre, 'beg, 'fin) abci_lib =
  Unmarshal :: "bytes \<Rightarrow> go_error + 'g"
  GetVersionMap :: 'v
  SetModuleVersionMap :: "'c \<Rightarrow> 'v \<Rightarrow> 'c \<times> go_error option"
  mm_InitGenesis :: "'c \<Rightarrow> 'g \<Rightarrow> 'c \<times> (go_error + 'r)"
  mm_PreBlock :: "'c \<Rightarrow> 'c \<times> (go_error + 'pre)"
  mm_BeginBlock :: "'c \<Rightarrow> 'c \<times> (go_error + 'beg)"
  mm_EndBlock :: "'c \<Rightarrow> 'c \<times> (go_error + 'fin)"

definition InitChainer ::
  "('c, 'g, 'v, 'r, 'pre, 'beg, 'fin) abci_lib \<Rightarrow> 'c \<Rightarrow> bytes \<Rightarrow> 'c \<times> (stop + (go_error + 'r))" where
  "InitChainer A ctx appStateBytes =
     (case Unmarshal A appStateBytes of
        Inl err \<Rightarrow> (ctx, Inl (PanicErr err))
      | Inr genesisState \<Rightarrow>
          (case SetModuleVersionMap A ctx (GetVersionMap A) of
             (ctx, Some err) \<Rightarrow> (ctx, Inl (PanicErr err))
           | (ctx, None) \<Rightarrow>
               (case mm_InitGenesis A ctx genesisState of (ctx, res) \<Rightarrow> (ctx, Inr res))))"

definition PreBlocker ::
  "('c, 'g, 'v, 'r, 'pre, 'beg, 'fin) abci_lib \<Rightarrow> 'c \<Rightarrow> 'c \<times> (go_error + 'pre)" where
  "PreBlocker A ctx = mm_PreBlock A ctx"

definition BeginBlocker ::
  "('c, 'g, 'v, 'r, 'pre, 'beg, 'fin) abci_lib \<Rightarrow> 'c \<Rightarrow> 'c \<times> (go_error + 'beg)" where
  "BeginBlocker A ctx = mm_BeginBlock A ctx"

definition EndBlocker ::
  "('c, 'g, 'v, 'r, 'pre, 'beg, 'fin) abci_lib \<Rightarrow> 'c \<Rightarrow> 'c \<times> (go_error + 'fin)" where
  "EndBlocker A ctx = mm_EndBlock A ctx"

section \<open>Accessors\<close>

definition Configurator :: "wiring \<Rightarrow> val" where "Configurator app = configurator app"
definition LegacyAmino :: "wiring \<Rightarrow> val" where "LegacyAmino app = legacyAmino app"
definition AppCodec :: "wiring \<Rightarrow> val" where "AppCodec app = appCodec app"
definition InterfaceRegistry :: "wiring \<Rightarrow> val" where "InterfaceRegistry app = interfaceRegistry app"
definition TxConfig :: "wiring \<Rightarrow> val" where "TxConfig app = app_txConfig app"
definition GetKey :: "wiring \<Rightarrow> string \<Rightarrow> val" where "GetKey app s = key_at (app_keys app) s"
definition GetMempool :: "wiring \<Rightarrow> val" where "GetMempool app = EVMMempool app"

section \<open>Closing\<close>

text \<open>
  The dynamic value of the interface field \<open>EVMMempool\<close>: nil, a (possibly nil) pointer to the
  experimental EVM mempool, or another implementation.  Closing runs over a state \<open>'s\<close>.
\<close>

datatype 'm ext_mempool = NilMempool | ExperimentalEVMMempool "'m option" | OtherMempool

record ('m, 's) close_lib =
  mempool_Close :: "'m \<Rightarrow> 's \<Rightarrow> 's \<times> go_error option"
  BaseApp_Close :: "'s \<Rightarrow> 's \<times> go_error option"

definition Close :: "('m, 's) close_lib \<Rightarrow> 'm ext_mempool \<Rightarrow> 's \<Rightarrow> 's \<times> go_error option" where
  "Close C evmMempool s =
     (let (s, err) =
            (case evmMempool of ExperimentalEVMMempool (Some m) \<Rightarrow> mempool_Close C m s | _ \<Rightarrow> (s, None));
          (s, baseErr) = BaseApp_Close C s
      in (s, errors_join [err, baseErr]))"

section \<open>AutoCLI options\<close>

text \<open>
  A module of the manager, as the type assertions see it: whether it has a name, and whether it
  is an \<open>appmodule.AppModule\<close>.
\<close>

record 'm manager_module =
  module_HasName :: "string option"
  module_AppModule :: "'m option"

fun collect_modules :: "'m manager_module list \<Rightarrow> (string \<rightharpoonup> 'm) \<Rightarrow> (string \<rightharpoonup> 'm)" where
  "collect_modules [] modules = modules"
| "collect_modules (m # ms) modules =
     (case module_HasName m of
        None \<Rightarrow> collect_modules ms modules
      | Some mn \<Rightarrow>
          (case module_AppModule m of
             None \<Rightarrow> collect_modules ms modules
           | Some am \<Rightarrow> collect_modules ms (modules(mn \<mapsto> am))))"

record 'm autocli_options =
  ao_Modules :: "string \<rightharpoonup> 'm"
  ao_ModuleOptions :: val
  ao_AddressCodec :: val
  ao_ValidatorAddressCodec :: val
  ao_ConsensusAddressCodec :: val

text \<open>\<open>visited\<close> is the modules in the order in which the loop visits the manager's map.\<close>

definition AutoCliOpts :: "wiring \<Rightarrow> 'm manager_module list \<Rightarrow> 'm autocli_options" where
  "AutoCliOpts app visited =
     \<lparr>ao_Modules = collect_modules visited Map.empty,
      ao_ModuleOptions =
        Lib ''runtimeservices.ExtractAutoCLIOptions'' [sel ''Modules'' (ModuleManager app)],
      ao_AddressCodec = evmCodec accPrefix,
      ao_ValidatorAddressCodec = evmCodec (Lib ''sdk.GetConfig().GetBech32ValidatorAddrPrefix'' []),
      ao_ConsensusAddressCodec = evmCodec (Lib ''sdk.GetConfig().GetBech32ConsensusAddrPrefix'' [])\<rparr>"

section \<open>Creating the application for the server\<close>

text \<open>\<open>chainIDFromOpts\<close>: \<open>AppGenesisFromFile\<close> gives the chain id of a genesis file, or an error.\<close>

definition genesis_file :: "string \<Rightarrow> string \<times> string \<times> string" where
  "genesis_file home = (home, ''config'', ''genesis.json'')"

definition chainIDFromOpts ::
  "(string \<times> string \<times> string \<Rightarrow> go_error + string) \<Rightarrow> app_opts \<Rightarrow> string" where
  "chainIDFromOpts AppGenesisFromFile opts =
     (let chainID = opt_string opts ''flags.FlagChainID'' in
      if chainID = '''' then
        (let home = opt_string opts ''flags.FlagHome'' in
         if home \<noteq> '''' then
           (case AppGenesisFromFile (genesis_file home) of
              Inl err \<Rightarrow> chainID
            | Inr genesisChainID \<Rightarrow> genesisChainID)
         else chainID)
      else chainID)"

definition newApp ::
  "sdk \<Rightarrow> (string \<times> string \<times> string \<Rightarrow> go_error + string) \<Rightarrow> app_opts \<Rightarrow> stop + wiring" where
  "newApp L AppGenesisFromFile opts =
     NewApp L True opts
       [Lib ''baseapp.SetChainID'' [Str (chainIDFromOpts AppGenesisFromFile opts)]]"

section \<open>State export\<close>

text \<open>
  What exporting calls.  The functions that read BaseApp take the calls made so far, which
  determine its state; \<open>LastBlockHeight\<close> is the height it has after them.
\<close>

record ('gen, 'p) export_lib =
  LoadVersion_err :: "int64 \<Rightarrow> go_error option"
  LastBlockHeight :: "event list \<Rightarrow> int64"
  ExportGenesisForModules :: "event list \<Rightarrow> int64 \<Rightarrow> string list \<Rightarrow> go_error + 'gen"
  MarshalIndent :: "'gen \<Rightarrow> go_error + bytes"
  GetConsensusParams :: "event list \<Rightarrow> int64 \<Rightarrow> 'p"

record 'p exported_app =
  AppState :: bytes
  Height :: int64
  ConsensusParams :: "'p option"

definition zero_exported :: "'p exported_app" where
  "zero_exported = \<lparr>AppState = [], Height = 0, ConsensusParams = None\<rparr>"

definition ExportAppStateAndValidators ::
  "('gen, 'p) export_lib \<Rightarrow> wiring \<Rightarrow> bool \<Rightarrow> string list \<Rightarrow> string list
     \<Rightarrow> 'p exported_app \<times> go_error option" where
  "ExportAppStateAndValidators E app forZeroHeight jailAllowedAddrs modulesToExport =
     (let last = LastBlockHeight E (trace app);
          height = last + 1;
          height = (if forZeroHeight then 0 else height)
      in case ExportGenesisForModules E (trace app) last modulesToExport of
           Inl err \<Rightarrow> (zero_exported, Some err)
         | Inr genState \<Rightarrow>
             (case MarshalIndent E genState of
                Inl err \<Rightarrow> (zero_exported, Some err)
              | Inr appState \<Rightarrow>
                  (\<lparr>AppState = appState, Height = height,
                    ConsensusParams = Some (GetConsensusParams E (trace app) last)\<rparr>, None)))"

definition LoadHeight :: "('gen, 'p) export_lib \<Rightarrow> int64 \<Rightarrow> wiring \<Rightarrow> wiring \<times> go_error option" where
  "LoadHeight E h app =
     (emit (Method (BaseApp app) ''LoadVersion'' [U64 h]) app, LoadVersion_err E h)"

text \<open>
  The dynamic type of the options, and \<open>Set(FlagInvCheckPeriod, 1)\<close> as the cast functions read
  it back.
\<close>

datatype server_opts = ViperOpts app_opts | OtherOpts app_opts

definition set_inv_check_period :: "app_opts \<Rightarrow> app_opts" where
  "set_inv_check_period opts =
     opts\<lparr>opt_uint64 := (opt_uint64 opts)(''sdkserver.FlagInvCheckPeriod'' := 1),
          opt_string := (opt_string opts)(''sdkserver.FlagInvCheckPeriod'' := ''1''),
          opt_ints := (opt_ints opts)(''sdkserver.FlagInvCheckPeriod'' := [])\<rparr>"

definition appExport ::
  "sdk \<Rightarrow> ('gen, 'p) export_lib \<Rightarrow> int64 \<Rightarrow> bool \<Rightarrow> string list \<Rightarrow> server_opts \<Rightarrow> string list
     \<Rightarrow> stop + ('p exported_app \<times> go_error option)" where
  "appExport L E height forZeroHeight jailAllowedAddrs appOpts modulesToExport =
     (case appOpts of
        OtherOpts _ \<Rightarrow> Inr (zero_exported, Some (ErrNew ''appOpts is not viper.Viper''))
      | ViperOpts viperAppOpts \<Rightarrow>
      let opts = set_inv_check_period viperAppOpts in
      if height \<noteq> - 1 then
        (case NewApp L False opts [] of
           Inl s \<Rightarrow> Inl s
         | Inr a \<Rightarrow>
             (case LoadHeight E height a of
                (a, Some err) \<Rightarrow> Inr (zero_exported, Some err)
              | (a, None) \<Rightarrow>
                  Inr (ExportAppStateAndValidators E a forZeroHeight jailAllowedAddrs modulesToExport)))
      else
        (case NewApp L True opts [] of
           Inl s \<Rightarrow> Inl s
         | Inr a \<Rightarrow>
             Inr (ExportAppStateAndValidators E a forZeroHeight jailAllowedAddrs modulesToExport)))"

section \<open>Lemmas\<close>

text \<open>The entries that the AutoCLI loop stores.\<close>

definition module_entry :: "'m manager_module \<Rightarrow> (string \<times> 'm) option" where
  "module_entry m =
     (case (module_HasName m, module_AppModule m) of (Some n, Some am) \<Rightarrow> Some (n, am) | _ \<Rightarrow> None)"

lemma collect_modules_entries:
  "collect_modules ms modules = modules ++ map_of (rev (List.map_filter module_entry ms))"
proof (induction ms arbitrary: modules)
  case Nil
  show ?case by (simp add: List.map_filter_simps)
next
  case (Cons m ms)
  then show ?case
    by (auto simp: module_entry_def List.map_filter_simps map_add_def fun_eq_iff split: option.splits)
qed

lemma mset_map_filter:
  "mset (List.map_filter f xs) = image_mset (the \<circ> f) (filter_mset (\<lambda>x. f x \<noteq> None) (mset xs))"
  by (simp add: List.map_filter_def mset_filter)

lemma map_of_mset_eq:
  assumes "mset xs = mset ys" and "distinct (map fst xs)"
  shows "map_of xs = map_of ys"
proof -
  have "mset (map fst xs) = mset (map fst ys)" using assms(1) by (metis mset_map)
  then have "distinct (map fst ys)" using assms(2) by (metis mset_eq_imp_distinct_iff)
  moreover have "set xs = set ys" using assms(1) by (metis set_mset_mset)
  ultimately show ?thesis using assms(2) map_of_inject_set by blast
qed

declare trace_emit [simp]

definition load_law :: "('gen, 'p) export_lib \<Rightarrow> bool" where
  "load_law E \<longleftrightarrow> (\<forall>t b h. LastBlockHeight E (t @ [Method b ''LoadVersion'' [U64 h]]) = h)"

lemma export_error_empty:
  "ExportAppStateAndValidators E app z jail mods = (x, Some err) \<Longrightarrow> x = zero_exported"
  by (auto simp: ExportAppStateAndValidators_def Let_def split: sum.splits)

lemma export_ok:
  assumes "ExportAppStateAndValidators E app z jail mods = (x, None)"
  shows "Height x = (if z then 0 else LastBlockHeight E (trace app) + 1)"
    and "\<exists>g. ExportGenesisForModules E (trace app) (LastBlockHeight E (trace app)) mods = Inr g
           \<and> MarshalIndent E g = Inr (AppState x)"
  using assms by (auto simp: ExportAppStateAndValidators_def Let_def split: sum.splits)

text \<open>An export library for the witnesses: BaseApp is at the version loaded last.\<close>

fun height_after :: "event list \<Rightarrow> int64" where
  "height_after [] = 0"
| "height_after (Method b m [U64 h] # es) = (if m = ''LoadVersion'' then h else height_after es)"
| "height_after (e # es) = height_after es"

definition sample_export_lib :: "(string list, nat) export_lib" where
  "sample_export_lib =
     \<lparr>LoadVersion_err = (\<lambda>_. None), LastBlockHeight = (\<lambda>t. height_after (rev t)),
      ExportGenesisForModules = (\<lambda>t h mods. Inr mods), MarshalIndent = (\<lambda>g. Inr (map (\<lambda>_. 1) g)),
      GetConsensusParams = (\<lambda>t h. 0)\<rparr>"

lemma sample_load_law: "load_law sample_export_lib"
  by (simp add: load_law_def sample_export_lib_def)

lemma sample_returns: "\<exists>w. NewApp sample_sdk ll opts bo = Inr w"
  unfolding NewApp_returns_iff
  by (simp add: sample_sdk_def core_failures_def load_failures_def)

lemma sample_law: "key_maps_law sample_sdk"
  by (simp add: key_maps_law_def sample_sdk_def)

section \<open>Properties\<close>

text \<open>C28: Exporting at a height exports that height: when a height other than -1 is asked for, the
  application is built without loading the latest version, the asked version is loaded, the
  module states are read at that height, and the exported genesis starts at the next height,
  or at 0 for a fresh chain; the jail list has no influence on the result.\<close>

theorem appExport_exports_requested_height:
  assumes "key_maps_law L" and "load_law E" and "height \<noteq> - 1"
    and "appExport L E height forZeroHeight jail (ViperOpts opts) mods = Inr (x, None)"
  shows "Height x = (if forZeroHeight then 0 else height + 1)
    \<and> (\<exists>a g. NewApp L False (set_inv_check_period opts) [] = Inr a
        \<and> ''LoadLatestVersion'' \<notin> set (methods_on (BaseApp a) (trace a))
        \<and> ExportGenesisForModules E (trace a @ [Method (BaseApp a) ''LoadVersion'' [U64 height]]) height mods = Inr g
        \<and> MarshalIndent E g = Inr (AppState x))
    \<and> appExport L E height forZeroHeight jail' (ViperOpts opts) mods = Inr (x, None)"
proof -
  obtain a where a: "NewApp L False (set_inv_check_period opts) [] = Inr a"
    using assms(3,4) by (auto simp: appExport_def Let_def split: sum.splits)
  let ?a = "emit (Method (BaseApp a) ''LoadVersion'' [U64 height]) a"
  have run: "ExportAppStateAndValidators E ?a forZeroHeight j mods = (x, None)" for j
    using assms(3,4) a
    by (auto simp: appExport_def Let_def LoadHeight_def ExportAppStateAndValidators_def
        split: option.splits sum.splits)
  have err: "LoadVersion_err E height = None"
    using assms(3,4) a by (auto simp: appExport_def Let_def LoadHeight_def split: option.splits)
  have height: "LastBlockHeight E (trace ?a) = height"
    using assms(2) by (simp add: load_law_def)
  have "built L False (set_inv_check_period opts) [] a"
    by (rule builtI) (simp_all add: assms(1) a)
  then have "''LoadLatestVersion'' \<notin> set (methods_on (BaseApp a) (trace a))"
    using final_factsD(1,9) [OF built_facts]
    by (force simp: base_fields_def core_setters_def tail_setters_def)
  moreover have "appExport L E height forZeroHeight jail' (ViperOpts opts) mods = Inr (x, None)"
    using a assms(3) run [of jail'] err by (simp add: appExport_def Let_def LoadHeight_def)
  ultimately show ?thesis
    using export_ok [OF run] a height by auto
qed

theorem appExport_exports_requested_height_witness:
  "\<exists>x. appExport sample_sdk sample_export_lib 41 False [''jailed''] (ViperOpts sample_opts) [''bank''] = Inr (x, None)
     \<and> Height x = 42"
proof -
  obtain a where a: "NewApp sample_sdk False (set_inv_check_period sample_opts) [] = Inr a"
    using sample_returns by blast
  then obtain x where x: "appExport sample_sdk sample_export_lib 41 False [''jailed'']
      (ViperOpts sample_opts) [''bank''] = Inr (x, None)"
    by (simp add: appExport_def Let_def LoadHeight_def sample_export_lib_def
        ExportAppStateAndValidators_def)
  have "(41 :: int64) \<noteq> - 1" by simp
  from appExport_exports_requested_height [OF sample_law sample_load_law this x] x show ?thesis
    by auto
qed

text \<open>A failing export leaves nothing behind in its result: whenever \<open>appExport\<close> returns an error
  (options of another type, a version that does not load, a module that does not export, a
  marshalling failure) the exported application is the zero value; and with options that are
  not viper's it always returns that error, without building an application.\<close>

theorem appExport_error_is_empty:
  "(appExport L E height z jail opts mods = Inr (x, Some err) \<longrightarrow> x = zero_exported)
   \<and> appExport L E height z jail (OtherOpts other) mods =
       Inr (zero_exported, Some (ErrNew ''appOpts is not viper.Viper''))"
  by (auto simp: appExport_def Let_def dest!: export_error_empty split: server_opts.splits if_splits
      sum.splits prod.splits option.splits)

theorem appExport_error_is_empty_witness:
  "appExport sample_sdk (sample_export_lib\<lparr>LoadVersion_err := \<lambda>_. Some (ErrLib ''pruned'')\<rparr>) 41 False []
     (ViperOpts sample_opts) [] = Inr (zero_exported, Some (ErrLib ''pruned''))"
proof -
  obtain a where a: "NewApp sample_sdk False (set_inv_check_period sample_opts) [] = Inr a"
    using sample_returns by blast
  then obtain x where x: "appExport sample_sdk (sample_export_lib\<lparr>LoadVersion_err := \<lambda>_. Some (ErrLib ''pruned'')\<rparr>)
      41 False [] (ViperOpts sample_opts) [] = Inr (x, Some (ErrLib ''pruned''))"
    by (simp add: appExport_def Let_def LoadHeight_def)
  with appExport_error_is_empty [THEN conjunct1, THEN mp, OF x] show ?thesis by simp
qed

text \<open>The server's application is created with its chain id: the id of the command line when it
  is given, else the id in the genesis file of the home directory when there is one, else the
  empty string; it reaches BaseApp as an option of its construction, before optimistic
  execution is set, and the latest state is loaded.\<close>

theorem newApp_passes_chain_id:
  assumes "key_maps_law L" and "newApp L genesis opts = Inr w"
  shows "\<exists>args id. hd (trace w) = Call ''baseapp.NewBaseApp'' args
    \<and> drop 4 args = [Lib ''baseapp.SetChainID'' [Str id], Lib ''baseapp.SetOptimisticExecution'' []]
    \<and> (opt_string opts ''flags.FlagChainID'' \<noteq> [] \<longrightarrow> id = opt_string opts ''flags.FlagChainID'')
    \<and> (\<forall>file_id. opt_string opts ''flags.FlagChainID'' = [] \<longrightarrow> opt_string opts ''flags.FlagHome'' \<noteq> []
         \<longrightarrow> genesis (opt_string opts ''flags.FlagHome'', ''config'', ''genesis.json'') = Inr file_id \<longrightarrow> id = file_id)
    \<and> last (methods_on (BaseApp w) (trace w)) = ''LoadLatestVersion''"
proof -
  let ?id = "chainIDFromOpts genesis opts"
  have built: "built L True opts [Lib ''baseapp.SetChainID'' [Str ?id]] w"
    using assms by (intro builtI) (simp_all add: newApp_def plain_def)
  have "last (methods_on (BaseApp w) (trace w)) = ''LoadLatestVersion''"
    using final_factsD(1,9) [OF built_facts [OF built]]
    by (simp add: base_fields_def tail_setters_def)
  moreover have "hd (trace w) = new_base_app opts [Lib ''baseapp.SetChainID'' [Str ?id]]"
    using built_facts [OF built] by (simp add: final_facts_def)
  ultimately show ?thesis
    by (intro exI [of _ "[Str appName, Local ''logger'', Local ''db'',
         sel ''TxDecoder'' (sel ''TxConfig''
           (Lib ''evmencoding.MakeConfig'' [U64 (opt_uint64 opts ''srvflags.EVMChainID'')]))]
        @ [Lib ''baseapp.SetChainID'' [Str ?id], Lib ''baseapp.SetOptimisticExecution'' []]"] exI [of _ ?id])
      (auto simp: new_base_app_def chainIDFromOpts_def genesis_file_def Let_def)
qed

theorem newApp_passes_chain_id_witness:
  "\<exists>w args. newApp sample_sdk (\<lambda>_. Inr ''sandbox-1'') (sample_opts\<lparr>opt_string :=
      (\<lambda>k. if k = ''flags.FlagHome'' then ''home'' else [])\<rparr>) = Inr w
    \<and> hd (trace w) = Call ''baseapp.NewBaseApp'' args
    \<and> Lib ''baseapp.SetChainID'' [Str ''sandbox-1''] \<in> set (drop 4 args)"
proof -
  let ?opts = "sample_opts\<lparr>opt_string := (\<lambda>k. if k = ''flags.FlagHome'' then ''home'' else [])\<rparr>"
  obtain w where w: "newApp sample_sdk (\<lambda>_. Inr ''sandbox-1'') ?opts = Inr w"
    unfolding newApp_def using sample_returns by blast
  from newApp_passes_chain_id [OF sample_law w] w show ?thesis by force
qed

text \<open>Closing the application always closes BaseApp, also when closing the mempool fails, and
  closes the mempool whenever one was configured; it reports an error exactly when one of the
  two failed, and then every error that occurred.\<close>

theorem Close_closes_both:
  assumes "Close C em s = (s', res)"
  shows "\<exists>s1 e1 e2. (case em of ExperimentalEVMMempool (Some m) \<Rightarrow> (s1, e1) = mempool_Close C m s
            | _ \<Rightarrow> s1 = s \<and> e1 = None)
    \<and> BaseApp_Close C s1 = (s', e2)
    \<and> (res = None \<longleftrightarrow> e1 = None \<and> e2 = None)
    \<and> (\<forall>e es. res = Some (ErrJoin es) \<longrightarrow> (e \<in> set es \<longleftrightarrow> e1 = Some e \<or> e2 = Some e))"
  using assms
  by (auto simp: Close_def Let_def errors_join_def List.map_filter_def
      split: prod.splits ext_mempool.splits option.splits if_splits)

theorem Close_closes_both_witness:
  "Close \<lparr>mempool_Close = (\<lambda>m s. (''mempool'' # s, Some (ErrLib m))),
          BaseApp_Close = (\<lambda>s. (''base'' # s, None))\<rparr> (ExperimentalEVMMempool (Some ''busy'')) []
     = ([''base'', ''mempool''], Some (ErrJoin [ErrLib ''busy'']))"
proof -
  let ?C = "\<lparr>mempool_Close = (\<lambda>m s. (''mempool'' # s, Some (ErrLib m))),
          BaseApp_Close = (\<lambda>s. (''base'' # s, None))\<rparr>"
  have run: "Close ?C (ExperimentalEVMMempool (Some ''busy'')) [] =
      ([''base'', ''mempool''], Some (ErrJoin [ErrLib ''busy'']))"
    by (simp add: Close_def errors_join_def List.map_filter_def)
  from Close_closes_both [OF run] run show ?thesis by simp
qed

text \<open>The AutoCLI options do not depend on the order in which Go iterates over the module
  manager's map: any two orders of the same modules give the same options, as the modules that
  count have different names; and a module is offered exactly if it has a name and is an
  \<open>appmodule.AppModule\<close>.\<close>

theorem AutoCliOpts_order_independent:
  assumes "mset ms = mset ms'" and "distinct (map fst (List.map_filter module_entry ms))"
  shows "AutoCliOpts app ms = AutoCliOpts app ms'
    \<and> (ao_Modules (AutoCliOpts app ms) n = Some am
        \<longleftrightarrow> (\<exists>m \<in> set ms. module_HasName m = Some n \<and> module_AppModule m = Some am))"
proof -
  let ?es = "List.map_filter module_entry ms" and ?es' = "List.map_filter module_entry ms'"
  have perm: "mset (rev ?es) = mset (rev ?es')"
    using assms(1) by (simp add: mset_map_filter)
  have dist: "distinct (map fst (rev ?es))" using assms(2) by (simp add: rev_map [symmetric])
  have "map_of (rev ?es) = map_of (rev ?es')" by (rule map_of_mset_eq [OF perm dist])
  moreover have "map_of (rev ?es) n = Some am \<longleftrightarrow> (n, am) \<in> set ?es"
    using map_of_eq_Some_iff [OF dist] by simp
  moreover have "(n, am) \<in> set ?es \<longleftrightarrow>
      (\<exists>m \<in> set ms. module_HasName m = Some n \<and> module_AppModule m = Some am)"
    by (force simp: List.map_filter_def module_entry_def split: option.splits)
  ultimately show ?thesis
    by (simp add: AutoCliOpts_def collect_modules_entries)
qed

theorem AutoCliOpts_order_independent_witness:
  "ao_Modules (AutoCliOpts package_state
     [\<lparr>module_HasName = Some ''bank'', module_AppModule = Some (1 :: nat)\<rparr>,
      \<lparr>module_HasName = None, module_AppModule = Some 2\<rparr>,
      \<lparr>module_HasName = Some ''auth'', module_AppModule = Some 3\<rparr>]) ''auth'' = Some 3"
proof -
  let ?ms = "[\<lparr>module_HasName = Some ''bank'', module_AppModule = Some (1 :: nat)\<rparr>,
      \<lparr>module_HasName = None, module_AppModule = Some 2\<rparr>,
      \<lparr>module_HasName = Some ''auth'', module_AppModule = Some 3\<rparr>]"
  have "mset ?ms = mset (rev ?ms)" by (rule mset_rev [symmetric])
  moreover have "distinct (map fst (List.map_filter module_entry ?ms))"
    by (simp add: List.map_filter_simps module_entry_def)
  ultimately have "ao_Modules (AutoCliOpts package_state ?ms) ''auth'' = Some 3
      \<longleftrightarrow> (\<exists>m \<in> set ?ms. module_HasName m = Some ''auth'' \<and> module_AppModule m = Some 3)"
    by (rule AutoCliOpts_order_independent [THEN conjunct2])
  then show ?thesis by simp
qed

text \<open>A chain is initialised only from a genesis that decodes, and only after the versions of its
  modules were recorded for later upgrades: if \<open>InitChainer\<close> returns, the module manager ran on
  the context in which the version map had been stored; a genesis that does not decode panics
  with the context untouched, and a version map that cannot be stored panics before any module
  is initialised.\<close>

theorem InitChainer_records_versions_first:
  assumes "InitChainer A ctx bytes = (ctx', out)"
  shows "(\<forall>res. out = Inr res \<longrightarrow>
       (\<exists>g ctx1. Unmarshal A bytes = Inr g \<and> SetModuleVersionMap A ctx (GetVersionMap A) = (ctx1, None)
          \<and> mm_InitGenesis A ctx1 g = (ctx', res)))
    \<and> (\<forall>e. Unmarshal A bytes = Inl e \<longrightarrow> out = Inl (PanicErr e) \<and> ctx' = ctx)
    \<and> (\<forall>g e. Unmarshal A bytes = Inr g \<longrightarrow> snd (SetModuleVersionMap A ctx (GetVersionMap A)) = Some e
         \<longrightarrow> out = Inl (PanicErr e) \<and> ctx' = fst (SetModuleVersionMap A ctx (GetVersionMap A)))"
proof (cases "Unmarshal A bytes")
  case (Inl e)
  with assms show ?thesis by (auto simp: InitChainer_def)
next
  case (Inr g)
  obtain ctx1 e where stored: "SetModuleVersionMap A ctx (GetVersionMap A) = (ctx1, e)"
    by (metis surj_pair)
  obtain ctx2 res where init: "mm_InitGenesis A ctx1 g = (ctx2, res)" by (metis surj_pair)
  from assms Inr stored init show ?thesis by (cases e) (auto simp: InitChainer_def)
qed

theorem InitChainer_records_versions_first_witness:
  "let A = \<lparr>Unmarshal = (\<lambda>b. if b = [] then Inl (ErrLib ''eof'') else Inr b), GetVersionMap = ''v1'',
            SetModuleVersionMap = (\<lambda>c v. (c @ [v], None)), mm_InitGenesis = (\<lambda>c g. (c @ [''init''], Inr g)),
            mm_PreBlock = (\<lambda>c. (c, Inr ())), mm_BeginBlock = (\<lambda>c. (c, Inr ())),
            mm_EndBlock = (\<lambda>c. (c, Inr ()))\<rparr>
   in InitChainer A [] [] = ([], Inl (PanicErr (ErrLib ''eof'')))
      \<and> InitChainer A [] [7] = ([''v1'', ''init''], Inr (Inr [7]))"
proof -
  let ?A = "\<lparr>Unmarshal = (\<lambda>b. if b = [] then Inl (ErrLib ''eof'') else Inr b), GetVersionMap = ''v1'',
            SetModuleVersionMap = (\<lambda>c v. (c @ [v], None)), mm_InitGenesis = (\<lambda>c g. (c @ [''init''], Inr g)),
            mm_PreBlock = (\<lambda>c. (c, Inr ())), mm_BeginBlock = (\<lambda>c. (c, Inr ())),
            mm_EndBlock = (\<lambda>c. (c, Inr ()))\<rparr>"
  have run: "InitChainer ?A [] [] = ([], Inl (PanicErr (ErrLib ''eof'')))"
    "InitChainer ?A [] [7] = ([''v1'', ''init''], Inr (Inr [7]))"
    by (simp_all add: InitChainer_def)
  from InitChainer_records_versions_first [OF run(1)] run show ?thesis by simp
qed

text \<open>\<open>GetKey\<close> gives out the very keys the keepers own: for a store name of the application it
  returns the key that was handed to a keeper at construction, and for every other name, the
  transient and object stores included, it returns nil.\<close>

theorem GetKey_returns_keeper_keys:
  assumes "built L loadLatest opts bo w"
  shows "(n \<in> set (kv_store_names L) \<longrightarrow>
            GetKey w n = SKey (KVStoreKey n) \<and> KVStoreKey n \<in> set (concat (map event_keys (trace w))))
       \<and> (n \<notin> set (kv_store_names L) \<longrightarrow> GetKey w n = NilKey)"
proof -
  have law: "key_maps_law L" using assms by (simp add: built_def)
  note facts = built_facts [OF assms]
  have "app_keys w = (\<lambda>k. if k \<in> set (kv_store_names L) then Some (KVStoreKey k) else None)"
    using final_factsD(1) [OF facts] by (simp add: base_fields_def key_maps_lawD [OF law])
  moreover have "concat (map event_keys (trace w)) = keys_handed_out L"
    using final_factsD(8) [OF facts] by (simp add: trace_facts_def)
  moreover have "n \<in> set (kv_store_names L) \<longrightarrow> KVStoreKey n \<in> set (keys_handed_out L)"
    by (auto simp: kv_store_names_set keys_handed_out_def)
  ultimately show ?thesis by (simp add: GetKey_def key_at_def)
qed

theorem GetKey_returns_keeper_keys_witness:
  "\<exists>w. built sample_sdk True sample_opts [] w
     \<and> GetKey w ''Sb'' = SKey (KVStoreKey ''Sb'') \<and> GetKey w ''Tp'' = NilKey"
proof -
  obtain w where w: "built sample_sdk True sample_opts [] w" using sample_built by blast
  have "GetKey w ''Sb'' = SKey (KVStoreKey ''Sb'')" "GetKey w ''Tp'' = NilKey"
    using GetKey_returns_keeper_keys [OF w, of "''Sb''"] GetKey_returns_keeper_keys [OF w, of "''Tp''"]
    by (simp_all add: kv_store_names_def)
  with w show ?thesis by blast
qed

end
