(* ===== verification/Commands.thy ===== *)
theory Commands
  imports Lifecycle
begin

text \<open>
  The command line: the SDK configuration that \<open>main\<close> and the tests set up
  (\<open>cmd/sandboxd/main.go\<close>, \<open>testutil/address_prefix.go\<close>) and the command tree of
  \<open>app/app.go\<close> with its pre-run hook.
\<close>

section \<open>The SDK configuration\<close>

text \<open>
  \<open>sdk.Config\<close> is a global of type \<open>'k\<close> that the library's setters change; a setter panics on a
  sealed configuration.
\<close>

record 'k config_lib =
  SetBech32Prefixes :: "'k \<Rightarrow> stop + 'k"
  SetCoinType :: "val \<Rightarrow> 'k \<Rightarrow> stop + 'k"
  SetPurpose :: "val \<Rightarrow> 'k \<Rightarrow> stop + 'k"
  SetFullFundraiserPath :: "val \<Rightarrow> 'k \<Rightarrow> stop + 'k"
  Seal :: "'k \<Rightarrow> stop + 'k"

definition setupSDKConfig :: "'k config_lib \<Rightarrow> 'k \<Rightarrow> stop + 'k" where
  "setupSDKConfig C cfg =
     run_steps
       [SetBech32Prefixes C, SetCoinType C (Lib ''hd.Bip44CoinType'' []), SetPurpose C (Lib ''sdk.Purpose'' []),
        SetFullFundraiserPath C (Lib ''hd.BIP44HDPath'' []), Seal C] cfg"

text \<open>\<open>once.Do\<close>: the first component says whether the function has run; it counts as run even when
  it panicked.\<close>

definition once_do :: "('s \<Rightarrow> stop + 's) \<Rightarrow> bool \<times> 's \<Rightarrow> (bool \<times> 's) \<times> stop option" where
  "once_do f st =
     (if fst st then (st, None)
      else (case f (snd st) of Inl s \<Rightarrow> ((True, snd st), Some s) | Inr s' \<Rightarrow> ((True, s'), None)))"

definition SafeSetAddressPrefixes ::
  "'k config_lib \<Rightarrow> bool \<times> 'k \<Rightarrow> (bool \<times> 'k) \<times> stop option" where
  "SafeSetAddressPrefixes C =
     once_do (run_steps
       [SetBech32Prefixes C, SetCoinType C (Lib ''hd.Bip44CoinType'' []), SetPurpose C (Lib ''sdk.Purpose'' []),
        SetFullFundraiserPath C (Lib ''hd.BIP44HDPath'' []), Seal C])"

section \<open>Commands\<close>

text \<open>
  A cobra command built by the repository, with its use line, aliases, short help, flag-parsing
  and suggestion settings, run and pre-run functions, subcommands and persistent string flags
  (name, default, usage); or one that a library makes.
\<close>

datatype command =
    Command (cmd_Use: string) (cmd_Aliases: "string list") (cmd_Short: string)
      (cmd_DisableFlagParsing: bool) (cmd_SuggestionsMinimumDistance: int) (cmd_RunE: val)
      (cmd_PersistentPreRunE: val) (cmd_Subcommands: "command list")
      (cmd_Flags: "(string \<times> string \<times> string) list")
  | LibCommand string "val list"

fun AddCommand :: "command list \<Rightarrow> command \<Rightarrow> command" where
  "AddCommand cs (Command u a s d n r p subs fs) = Command u a s d n r p (subs @ cs) fs"
| "AddCommand cs c = c"

fun PersistentFlag :: "string \<times> string \<times> string \<Rightarrow> command \<Rightarrow> command" where
  "PersistentFlag f (Command u a s d n r p subs fs) = Command u a s d n r p subs (fs @ [f])"
| "PersistentFlag f c = c"

definition queryCommand :: command where
  "queryCommand =
     (let cmd = Command ''query'' [''q''] ''Querying subcommands'' False 2 (Lib ''client.ValidateCmd'' []) Nil [] [];
          cmd = AddCommand
            [LibCommand ''rpc.QueryEventForTxCmd'' [], LibCommand ''rpc.ValidatorCommand'' [],
             LibCommand ''authcmd.QueryTxsByEventsCmd'' [], LibCommand ''authcmd.QueryTxCmd'' [],
             LibCommand ''sdkserver.QueryBlockCmd'' [], LibCommand ''sdkserver.QueryBlockResultsCmd'' []] cmd;
          cmd = PersistentFlag (''flags.FlagChainID'', [], ''The network chain ID'') cmd
      in cmd)"

definition txCommand :: command where
  "txCommand =
     (let cmd = Command ''tx'' [] ''Transactions subcommands'' False 2 (Lib ''client.ValidateCmd'' []) Nil [] [];
          cmd = AddCommand
            [LibCommand ''authcmd.GetSignCommand'' [], LibCommand ''authcmd.GetSignBatchCommand'' [],
             LibCommand ''authcmd.GetMultiSignCommand'' [], LibCommand ''authcmd.GetMultiSignBatchCmd'' [],
             LibCommand ''authcmd.GetValidateSignaturesCommand'' [],
             LibCommand ''authcmd.GetBroadcastCommand'' [], LibCommand ''authcmd.GetEncodeCommand'' [],
             LibCommand ''authcmd.GetDecodeCommand'' [], LibCommand ''authcmd.GetSimulateCmd'' []] cmd;
          cmd = PersistentFlag (''flags.FlagChainID'', [], ''The network chain ID'') cmd
      in cmd)"

text \<open>
  The client context that commands start from: the settings made on the empty \<open>client.Context\<close>, in
  the order of the \<open>With\<close> calls.
\<close>

definition client_settings :: "wiring \<Rightarrow> string \<Rightarrow> (string \<times> val) list" where
  "client_settings tempApp defaultNodeHome =
     [(''WithCodec'', AppCodec tempApp),
      (''WithInterfaceRegistry'', InterfaceRegistry tempApp),
      (''WithTxConfig'', TxConfig tempApp),
      (''WithLegacyAmino'', LegacyAmino tempApp),
      (''WithInput'', Lib ''os.Stdin'' []),
      (''WithAccountRetriever'', Lib ''authtypes.AccountRetriever'' []),
      (''WithBroadcastMode'', Lib ''flags.FlagBroadcastMode'' []),
      (''WithHomeDir'', Str defaultNodeHome),
      (''WithViper'', Str []),
      (''WithKeyringOptions'', Lib ''hd.EthSecp256k1Option'' []),
      (''WithLedgerHasProtobuf'', BoolV True)]"

text \<open>The application creator that the pruning and snapshot commands are given.\<close>

definition sdkAppCreator :: "sdk \<Rightarrow> app_opts \<Rightarrow> stop + wiring" where
  "sdkAppCreator L ao = NewApp L True ao []"

text \<open>
  What building the root command calls.  \<open>WithSettings\<close> is the context after a list of
  settings.  \<open>cosmosevmserver.AddCommands\<close> adds the server's commands to the root command.
\<close>

record ('ctx, 'm) root_lib =
  server_AddCommands :: "val list \<Rightarrow> command \<Rightarrow> command"
  AddTxFlags :: "command \<Rightarrow> command \<times> go_error option"
  WithSettings :: "(string \<times> val) list \<Rightarrow> 'ctx"
  ReadFromClientConfig :: "'ctx \<Rightarrow> 'ctx \<times> go_error option"
  manager_modules :: "'m manager_module list"
  EnhanceRootCommand :: "'m autocli_options \<Rightarrow> 'ctx \<Rightarrow> command \<Rightarrow> command \<times> go_error option"

definition initRootCmd ::
  "'k config_lib \<Rightarrow> ('ctx, 'm) root_lib \<Rightarrow> command \<Rightarrow> wiring \<Rightarrow> string \<Rightarrow> 'k \<Rightarrow> stop + ('k \<times> command)" where
  "initRootCmd C R rootCmd sandboxApp defaultNodeHome cfg =
     (case Seal C cfg of
        Inl s \<Rightarrow> Inl s
      | Inr cfg \<Rightarrow>
      let basic = BasicModuleManager sandboxApp;
          home = Str defaultNodeHome;
          creator = Local ''sdkAppCreator'';
          rootCmd = AddCommand
            [LibCommand ''genutilcli.InitCmd'' [basic, home],
             LibCommand ''genutilcli.Commands'' [TxConfig sandboxApp, basic, home],
             LibCommand ''cmtcli.NewCompletionCmd'' [Local ''rootCmd'', BoolV True],
             LibCommand ''evmdebug.Cmd'' [], LibCommand ''confixcmd.ConfigCommand'' [],
             LibCommand ''pruning.Cmd'' [creator, home],
             LibCommand ''snapshot.Cmd'' [creator]] rootCmd;
          rootCmd = server_AddCommands R
            [Lib ''cosmosevmserver.NewDefaultStartOptions'' [Bound ''newApp'', home], Bound ''appExport'',
             Local ''func(_ *cobra.Command) {}''] rootCmd;
          rootCmd = AddCommand
            [LibCommand ''cosmosevmcmd.KeyCommands'' [home, BoolV True],
             LibCommand ''sdkserver.StatusCommand'' [], queryCommand, txCommand] rootCmd
      in case AddTxFlags R rootCmd of
           (rootCmd, Some err) \<Rightarrow> Inl (PanicErr err)
         | (rootCmd, None) \<Rightarrow> Inr (cfg, rootCmd))"

definition EmptyAppOptions :: app_opts where
  "EmptyAppOptions = \<lparr>opt_uint64 = (\<lambda>_. 0), opt_string = (\<lambda>_. []), opt_ints = (\<lambda>_. [])\<rparr>"

definition NewRootCmd ::
  "sdk \<Rightarrow> 'k config_lib \<Rightarrow> ('ctx, 'm) root_lib \<Rightarrow> string \<Rightarrow> 'k \<Rightarrow> stop + ('k \<times> command \<times> 'ctx)" where
  "NewRootCmd L C R defaultNodeHome cfg =
     (case NewApp L True EmptyAppOptions [] of
        Inl s \<Rightarrow> Inl s
      | Inr tempApp \<Rightarrow>
      let initClientCtx = WithSettings R (client_settings tempApp defaultNodeHome);
          rootCmd = Command appName [] ''Sandbox POA+EVM chain'' False 0 Nil (Bound ''PersistentPreRunE'') [] []
      in case initRootCmd C R rootCmd tempApp defaultNodeHome cfg of
           Inl s \<Rightarrow> Inl s
         | Inr (cfg, rootCmd) \<Rightarrow>
      let autoCliOpts = AutoCliOpts tempApp (manager_modules R);
          initClientCtx = fst (ReadFromClientConfig R initClientCtx)
      in case EnhanceRootCommand R autoCliOpts initClientCtx rootCmd of
           (rootCmd, Some err) \<Rightarrow> Inl (PanicErr err)
         | (rootCmd, None) \<Rightarrow> Inr (cfg, rootCmd, initClientCtx))"

section \<open>The pre-run hook\<close>

text \<open>
  The hook is a closure over the variable \<open>initClientCtx\<close> of \<open>NewRootCmd\<close>.  Its first assignment
  goes to that variable; every later one to a new variable of the same name inside the hook.
  Both contexts point to the same viper, which \<open>WithViper\<close> made: its state \<open>'v\<close> is passed along and
  what a call stores in it is seen through both.  \<open>new_tx_config\<close> is
  \<open>authtx.NewTxConfigWithOptions\<close> with textual signing.
\<close>

record ('cmd, 'g, 'ctx, 'v) pre_run_lib =
  PrepareOutput :: "'cmd \<Rightarrow> 'cmd"
  cmd_Context :: "'cmd \<Rightarrow> 'g"
  WithCmdContext :: "'ctx \<Rightarrow> 'g \<Rightarrow> 'ctx"
  ReadPersistentCommandFlags :: "'ctx \<Rightarrow> 'cmd \<Rightarrow> 'v \<Rightarrow> 'v \<times> 'ctx \<times> go_error option"
  ReadClientConfig :: "'ctx \<Rightarrow> 'v \<Rightarrow> 'v \<times> 'ctx \<times> go_error option"
  Offline :: "'ctx \<Rightarrow> bool"
  new_tx_config :: "'ctx \<Rightarrow> go_error + val"
  WithTxConfig :: "'ctx \<Rightarrow> val \<Rightarrow> 'ctx"
  SetCmdClientContextHandler :: "'ctx \<Rightarrow> 'cmd \<Rightarrow> 'v \<Rightarrow> 'v \<times> 'cmd \<times> go_error option"
  InterceptConfigsPreRunHandler :: "'cmd \<Rightarrow> val list \<Rightarrow> 'cmd \<times> go_error option"

definition initCometConfig :: val where
  "initCometConfig = Lib ''cmtcfg.DefaultConfig'' []"

text \<open>
  The template and the configuration that \<open>evmconfig.InitAppConfig\<close> returns, and CometBFT's
  configuration.
\<close>

definition custom_configs :: "val list" where
  "custom_configs =
     (let init = Lib ''evmconfig.InitAppConfig''
            [Lib ''evmtypes.DefaultEVMExtendedDenom'' [], Lib ''evmtypes.DefaultEVMChainID'' []]
      in [sel ''template'' init, sel ''config'' init, initCometConfig])"

definition PersistentPreRunE ::
  "('cmd, 'g, 'ctx, 'v) pre_run_lib \<Rightarrow> 'ctx \<Rightarrow> 'v \<Rightarrow> 'cmd \<Rightarrow> ('ctx \<times> 'v \<times> 'cmd) \<times> go_error option" where
  "PersistentPreRunE P outer v cmd =
     (let cmd = PrepareOutput P cmd;
          outer = WithCmdContext P outer (cmd_Context P cmd)
      in case ReadPersistentCommandFlags P outer cmd v of
           (v, ctx, Some err) \<Rightarrow> ((outer, v, cmd), Some err)
         | (v, ctx, None) \<Rightarrow>
      case ReadClientConfig P ctx v of
           (v, ctx, Some err) \<Rightarrow> ((outer, v, cmd), Some err)
         | (v, ctx, None) \<Rightarrow>
      case (if \<not> Offline P ctx
            then (case new_tx_config P ctx of Inl err \<Rightarrow> Inl err | Inr txCfg \<Rightarrow> Inr (WithTxConfig P ctx txCfg))
            else Inr ctx) of
           Inl err \<Rightarrow> ((outer, v, cmd), Some err)
         | Inr ctx \<Rightarrow>
      case SetCmdClientContextHandler P ctx cmd v of
           (v, cmd, Some err) \<Rightarrow> ((outer, v, cmd), Some err)
         | (v, cmd, None) \<Rightarrow>
      case InterceptConfigsPreRunHandler P cmd custom_configs of
           (cmd, err) \<Rightarrow> ((outer, v, cmd), err))"

section \<open>\<open>main\<close>\<close>

definition main ::
  "sdk \<Rightarrow> 'k config_lib \<Rightarrow> ('ctx, 'm) root_lib \<Rightarrow> (string \<Rightarrow> go_error + string)
     \<Rightarrow> (command \<Rightarrow> 'ctx \<Rightarrow> string \<Rightarrow> go_error option) \<Rightarrow> 'k \<Rightarrow> stop + 'k" where
  "main L C R GetNodeHomeDirectory Execute cfg =
     (case setupSDKConfig C cfg of
        Inl s \<Rightarrow> Inl s
      | Inr cfg \<Rightarrow>
      case GetNodeHomeDirectory ''.sandboxd'' of
        Inl err \<Rightarrow> Inl (OsExit 1 [] (Some err))
      | Inr defaultNodeHome \<Rightarrow>
      case NewRootCmd L C R defaultNodeHome cfg of
        Inl s \<Rightarrow> Inl s
      | Inr (cfg, rootCmd, ctx) \<Rightarrow>
      case Execute rootCmd ctx defaultNodeHome of
        Some err \<Rightarrow> Inl (OsExit 1 [] (Some err))
      | None \<Rightarrow> Inr cfg)"

section \<open>Lemmas\<close>

text \<open>
  What the SDK documents of its configuration: setters work while it is not sealed and do not
  seal it; sealing an unsealed configuration works, and a configuration that was sealed is
  sealed.  Whether a sealed one can be sealed again is left open.
\<close>

definition config_law :: "'k config_lib \<Rightarrow> ('k \<Rightarrow> bool) \<Rightarrow> bool" where
  "config_law C sealed \<longleftrightarrow>
     (\<forall>k f. \<not> sealed k \<longrightarrow> f \<in> {SetBech32Prefixes C} \<union> range (SetCoinType C) \<union> range (SetPurpose C)
            \<union> range (SetFullFundraiserPath C)
        \<longrightarrow> (\<exists>k'. f k = Inr k' \<and> \<not> sealed k'))
   \<and> (\<forall>k. \<not> sealed k \<longrightarrow> (\<exists>k'. Seal C k = Inr k' \<and> sealed k'))
   \<and> (\<forall>k k'. Seal C k = Inr k' \<longrightarrow> sealed k')"

lemma setup_seals:
  assumes "config_law C sealed" and "\<not> sealed cfg"
  shows "\<exists>k. setupSDKConfig C cfg = Inr k \<and> sealed k"
proof -
  have set: "\<exists>k'. f k = Inr k' \<and> \<not> sealed k'"
    if "\<not> sealed k" "f = SetBech32Prefixes C \<or> f = SetCoinType C v \<or> f = SetPurpose C v \<or> f = SetFullFundraiserPath C v"
    for k f v
    using assms(1) that unfolding config_law_def by blast
  obtain k1 where 1: "SetBech32Prefixes C cfg = Inr k1" "\<not> sealed k1"
    using set [OF assms(2), of "SetBech32Prefixes C"] by blast
  obtain k2 where 2: "SetCoinType C (Lib ''hd.Bip44CoinType'' []) k1 = Inr k2" "\<not> sealed k2"
    using set [OF 1(2), of "SetCoinType C (Lib ''hd.Bip44CoinType'' [])"] by blast
  obtain k3 where 3: "SetPurpose C (Lib ''sdk.Purpose'' []) k2 = Inr k3" "\<not> sealed k3"
    using set [OF 2(2), of "SetPurpose C (Lib ''sdk.Purpose'' [])"] by blast
  obtain k4 where 4: "SetFullFundraiserPath C (Lib ''hd.BIP44HDPath'' []) k3 = Inr k4" "\<not> sealed k4"
    using set [OF 3(2), of "SetFullFundraiserPath C (Lib ''hd.BIP44HDPath'' [])"] by blast
  obtain k5 where 5: "Seal C k4 = Inr k5" "sealed k5"
    using assms(1) 4(2) unfolding config_law_def by blast
  show ?thesis using 1 2 3 4 5 by (simp add: setupSDKConfig_def)
qed

lemma initRootCmd_outcome:
  assumes "config_law C sealed" and "sealed cfg"
  shows "case initRootCmd C R c a h cfg of
      Inl s \<Rightarrow> Seal C cfg = Inl s \<or> (\<exists>e c1 c2. s = PanicErr e \<and> AddTxFlags R c1 = (c2, Some e))
    | Inr r \<Rightarrow> sealed (fst r)"
proof -
  have "sealed k'" if "Seal C cfg = Inr k'" for k' using assms(1) that unfolding config_law_def by blast
  then show ?thesis
    by (auto simp: initRootCmd_def Let_def split: sum.splits prod.splits option.splits)
qed

section \<open>Properties\<close>

text \<open>C38: Starting the program seals the SDK configuration twice, and whether it gets to a command hangs
  on the second seal.  \<open>main\<close> stops only where a library fails: no home directory, the
  construction of the application, transaction flags, AutoCLI or the executed command, with exit
  status 1 or that failure's panic, and never on the configuration unless \<open>Seal\<close> panics on a
  sealed one; if it returns, the configuration is sealed.  Should \<open>Seal\<close> panic when called
  twice, as a comment of \<open>testutil/address_prefix.go\<close> says, then whenever the home directory is
  found and the application constructed \<open>main\<close> ends with that panic, whatever the command.\<close>

theorem main_stops_only_on_library_failure:
  assumes law: "config_law C sealed" and fresh: "\<not> sealed cfg"
  shows "(case main L C R home execute cfg of
      Inr k \<Rightarrow> sealed k
    | Inl s \<Rightarrow>
        (\<exists>e. home ''.sandboxd'' = Inl e \<and> s = OsExit 1 [] (Some e))
      \<or> first_stop (core_failures L @ load_failures L True) = Some s
      \<or> (\<exists>k. sealed k \<and> Seal C k = Inl s)
      \<or> (\<exists>e c c'. AddTxFlags R c = (c', Some e) \<and> s = PanicErr e)
      \<or> (\<exists>e a x c c'. EnhanceRootCommand R a x c = (c', Some e) \<and> s = PanicErr e)
      \<or> (\<exists>e c x h. execute c x h = Some e \<and> s = OsExit 1 [] (Some e)))
    \<and> ((\<forall>k. sealed k \<longrightarrow> Seal C k = Inl panic) \<and> home ''.sandboxd'' = Inr h
        \<and> first_stop (core_failures L @ load_failures L True) = None
       \<longrightarrow> main L C R home execute cfg = Inl panic)"
    (is "?stops \<and> ?twice")
proof -
  obtain k where k: "setupSDKConfig C cfg = Inr k" "sealed k" using setup_seals [OF assms] by blast
  let ?c = "Command appName [] ''Sandbox POA+EVM chain'' False 0 Nil (Bound ''PersistentPreRunE'') [] []"
  have ?stops
  proof (cases "home ''.sandboxd''")
    case (Inl e)
    then show ?thesis by (simp add: main_def k)
  next
    case home: (Inr h)
    show ?thesis
    proof (cases "NewApp L True EmptyAppOptions []")
      case (Inl s)
      then have "first_stop (core_failures L @ load_failures L True) = Some s"
        by (simp only: NewApp_outcome_iff)
      with Inl show ?thesis by (simp add: main_def k home NewRootCmd_def)
    next
      case app: (Inr a)
      show ?thesis
        using initRootCmd_outcome [OF law k(2), of R ?c a h] k(2)
        by (cases "initRootCmd C R ?c a h k")
          (auto simp: main_def k home NewRootCmd_def app Let_def split: prod.splits option.splits)
    qed
  qed
  moreover have ?twice
    using NewApp_returns_iff [of L True EmptyAppOptions "[]"] k
    by (auto simp: main_def NewRootCmd_def initRootCmd_def Let_def)
  ultimately show ?thesis by (rule conjI)
qed

text \<open>A configuration for the witness: whether it is sealed, and the settings made.\<close>

definition sample_config :: "(bool \<times> string list) config_lib" where
  "sample_config =
     (let put = (\<lambda>n (s, ns). if s then Inl (PanicErr (ErrNew ''Config is sealed'')) else Inr (s, n # ns))
      in \<lparr>SetBech32Prefixes = put ''prefixes'', SetCoinType = (\<lambda>_. put ''coin''),
          SetPurpose = (\<lambda>_. put ''purpose''), SetFullFundraiserPath = (\<lambda>_. put ''path''), Seal = (\<lambda>(s, ns). Inr (True, ns))\<rparr>)"

lemma sample_config_law: "config_law sample_config fst"
  by (auto simp: config_law_def sample_config_def Let_def)

definition sample_root_lib :: "(nat, nat) root_lib" where
  "sample_root_lib =
     \<lparr>server_AddCommands = (\<lambda>_ c. c), AddTxFlags = (\<lambda>c. (c, None)), WithSettings = length,
      ReadFromClientConfig = (\<lambda>x. (x, Some (ErrLib ''no config file''))), manager_modules = [],
      EnhanceRootCommand = (\<lambda>a x c. (c, None))\<rparr>"

text \<open>The same configuration with a \<open>Seal\<close> that panics when called twice.\<close>

definition strict_config :: "(bool \<times> string list) config_lib" where
  "strict_config = sample_config
     \<lparr>Seal := \<lambda>(s, ns). if s then Inl (PanicErr (ErrNew ''Config is sealed'')) else Inr (True, ns)\<rparr>"

lemma strict_config_law: "config_law strict_config fst"
  by (auto simp: config_law_def strict_config_def sample_config_def Let_def split: if_splits)

theorem main_stops_only_on_library_failure_witness:
  "(\<exists>k. main sample_sdk sample_config sample_root_lib (\<lambda>_. Inr ''home'') (\<lambda>_ _ _. None) (False, []) = Inr k
     \<and> fst k)
   \<and> main sample_sdk strict_config sample_root_lib (\<lambda>_. Inr ''home'') (\<lambda>_ _ _. None) (False, []) =
       Inl (PanicErr (ErrNew ''Config is sealed''))"
proof -
  have none: "first_stop (core_failures sample_sdk @ load_failures sample_sdk True) = None"
    by (simp add: sample_sdk_def core_failures_def load_failures_def)
  have fresh: "\<not> fst (False, [] :: string list)" by simp
  have flags: "AddTxFlags sample_root_lib c \<noteq> (c', Some e)"
    "EnhanceRootCommand sample_root_lib a x c \<noteq> (c', Some e)" for a x c c' e
    by (simp_all add: sample_root_lib_def)
  have seal: "Seal sample_config k \<noteq> Inl s" for k s
    by (cases k) (simp add: sample_config_def Let_def)
  have twice: "\<forall>k. fst k \<longrightarrow> Seal strict_config k = Inl (PanicErr (ErrNew ''Config is sealed''))"
    by (auto simp: strict_config_def)
  have "\<exists>k. main sample_sdk sample_config sample_root_lib (\<lambda>_. Inr ''home'') (\<lambda>_ _ _. None) (False, []) = Inr k
     \<and> fst k"
    using main_stops_only_on_library_failure [OF sample_config_law fresh, where L = sample_sdk
        and R = sample_root_lib and home = "\<lambda>_. Inr ''home''" and execute = "\<lambda>_ _ _. None"] none flags seal
    by (cases "main sample_sdk sample_config sample_root_lib (\<lambda>_. Inr ''home'') (\<lambda>_ _ _. None) (False, [])")
      simp_all
  moreover have "main sample_sdk strict_config sample_root_lib (\<lambda>_. Inr ''home'') (\<lambda>_ _ _. None) (False, []) =
       Inl (PanicErr (ErrNew ''Config is sealed''))"
    using main_stops_only_on_library_failure [OF strict_config_law fresh, where L = sample_sdk
        and R = sample_root_lib and home = "\<lambda>_. Inr ''home''" and execute = "\<lambda>_ _ _. None"] none twice
    by blast
  ultimately show ?thesis by (rule conjI)
qed

text \<open>The tests run with the configuration of the program: the first call of
  \<open>SafeSetAddressPrefixes\<close> makes exactly the settings of \<open>setupSDKConfig\<close>, and every later call, by
  any test package of the process, changes nothing and cannot panic.\<close>

theorem SafeSetAddressPrefixes_once:
  "SafeSetAddressPrefixes C (False, cfg) =
     (case setupSDKConfig C cfg of Inl s \<Rightarrow> ((True, cfg), Some s) | Inr k \<Rightarrow> ((True, k), None))
   \<and> SafeSetAddressPrefixes C (fst (SafeSetAddressPrefixes C st)) = (fst (SafeSetAddressPrefixes C st), None)"
  by (auto simp: SafeSetAddressPrefixes_def once_do_def setupSDKConfig_def split: sum.splits)

text \<open>C40: The pre-run hook carries nothing from one command to the next through the client context but
  the command's context: on every path, errors included, the shared context variable changes
  only by that, and what else stays is what the calls stored in the viper it points to; and
  offline commands need no node, as the transaction config that queries coin metadata is not
  built when the settings read from flags and client config say offline.\<close>

theorem PersistentPreRunE_leaks_nothing:
  assumes "PersistentPreRunE P outer v cmd = ((outer', v', cmd'), err)"
  shows "outer' = WithCmdContext P outer (cmd_Context P (PrepareOutput P cmd))
    \<and> ((let (v, ctx, e1) = ReadPersistentCommandFlags P outer' (PrepareOutput P cmd) v;
             (v, ctx, e2) = ReadClientConfig P ctx v
         in e1 = None \<and> e2 = None \<and> Offline P ctx)
       \<longrightarrow> PersistentPreRunE (P\<lparr>new_tx_config := f\<rparr>) outer v cmd = ((outer', v', cmd'), err))"
proof -
  have outer: "outer' = WithCmdContext P outer (cmd_Context P (PrepareOutput P cmd))"
    using assms by (auto simp: PersistentPreRunE_def Let_def split: prod.splits option.splits sum.splits)
  show ?thesis
    using assms unfolding outer
    by (auto simp: PersistentPreRunE_def Let_def split: prod.splits option.splits sum.splits if_splits)
qed

text \<open>A library for the witness: the viper collects the flags read, the client config reads it.\<close>

definition sample_pre_run :: "(string, string, string \<rightharpoonup> string, string list) pre_run_lib" where
  "sample_pre_run =
     \<lparr>PrepareOutput = id, cmd_Context = (\<lambda>c. c), WithCmdContext = (\<lambda>x g. x(''cmd'' \<mapsto> g)),
      ReadPersistentCommandFlags = (\<lambda>x c v. (c # v, x, None)),
      ReadClientConfig = (\<lambda>x v. (v, x(''offline'' \<mapsto> hd v), None)),
      Offline = (\<lambda>x. x ''offline'' = Some ''sign''),
      new_tx_config = (\<lambda>x. Inl (ErrLib ''no node'')), WithTxConfig = (\<lambda>x t. x),
      SetCmdClientContextHandler = (\<lambda>x c v. (v, c, None)),
      InterceptConfigsPreRunHandler = (\<lambda>c vs. (c, None))\<rparr>"

theorem PersistentPreRunE_leaks_nothing_witness:
  "PersistentPreRunE sample_pre_run Map.empty [] ''sign'' = (([''cmd'' \<mapsto> ''sign''], [''sign''], ''sign''), None)
    \<and> PersistentPreRunE (sample_pre_run\<lparr>new_tx_config := \<lambda>_. Inr Nil\<rparr>) Map.empty [] ''sign'' =
        (([''cmd'' \<mapsto> ''sign''], [''sign''], ''sign''), None)"
proof -
  have run: "PersistentPreRunE sample_pre_run Map.empty [] ''sign'' =
      (([''cmd'' \<mapsto> ''sign''], [''sign''], ''sign''), None)"
    by (simp add: PersistentPreRunE_def sample_pre_run_def Let_def)
  from PersistentPreRunE_leaks_nothing [OF run, of "\<lambda>_. Inr Nil"] run show ?thesis
    by (simp add: Let_def) (simp add: sample_pre_run_def)
qed

end
