(* ===== verification/Creators.thy ===== *)
theory Creators
  imports Commands
begin

text \<open>
  The creators of the application (\<open>app/app.go\<close>) compared: \<open>newApp\<close> for the server, \<open>sdkAppCreator\<close>
  for the pruning and snapshot commands, and the two constructions of \<open>appExport\<close>.
\<close>

section \<open>Steps that do not look at the calls made before\<close>

definition after :: "event list \<Rightarrow> wiring \<Rightarrow> wiring" where
  "after es w = w\<lparr>calls := calls w @ rev es\<rparr>"

text \<open>
  \<open>framed f\<close>: earlier calls neither change what the step does nor what it stops with; the step adds
  its own calls to them.
\<close>

definition framed :: "wiring_step \<Rightarrow> bool" where
  "framed f \<longleftrightarrow> (\<forall>es w. f (after es w) = map_sum id (after es) (f w))"

lemma framedI: "(\<And>es w. f (after es w) = map_sum id (after es) (f w)) \<Longrightarrow> framed f"
  by (simp add: framed_def)

lemma after_sel [simp]:
  "BaseApp (after es w) = BaseApp w" "legacyAmino (after es w) = legacyAmino w"
  "appCodec (after es w) = appCodec w" "interfaceRegistry (after es w) = interfaceRegistry w"
  "app_txConfig (after es w) = app_txConfig w" "app_keys (after es w) = app_keys w"
  "app_oKeys (after es w) = app_oKeys w" "AccountKeeper (after es w) = AccountKeeper w"
  "BankKeeper (after es w) = BankKeeper w" "ConsensusParamsKeeper (after es w) = ConsensusParamsKeeper w"
  "GovKeeper (after es w) = GovKeeper w" "UpgradeKeeper (after es w) = UpgradeKeeper w"
  "POAKeeper (after es w) = POAKeeper w" "IBCKeeper (after es w) = IBCKeeper w"
  "TransferKeeper (after es w) = TransferKeeper w" "GMPKeeper (after es w) = GMPKeeper w"
  "TokenFactoryKeeper (after es w) = TokenFactoryKeeper w" "IFTKeeper (after es w) = IFTKeeper w"
  "FeeMarketKeeper (after es w) = FeeMarketKeeper w" "EVMKeeper (after es w) = EVMKeeper w"
  "Erc20Keeper (after es w) = Erc20Keeper w" "EVMMempool (after es w) = EVMMempool w"
  "ModuleManager (after es w) = ModuleManager w" "BasicModuleManager (after es w) = BasicModuleManager w"
  "configurator (after es w) = configurator w" "local_txConfig (after es w) = local_txConfig w"
  "transientKeys (after es w) = transientKeys w" "nonTransientKeys (after es w) = nonTransientKeys w"
  "stderr (after es w) = stderr w" "trace (after es w) = es @ trace w"
  by (simp_all add: after_def trace_def)

lemma after_emit: "emit e (after es w) = after es (emit e w)"
  by (simp add: after_def emit_def)

lemma BaseApp_emit: "BaseApp (emit e w) = BaseApp w" "app_txConfig (emit e w) = app_txConfig w"
  by (simp_all add: emit_def)

lemmas step_parts = key_of_def msgRouter_def Let_def

lemma framed_consensus_auth_bank: "framed (step_consensus_auth_bank L)"
  by (rule framedI) (simp add: step_consensus_auth_bank_def emit_def after_def step_parts cong: val_congs)

lemma framed_tx_config: "framed (step_tx_config L)"
  by (rule framedI)
    (simp add: step_tx_config_def emit_def after_def step_parts cong: val_congs split: option.split)

lemma framed_poa_gov_upgrade: "framed (step_poa_gov_upgrade L opts)"
  by (rule framedI)
    (simp add: step_poa_gov_upgrade_def emit_def after_def step_parts cong: val_congs split: sum.split)

lemma framed_ibc_feemarket_transfer: "framed (step_ibc_feemarket_transfer L)"
  by (rule framedI)
    (simp add: step_ibc_feemarket_transfer_def emit_def after_def step_parts cong: val_congs split: sum.split)

lemma framed_evm: "framed (step_evm L opts)"
  by (rule framedI)
    (simp add: step_evm_def emit_def after_def step_parts staticPrecompiles_def cong: val_congs split: sum.split)

lemma framed_ibc_stack: "framed (step_ibc_stack L)"
  by (rule framedI)
    (simp add: step_ibc_stack_def emit_def after_def step_parts cong: val_congs split: sum.split)

lemma framed_modules: "framed (step_modules L)"
  by (rule framedI)
    (simp add: step_modules_def emit_def after_def step_parts app_modules_def cong: val_congs)

lemma framed_order: "framed (step_order L)"
  by (rule framedI)
    (simp add: step_order_def emit_def after_def step_parts cong: val_congs split: sum.split)

lemma framed_services_mount: "framed (step_services_mount L)"
  by (rule framedI)
    (simp add: step_services_mount_def emit_def after_def step_parts cong: val_congs split: option.split)

lemma framed_run: "(\<And>f. f \<in> set fs \<Longrightarrow> framed f) \<Longrightarrow> framed (run_steps fs)"
proof (induction fs)
  case Nil
  show ?case by (simp add: framed_def)
next
  case (Cons f fs)
  then have "framed f" "framed (run_steps fs)" by simp_all
  then show ?case unfolding framed_def by (auto split: sum.split)
qed

lemma framed_setAnteHandler: "framed (setAnteHandler L txConfig maxGasWanted)"
  by (rule framedI)
    (simp add: setAnteHandler_def emit_def after_def Let_def cong: val_congs split: option.split)

lemma framed_setPostHandler: "framed (setPostHandler L)"
  by (rule framedI)
    (simp add: setPostHandler_def emit_def after_def Let_def cong: val_congs split: option.split)

lemma framed_handlers: "framed (step_handlers L opts)"
proof (rule framedI)
  fix es and w :: wiring
  have "framed (run_steps [setAnteHandler L (app_txConfig w) m, setPostHandler L])" for m
    by (rule framed_run) (auto simp: framed_setAnteHandler framed_setPostHandler)
  then show "step_handlers L opts (after es w) = map_sum id (after es) (step_handlers L opts w)"
    unfolding step_handlers_def Let_def by (simp only: after_emit framed_def after_sel BaseApp_emit)
qed

lemma framed_mempool: "framed (step_mempool L)"
  by (rule framedI)
    (simp add: step_mempool_def emit_def after_def step_parts configureEVMMempool_def cong: val_congs)

lemma framed_proto_load: "framed (step_proto_load L loadLatest)"
  by (rule framedI) (simp add: step_proto_load_def emit_def after_def Let_def split: option.split)

section \<open>What the options of BaseApp change\<close>

text \<open>The first step without the call that makes BaseApp.\<close>

definition base_rest :: "sdk \<Rightarrow> app_opts \<Rightarrow> stop + wiring" where
  "base_rest L opts = map_sum id (\<lambda>w. w\<lparr>calls := butlast (calls w)\<rparr>) (step_base L opts [] package_state)"

lemma step_base_calls:
  "calls w = [] \<Longrightarrow> step_base L opts bo w =
     map_sum id (after [new_base_app opts bo]) (map_sum id (\<lambda>w. w\<lparr>calls := butlast (calls w)\<rparr>) (step_base L opts [] w))"
  by (cases "RegisterStreamingServices_err L")
    (simp_all add: step_base_def new_base_app_def after_def emit_def Let_def cong: val_congs)

lemma step_base_after:
  "step_base L opts bo package_state = map_sum id (after [new_base_app opts bo]) (base_rest L opts)"
  unfolding base_rest_def by (rule step_base_calls) (simp add: package_state_def)

definition later_steps :: "sdk \<Rightarrow> bool \<Rightarrow> app_opts \<Rightarrow> wiring_step list" where
  "later_steps L loadLatest opts = tl (NewApp_steps L loadLatest opts [])"

lemma framed_later: "framed (run_steps (later_steps L loadLatest opts))"
  by (rule framed_run)
    (auto simp: later_steps_def NewApp_steps_def framed_consensus_auth_bank framed_tx_config
      framed_poa_gov_upgrade framed_ibc_feemarket_transfer framed_evm framed_ibc_stack framed_modules
      framed_order framed_services_mount framed_handlers framed_mempool framed_proto_load)

definition NewApp_rest :: "sdk \<Rightarrow> bool \<Rightarrow> app_opts \<Rightarrow> stop + wiring" where
  "NewApp_rest L loadLatest opts =
     (case base_rest L opts of Inl s \<Rightarrow> Inl s | Inr w \<Rightarrow> run_steps (later_steps L loadLatest opts) w)"

lemma NewApp_after:
  "NewApp L loadLatest opts bo = map_sum id (after [new_base_app opts bo]) (NewApp_rest L loadLatest opts)"
proof -
  have steps: "NewApp_steps L loadLatest opts bo = step_base L opts bo # later_steps L loadLatest opts"
    by (simp add: NewApp_steps_def later_steps_def)
  have "run_steps (later_steps L loadLatest opts) (after es w) =
      map_sum id (after es) (run_steps (later_steps L loadLatest opts) w)" for es w
    using framed_later unfolding framed_def by blast
  then show ?thesis
    by (simp add: NewApp_def steps step_base_after NewApp_rest_def split: sum.split)
qed

text \<open>What a creator makes, but for the call that makes BaseApp.\<close>

definition made_app :: "wiring \<Rightarrow> wiring \<times> event list" where
  "made_app w = (w\<lparr>calls := []\<rparr>, tl (trace w))"

lemma made_app_after: "made_app (after [e] w) = (w\<lparr>calls := []\<rparr>, trace w)"
  by (simp add: made_app_def) (simp add: after_def)

lemma NewApp_made:
  "map_sum id made_app (NewApp L loadLatest opts bo) =
     map_sum id (\<lambda>w. (w\<lparr>calls := []\<rparr>, trace w)) (NewApp_rest L loadLatest opts)"
  by (simp add: NewApp_after sum.map_comp made_app_after comp_def id_def)

lemma NewApp_load:
  "NewApp L True opts bo =
     (case NewApp L False opts bo of
        Inl s \<Rightarrow> Inl s
      | Inr w \<Rightarrow>
          (case LoadLatestVersion_err L of
             Some err \<Rightarrow> Inl (OsExit 1 ''error on loading last version'' (Some err))
           | None \<Rightarrow> Inr (emit (Method (BaseApp w) ''LoadLatestVersion'' []) w)))"
proof -
  have steps: "NewApp_steps L b opts bo = core_steps L opts bo @ [step_mempool L] @ [step_proto_load L b]" for b
    by (simp add: NewApp_steps_split)
  show ?thesis
    unfolding NewApp_def steps run_steps_append
    by (simp add: step_proto_load_def Let_def split: sum.split option.split)
qed

section \<open>The options that construction reads\<close>

text \<open>\<open>appExport\<close> sets the invariant-check period in the options; \<open>NewApp\<close> reads five other keys.\<close>

lemma export_opts [simp]:
  "opt_uint64 (set_inv_check_period opts) ''srvflags.EVMChainID'' = opt_uint64 opts ''srvflags.EVMChainID''"
  "opt_uint64 (set_inv_check_period opts) ''srvflags.EVMMaxTxGasWanted'' =
     opt_uint64 opts ''srvflags.EVMMaxTxGasWanted''"
  "opt_string (set_inv_check_period opts) ''srvflags.EVMTracer'' = opt_string opts ''srvflags.EVMTracer''"
  "opt_string (set_inv_check_period opts) ''flags.FlagHome'' = opt_string opts ''flags.FlagHome''"
  "opt_ints (set_inv_check_period opts) ''sdkserver.FlagUnsafeSkipUpgrades'' =
     opt_ints opts ''sdkserver.FlagUnsafeSkipUpgrades''"
  by (simp_all add: set_inv_check_period_def)

lemma NewApp_export_opts: "NewApp L loadLatest (set_inv_check_period opts) bo = NewApp L loadLatest opts bo"
proof -
  have "step_base L (set_inv_check_period opts) bo = step_base L opts bo"
    by (rule ext) (simp only: step_base_def export_opts)
  moreover have "step_poa_gov_upgrade L (set_inv_check_period opts) = step_poa_gov_upgrade L opts"
    by (rule ext) (simp only: step_poa_gov_upgrade_def export_opts)
  moreover have "step_evm L (set_inv_check_period opts) = step_evm L opts"
    by (rule ext) (simp only: step_evm_def export_opts)
  moreover have "step_handlers L (set_inv_check_period opts) = step_handlers L opts"
    by (rule ext) (simp only: step_handlers_def export_opts)
  ultimately show ?thesis by (simp only: NewApp_def NewApp_steps_def)
qed

section \<open>Property\<close>

text \<open>C32: Every command works on the same application: the server's \<open>newApp\<close> and the creator that the
  pruning and snapshot commands use stop with the same failure or build the same application, by
  the same calls but for the chain id among the options of BaseApp.  \<open>appExport\<close>, although it
  changes the options, exports the latest state from the application that this creator builds,
  and another height from the one that \<open>NewApp\<close> builds without loading, once that height is
  loaded: it stops only with the failure of that construction, and returns an error and nothing
  else when the height does not load.  And this application differs from the creator's in nothing
  but that the last call, \<open>LoadLatestVersion\<close>, is left out.\<close>

theorem creators_build_one_application:
  "map_sum id made_app (newApp L gen opts) = map_sum id made_app (sdkAppCreator L opts)
   \<and> map_sum id (\<lambda>w. hd (trace w)) (newApp L gen opts) =
       map_sum id (\<lambda>_. new_base_app opts [Lib ''baseapp.SetChainID'' [Str (chainIDFromOpts gen opts)]])
         (sdkAppCreator L opts)
   \<and> appExport L E height forZeroHeight jail (ViperOpts opts) mods =
       (if height = - 1
        then map_sum id (\<lambda>w. ExportAppStateAndValidators E w forZeroHeight jail mods) (sdkAppCreator L opts)
        else map_sum id (\<lambda>w.
          (case LoadVersion_err E height of
             Some err \<Rightarrow> (zero_exported, Some err)
           | None \<Rightarrow> ExportAppStateAndValidators E (emit (Method (BaseApp w) ''LoadVersion'' [U64 height]) w)
               forZeroHeight jail mods)) (NewApp L False opts []))
   \<and> sdkAppCreator L opts =
       (case NewApp L False opts [] of
          Inl s \<Rightarrow> Inl s
        | Inr w \<Rightarrow>
            (case LoadLatestVersion_err L of
               Some err \<Rightarrow> Inl (OsExit 1 ''error on loading last version'' (Some err))
             | None \<Rightarrow> Inr (emit (Method (BaseApp w) ''LoadLatestVersion'' []) w)))"
proof -
  have "map_sum id made_app (newApp L gen opts) = map_sum id made_app (sdkAppCreator L opts)"
    by (simp only: newApp_def sdkAppCreator_def NewApp_made)
  moreover have "map_sum id (\<lambda>w. hd (trace w)) (newApp L gen opts) =
       map_sum id (\<lambda>_. new_base_app opts [Lib ''baseapp.SetChainID'' [Str (chainIDFromOpts gen opts)]])
         (sdkAppCreator L opts)"
    by (simp add: newApp_def sdkAppCreator_def NewApp_after sum.map_comp comp_def)
  moreover have "appExport L E height forZeroHeight jail (ViperOpts opts) mods =
       (if height = - 1
        then map_sum id (\<lambda>w. ExportAppStateAndValidators E w forZeroHeight jail mods) (sdkAppCreator L opts)
        else map_sum id (\<lambda>w.
          (case LoadVersion_err E height of
             Some err \<Rightarrow> (zero_exported, Some err)
           | None \<Rightarrow> ExportAppStateAndValidators E (emit (Method (BaseApp w) ''LoadVersion'' [U64 height]) w)
               forZeroHeight jail mods)) (NewApp L False opts []))"
    by (simp add: appExport_def sdkAppCreator_def NewApp_export_opts LoadHeight_def Let_def
        split: sum.split option.split)
  ultimately show ?thesis by (simp add: sdkAppCreator_def NewApp_load)
qed

end
