(* ===== verification/Restore.thy ===== *)
theory Restore
  imports Lifecycle
begin

text \<open>
  Export and initialisation together: the genesis that \<open>appExport\<close> writes (\<open>app/app.go\<close>,
  \<open>app/export.go\<close>) is what \<open>InitChainer\<close> starts a new chain from.
\<close>

section \<open>JSON between the two\<close>

text \<open>
  \<open>json.MarshalIndent\<close> may change the layout of the raw messages in a genesis, so decoding gives
  back a genesis that is the same as JSON only; and the modules read their genesis as JSON.
\<close>

definition json_law ::
  "('c, 'g, 'v, 'r, 'pre, 'beg, 'fin) abci_lib \<Rightarrow> ('g, 'p) export_lib \<Rightarrow> ('g \<Rightarrow> 'g \<Rightarrow> bool) \<Rightarrow> bool" where
  "json_law A E same \<longleftrightarrow>
     (\<forall>g bytes. MarshalIndent E g = Inr bytes \<longrightarrow> (\<exists>g'. Unmarshal A bytes = Inr g' \<and> same g g'))
   \<and> (\<forall>g g' ctx. same g g' \<longrightarrow> mm_InitGenesis A ctx g' = mm_InitGenesis A ctx g)"

text \<open>The calls on an application that was constructed to export a height; -1 is the latest.\<close>

definition export_trace :: "wiring \<Rightarrow> int64 \<Rightarrow> event list" where
  "export_trace a height =
     trace a @ (if height = - 1 then [] else [Method (BaseApp a) ''LoadVersion'' [U64 height]])"

lemma appExport_run:
  assumes "appExport L E height z jail (ViperOpts opts) mods = Inr (x, None)"
  shows "\<exists>a a'. NewApp L (height = - 1) (set_inv_check_period opts) [] = Inr a
    \<and> trace a' = export_trace a height
    \<and> ExportAppStateAndValidators E a' z jail mods = (x, None)"
proof (cases "height = - 1")
  case True
  with assms show ?thesis
    by (auto simp: appExport_def Let_def export_trace_def split: sum.splits)
next
  case False
  with assms obtain a where a: "NewApp L False (set_inv_check_period opts) [] = Inr a"
    and run: "ExportAppStateAndValidators E (emit (Method (BaseApp a) ''LoadVersion'' [U64 height]) a) z jail mods = (x, None)"
    by (auto simp: appExport_def Let_def LoadHeight_def split: sum.splits option.splits)
  from False a run show ?thesis
    by (intro exI [of _ a] exI [of _ "emit (Method (BaseApp a) ''LoadVersion'' [U64 height]) a"])
      (simp add: export_trace_def)
qed

lemma InitChainer_decoded:
  assumes "Unmarshal A bytes = Inr g"
  shows "InitChainer A ctx bytes =
    (case SetModuleVersionMap A ctx (GetVersionMap A) of
       (ctx1, Some err) \<Rightarrow> (ctx1, Inl (PanicErr err))
     | (ctx1, None) \<Rightarrow> map_prod id Inr (mm_InitGenesis A ctx1 g))"
  by (auto simp: InitChainer_def assms split: prod.splits option.splits)

section \<open>Property\<close>

text \<open>C31: An export can start a chain: when \<open>appExport\<close> succeeds, for a height or for the latest
  state, \<open>InitChainer\<close> never panics on the exported bytes; it first records the versions of the
  modules, panics only if that fails, and else initialises the modules with the very genesis
  that they exported at the loaded height, on the context with the versions; and the export
  names the next height, or 0 for a fresh chain, with the consensus parameters at that height.\<close>

theorem exported_genesis_starts_a_chain:
  assumes "json_law A E same"
    and "appExport L E height forZeroHeight jail (ViperOpts opts) mods = Inr (x, None)"
  shows "\<exists>a g. NewApp L (height = - 1) (set_inv_check_period opts) [] = Inr a
    \<and> (let h = LastBlockHeight E (export_trace a height)
       in ExportGenesisForModules E (export_trace a height) h mods = Inr g
        \<and> Height x = (if forZeroHeight then 0 else h + 1)
        \<and> ConsensusParams x = Some (GetConsensusParams E (export_trace a height) h))
    \<and> InitChainer A ctx (AppState x) =
        (case SetModuleVersionMap A ctx (GetVersionMap A) of
           (ctx1, Some err) \<Rightarrow> (ctx1, Inl (PanicErr err))
         | (ctx1, None) \<Rightarrow> map_prod id Inr (mm_InitGenesis A ctx1 g))"
proof -
  from appExport_run [OF assms(2)] obtain a a' where
    a: "NewApp L (height = - 1) (set_inv_check_period opts) [] = Inr a"
    and t: "trace a' = export_trace a height"
    and run: "ExportAppStateAndValidators E a' forZeroHeight jail mods = (x, None)"
    by blast
  from export_ok [OF run] obtain g where
    g: "ExportGenesisForModules E (trace a') (LastBlockHeight E (trace a')) mods = Inr g"
    and bytes: "MarshalIndent E g = Inr (AppState x)"
    by blast
  obtain g' where g': "Unmarshal A (AppState x) = Inr g'" and same: "same g g'"
    using assms(1) bytes unfolding json_law_def by blast
  have init: "mm_InitGenesis A ctx1 g' = mm_InitGenesis A ctx1 g" for ctx1
    using assms(1) same unfolding json_law_def by blast
  have "ConsensusParams x = Some (GetConsensusParams E (trace a') (LastBlockHeight E (trace a')))"
    using run by (auto simp: ExportAppStateAndValidators_def Let_def split: sum.splits)
  with export_ok(1) [OF run] g show ?thesis
    by (intro exI [of _ a] exI [of _ g])
      (simp add: a t Let_def InitChainer_decoded [OF g'] init)
qed

section \<open>Witness\<close>

text \<open>
  A genesis is a text: encoding adds a blank, modules store what they read without blanks.
\<close>

definition sample_abci ::
  "(string list, bytes, string, unit, unit, unit, unit) abci_lib" where
  "sample_abci =
     \<lparr>Unmarshal = (\<lambda>b. if b = [] then Inl (ErrLib ''unexpected end of JSON input'') else Inr b),
      GetVersionMap = ''versions'', SetModuleVersionMap = (\<lambda>c v. (c @ [v], None)),
      mm_InitGenesis = (\<lambda>c g. (c @ map (\<lambda>_. ''module'') (filter (\<lambda>b. b \<noteq> 32) g), Inr ())),
      mm_PreBlock = (\<lambda>c. (c, Inr ())), mm_BeginBlock = (\<lambda>c. (c, Inr ())), mm_EndBlock = (\<lambda>c. (c, Inr ()))\<rparr>"

definition sample_writer :: "(bytes, int64) export_lib" where
  "sample_writer =
     \<lparr>LoadVersion_err = (\<lambda>_. None), LastBlockHeight = (\<lambda>t. height_after (rev t)),
      ExportGenesisForModules = (\<lambda>t h mods. Inr (map (\<lambda>_. 49) mods)), MarshalIndent = (\<lambda>g. Inr (32 # g)),
      GetConsensusParams = (\<lambda>t h. h)\<rparr>"

definition same_text :: "bytes \<Rightarrow> bytes \<Rightarrow> bool" where
  "same_text g g' \<longleftrightarrow> filter (\<lambda>b. b \<noteq> 32) g = filter (\<lambda>b. b \<noteq> 32) g'"

lemma sample_json_law: "json_law sample_abci sample_writer same_text"
  by (auto simp: json_law_def sample_abci_def sample_writer_def same_text_def)

theorem exported_genesis_starts_a_chain_witness:
  "\<exists>x. appExport sample_sdk sample_writer 41 False [] (ViperOpts sample_opts) [''bank'', ''evm''] = Inr (x, None)
     \<and> Height x = 42
     \<and> InitChainer sample_abci [] (AppState x) = ([''versions'', ''module'', ''module''], Inr (Inr ()))"
proof -
  obtain a where a: "NewApp sample_sdk False (set_inv_check_period sample_opts) [] = Inr a"
    using sample_returns by blast
  have no: "(41 :: int64) \<noteq> - 1" by simp
  from a obtain x where
    x: "appExport sample_sdk sample_writer 41 False [] (ViperOpts sample_opts) [''bank'', ''evm''] = Inr (x, None)"
    by (simp add: appExport_def Let_def LoadHeight_def sample_writer_def ExportAppStateAndValidators_def)
  from exported_genesis_starts_a_chain [OF sample_json_law x, of "[]"] x no a show ?thesis
    by (auto simp: Let_def export_trace_def sample_writer_def sample_abci_def)
qed

end
