(* ===== verification/SmtNodes.thy ===== *)
theory SmtNodes
  imports Prelude
begin

text \<open>
  The node store of the sparse Merkle tree, \<open>contracts/src/iden3-shims/SmtLib.sol\<close>: nodes keyed
  by their hash, the insertion of a leaf and the hashing of nodes.  Solidity's \<open>uint256\<close> is a
  256-bit word; depths are bounded by the cap of 256 and are natural numbers.  Poseidon is a
  parameter: \<open>PoseidonUnit2L\<close> and \<open>PoseidonUnit3L\<close> are not part of the repository.
\<close>

unbundle bit_operations_syntax

section \<open>Solidity values and failures\<close>

type_synonym uint256 = "256 word"

text \<open>
  How a call fails: \<open>revert\<close> and \<open>require\<close> with a message, \<open>assert\<close> (panic code 1), checked
  arithmetic (17) and array bounds (50).  A failing call undoes its changes.
\<close>

datatype sol_error = Revert string | Panic nat

abbreviation "AssertFailed \<equiv> Panic 1"
abbreviation "ArithmeticOverflow \<equiv> Panic 17"
abbreviation "OutOfBounds \<equiv> Panic 50"

definition require :: "bool \<Rightarrow> string \<Rightarrow> sol_error + unit" where
  "require b msg = (if b then Inr () else Inl (Revert msg))"

definition bind_sol :: "sol_error + 'a \<Rightarrow> ('a \<Rightarrow> sol_error + 'b) \<Rightarrow> sol_error + 'b" where
  "bind_sol r f = (case r of Inl e \<Rightarrow> Inl e | Inr x \<Rightarrow> f x)"

lemma bind_sol_simps [simp]:
  "bind_sol (Inl e) f = Inl e" "bind_sol (Inr x) f = f x"
  by (simp_all add: bind_sol_def)

lemma bind_sol_Inr: "bind_sol r f = Inr y \<longleftrightarrow> (\<exists>x. r = Inr x \<and> f x = Inr y)"
  by (cases r) simp_all

lemma bind_sol_Inl: "bind_sol r f = Inl e \<longleftrightarrow> r = Inl e \<or> (\<exists>x. r = Inr x \<and> f x = Inl e)"
  by (cases r) simp_all

lemma bind_sol_cong [fundef_cong]:
  "r = r' \<Longrightarrow> (\<And>x. r' = Inr x \<Longrightarrow> f x = g x) \<Longrightarrow> bind_sol r f = bind_sol r' g"
  by (cases r') simp_all

text \<open>Reading an array with Solidity's bounds check.\<close>

definition array_at :: "'a list \<Rightarrow> nat \<Rightarrow> sol_error + 'a" where
  "array_at xs i = (if i < length xs then Inr (xs ! i) else Inl OutOfBounds)"

section \<open>Nodes\<close>

datatype NodeType = EMPTY | LEAF | MIDDLE

record Node =
  nodeType :: NodeType
  childLeft :: uint256
  childRight :: uint256
  index :: uint256
  nvalue :: uint256

type_synonym node_store = "uint256 \<Rightarrow> Node"

text \<open>The node that a mapping holds where nothing was written.\<close>

definition empty_node :: Node where
  "empty_node = \<lparr>nodeType = EMPTY, childLeft = 0, childRight = 0, index = 0, nvalue = 0\<rparr>"

definition leaf_node :: "uint256 \<Rightarrow> uint256 \<Rightarrow> Node" where
  "leaf_node i v = \<lparr>nodeType = LEAF, childLeft = 0, childRight = 0, index = i, nvalue = v\<rparr>"

definition middle_node :: "uint256 \<Rightarrow> uint256 \<Rightarrow> Node" where
  "middle_node l r = \<lparr>nodeType = MIDDLE, childLeft = l, childRight = r, index = 0, nvalue = 0\<rparr>"

lemma node_sel [simp]:
  "nodeType empty_node = EMPTY"
  "nodeType (leaf_node i v) = LEAF" "index (leaf_node i v) = i" "nvalue (leaf_node i v) = v"
  "nodeType (middle_node l r) = MIDDLE" "childLeft (middle_node l r) = l"
  "childRight (middle_node l r) = r"
  by (simp_all add: empty_node_def leaf_node_def middle_node_def)

lemma node_inject [simp]:
  "leaf_node i v = leaf_node j w \<longleftrightarrow> i = j \<and> v = w"
  "middle_node l r = middle_node l' r' \<longleftrightarrow> l = l' \<and> r = r'"
  "leaf_node i v \<noteq> middle_node l r" "middle_node l r \<noteq> leaf_node i v"
  by (auto simp: leaf_node_def middle_node_def)

text \<open>The two Poseidon units the contract links.\<close>

record poseidon =
  Unit2L :: "uint256 \<Rightarrow> uint256 \<Rightarrow> uint256"
  Unit3L :: "uint256 \<Rightarrow> uint256 \<Rightarrow> uint256 \<Rightarrow> uint256"

definition getNodeHash :: "poseidon \<Rightarrow> Node \<Rightarrow> uint256" where
  "getNodeHash H node =
     (case nodeType node of
        LEAF \<Rightarrow> Unit3L H (index node) (nvalue node) 1
      | MIDDLE \<Rightarrow> Unit2L H (childLeft node) (childRight node)
      | EMPTY \<Rightarrow> 0)"

text \<open>\<open>(i >> depth) & 1 == 1\<close>.\<close>

definition bit_at :: "uint256 \<Rightarrow> nat \<Rightarrow> bool" where
  "bit_at i depth \<longleftrightarrow> drop_bit depth i AND 1 = 1"

lemma bit_at_bit: "bit_at i d = bit i d"
  by (simp add: bit_at_def and_one_eq bit_iff_odd_drop_bit odd_iff_mod_2_eq_one)

section \<open>Writing nodes\<close>

definition addNode :: "poseidon \<Rightarrow> node_store \<Rightarrow> Node \<Rightarrow> sol_error + (node_store \<times> uint256)" where
  "addNode H nodes node =
     (let nodeHash = getNodeHash H node in
      if nodeType (nodes nodeHash) \<noteq> EMPTY then
        if nodeType (nodes nodeHash) = nodeType node
         \<and> childLeft (nodes nodeHash) = childLeft node
         \<and> childRight (nodes nodeHash) = childRight node
         \<and> index (nodes nodeHash) = index node
         \<and> nvalue (nodes nodeHash) = nvalue node
        then Inr (nodes, nodeHash)
        else Inl AssertFailed
      else Inr (nodes(nodeHash := node), nodeHash))"

function pushLeaf ::
  "poseidon \<Rightarrow> nat \<Rightarrow> node_store \<Rightarrow> Node \<Rightarrow> Node \<Rightarrow> nat \<Rightarrow> sol_error + (node_store \<times> uint256)" where
  "pushLeaf H maxDepth nodes newLeaf oldLeaf depth =
     (if depth \<ge> maxDepth then Inl (Revert ''Max depth reached'')
      else
        let newLeafBitAtDepth = bit_at (index newLeaf) depth;
            oldLeafBitAtDepth = bit_at (index oldLeaf) depth
        in if newLeafBitAtDepth = oldLeafBitAtDepth then
             bind_sol (pushLeaf H maxDepth nodes newLeaf oldLeaf (depth + 1)) (\<lambda>(nodes, nextNodeHash).
               addNode H nodes
                 (if newLeafBitAtDepth then middle_node 0 nextNodeHash else middle_node nextNodeHash 0))
           else
             let newNodeMiddle =
                   (if newLeafBitAtDepth
                    then middle_node (getNodeHash H oldLeaf) (getNodeHash H newLeaf)
                    else middle_node (getNodeHash H newLeaf) (getNodeHash H oldLeaf))
             in bind_sol (addNode H nodes newLeaf) (\<lambda>(nodes, _). addNode H nodes newNodeMiddle))"
  by pat_completeness auto
termination by (relation "measure (\<lambda>(H, maxDepth, nodes, newLeaf, oldLeaf, depth). maxDepth - depth)") auto

declare pushLeaf.simps [simp del]

function addLeaf_internal ::
  "poseidon \<Rightarrow> nat \<Rightarrow> node_store \<Rightarrow> Node \<Rightarrow> uint256 \<Rightarrow> nat \<Rightarrow> sol_error + (node_store \<times> uint256)" where
  "addLeaf_internal H maxDepth nodes newLeaf nodeHash depth =
     (if depth > maxDepth then Inl (Revert ''Max depth reached'')
      else
        let node = nodes nodeHash in
        case nodeType node of
          EMPTY \<Rightarrow> addNode H nodes newLeaf
        | LEAF \<Rightarrow>
            if index node = index newLeaf then addNode H nodes newLeaf
            else pushLeaf H maxDepth nodes newLeaf node depth
        | MIDDLE \<Rightarrow>
            if bit_at (index newLeaf) depth then
              bind_sol (addLeaf_internal H maxDepth nodes newLeaf (childRight node) (depth + 1))
                (\<lambda>(nodes, nextNodeHash). addNode H nodes (middle_node (childLeft node) nextNodeHash))
            else
              bind_sol (addLeaf_internal H maxDepth nodes newLeaf (childLeft node) (depth + 1))
                (\<lambda>(nodes, nextNodeHash). addNode H nodes (middle_node nextNodeHash (childRight node))))"
  by pat_completeness auto
termination
  by (relation "measure (\<lambda>(H, maxDepth, nodes, newLeaf, nodeHash, depth). Suc maxDepth - depth)") auto

declare addLeaf_internal.simps [simp del]

section \<open>The store as an interface\<close>

text \<open>
  What insertion relies on: writing a node makes it readable under the hash that is returned,
  and never changes or removes a node that is there.
\<close>

locale content_store =
  fixes get :: "'s \<Rightarrow> uint256 \<Rightarrow> Node" and put :: "'s \<Rightarrow> Node \<Rightarrow> sol_error + ('s \<times> uint256)"
    and hash :: "Node \<Rightarrow> uint256"
  assumes put_get: "put s n = Inr (s', h) \<Longrightarrow> nodeType n \<noteq> EMPTY \<Longrightarrow> get s' h = n"
    and put_hash: "put s n = Inr (s', h) \<Longrightarrow> h = hash n"
    and put_keeps: "put s n = Inr (s', h) \<Longrightarrow> nodeType (get s k) \<noteq> EMPTY \<Longrightarrow> get s' k = get s k"
    and put_only: "put s n = Inr (s', h) \<Longrightarrow> get s' k \<noteq> get s k \<Longrightarrow> k = h"
begin

definition extends_store :: "'s \<Rightarrow> 's \<Rightarrow> bool" where
  "extends_store s s' \<longleftrightarrow> (\<forall>k. nodeType (get s k) \<noteq> EMPTY \<longrightarrow> get s' k = get s k)"

definition addressed :: "'s \<Rightarrow> bool" where
  "addressed s \<longleftrightarrow> (\<forall>k. nodeType (get s k) \<noteq> EMPTY \<longrightarrow> hash (get s k) = k)"

lemma kept_refl: "extends_store s s"
  by (simp add: extends_store_def)

lemma kept_trans: "extends_store s t \<Longrightarrow> extends_store t u \<Longrightarrow> extends_store s u"
  by (auto simp: extends_store_def)

lemma put_extends: "put s n = Inr (s', h) \<Longrightarrow> extends_store s s'"
  by (auto simp: extends_store_def dest: put_keeps)

lemma put_addressed:
  assumes "put s n = Inr (s', h)" and "nodeType n \<noteq> EMPTY" and "addressed s"
  shows "addressed s'"
  unfolding addressed_def
proof (intro allI impI)
  fix k
  assume k: "nodeType (get s' k) \<noteq> EMPTY"
  show "hash (get s' k) = k"
  proof (cases "get s' k = get s k")
    case True
    with k assms(3) show ?thesis by (simp add: addressed_def)
  next
    case False
    then have "k = h" by (rule put_only [OF assms(1)])
    with put_get [OF assms(1,2)] put_hash [OF assms(1)] show ?thesis by simp
  qed
qed

lemma extends_empty: "extends_store s s' \<Longrightarrow> nodeType (get s' k) = EMPTY \<Longrightarrow> nodeType (get s k) = EMPTY"
  unfolding extends_store_def by metis

end

lemma addNode_Inr:
  "addNode H nodes n = Inr (nodes', h) \<longleftrightarrow>
     h = getNodeHash H n
   \<and> (nodeType (nodes h) \<noteq> EMPTY \<and> nodes h = n \<and> nodes' = nodes
    \<or> nodeType (nodes h) = EMPTY \<and> nodes' = nodes(h := n))"
  by (auto simp: addNode_def Let_def)

lemma addNode_Inl:
  "addNode H nodes n = Inl e \<longleftrightarrow>
     e = AssertFailed \<and> nodeType (nodes (getNodeHash H n)) \<noteq> EMPTY \<and> nodes (getNodeHash H n) \<noteq> n"
  by (auto simp: addNode_def Let_def)

interpretation store: content_store "\<lambda>nodes h. nodes h" "addNode H" "getNodeHash H" for H
  by unfold_locales (auto simp: addNode_Inr split: if_splits)

end
