(* ===== verification/SmtTrie.thy ===== *)
theory SmtTrie
  imports SmtNodes
begin

text \<open>
  The abstract tree that the node store represents: a binary trie over the bits of the index,
  from the lowest bit, with one leaf per index.  Insertion into the store refines insertion into
  the trie, and the trie of a map is unique.
\<close>

section \<open>Tries\<close>

datatype trie = E | L uint256 uint256 | M trie trie

fun lookup :: "nat \<Rightarrow> trie \<Rightarrow> uint256 \<rightharpoonup> uint256" where
  "lookup d E i = None"
| "lookup d (L j w) i = (if i = j then Some w else None)"
| "lookup d (M l r) i = (if bit i d then lookup (Suc d) r i else lookup (Suc d) l i)"

function push :: "nat \<Rightarrow> nat \<Rightarrow> uint256 \<Rightarrow> uint256 \<Rightarrow> uint256 \<Rightarrow> uint256 \<Rightarrow> trie option" where
  "push md d i v j w =
     (if d \<ge> md then None
      else if bit i d = bit j d then
        map_option (\<lambda>t. if bit i d then M E t else M t E) (push md (Suc d) i v j w)
      else Some (if bit i d then M (L j w) (L i v) else M (L i v) (L j w)))"
  by pat_completeness auto
termination by (relation "measure (\<lambda>(md, d, i, v, j, w). md - d)") auto

declare push.simps [simp del]

fun ins :: "nat \<Rightarrow> nat \<Rightarrow> uint256 \<Rightarrow> uint256 \<Rightarrow> trie \<Rightarrow> trie option" where
  "ins md d i v E = (if d > md then None else Some (L i v))"
| "ins md d i v (L j w) =
     (if d > md then None else if j = i then Some (L i v) else push md d i v j w)"
| "ins md d i v (M l r) =
     (if d > md then None
      else if bit i d then map_option (M l) (ins md (Suc d) i v r)
      else map_option (\<lambda>t. M t r) (ins md (Suc d) i v l))"

section \<open>Hashes and representation\<close>

fun hash_of :: "poseidon \<Rightarrow> trie \<Rightarrow> uint256" where
  "hash_of H E = 0"
| "hash_of H (L i v) = getNodeHash H (leaf_node i v)"
| "hash_of H (M l r) = getNodeHash H (middle_node (hash_of H l) (hash_of H r))"

text \<open>\<open>stored H nodes t\<close>: every node of \<open>t\<close> is in the store, under its hash.\<close>

fun stored :: "poseidon \<Rightarrow> node_store \<Rightarrow> trie \<Rightarrow> bool" where
  "stored H nodes E = True"
| "stored H nodes (L i v) = (nodes (hash_of H (L i v)) = leaf_node i v)"
| "stored H nodes (M l r) =
     (nodes (hash_of H (M l r)) = middle_node (hash_of H l) (hash_of H r) \<and> stored H nodes l \<and> stored H nodes r)"

abbreviation extends_nodes :: "node_store \<Rightarrow> node_store \<Rightarrow> bool" where
  "extends_nodes \<equiv> content_store.extends_store (\<lambda>nodes h. nodes h)"

abbreviation addressed_nodes :: "poseidon \<Rightarrow> node_store \<Rightarrow> bool" where
  "addressed_nodes H \<equiv> content_store.addressed (\<lambda>nodes h. nodes h) (getNodeHash H)"

lemma stored_extends: "stored H s t \<Longrightarrow> extends_nodes s s' \<Longrightarrow> stored H s' t"
  by (induction t) (auto simp: store.extends_store_def)

lemma stored_read:
  assumes "stored H nodes t" and "nodeType (nodes 0) = EMPTY"
  shows "case t of E \<Rightarrow> nodeType (nodes (hash_of H t)) = EMPTY
    | L i v \<Rightarrow> nodes (hash_of H t) = leaf_node i v
    | M l r \<Rightarrow> nodes (hash_of H t) = middle_node (hash_of H l) (hash_of H r)"
  using assms by (cases t) simp_all

lemma stored_nonzero:
  assumes "stored H nodes t" and "nodeType (nodes 0) = EMPTY" and "t \<noteq> E"
  shows "hash_of H t \<noteq> 0"
  using stored_read [OF assms(1,2)] assms(2,3) by (cases t) auto

lemma hash_of_inj:
  assumes "stored H nodes t" and "stored H nodes u" and "nodeType (nodes 0) = EMPTY"
    and "hash_of H t = hash_of H u"
  shows "t = u"
  using assms
proof (induction t arbitrary: u)
  case E
  then have "hash_of H u = 0" by simp
  with E stored_nonzero show ?case by metis
next
  case (L i v)
  then have at: "nodes (hash_of H u) = leaf_node i v" by simp
  from stored_read [OF L.prems(2,3), unfolded at] show ?case by (cases u) simp_all
next
  case (M l r)
  then have at: "nodes (hash_of H u) = middle_node (hash_of H l) (hash_of H r)" by simp
  from stored_read [OF M.prems(2,3), unfolded at] obtain l' r' where u: "u = M l' r'"
    "hash_of H l = hash_of H l'" "hash_of H r = hash_of H r'"
    by (cases u) auto
  have "l = l'" using M.prems(1-3) u by (intro M.IH(1)) simp_all
  moreover have "r = r'" using M.prems(1-3) u by (intro M.IH(2)) simp_all
  ultimately show ?case by (simp add: u(1))
qed

section \<open>Insertion into the store\<close>

text \<open>The nodes of a trie, and the nodes that a store holds.\<close>

fun trie_nodes :: "poseidon \<Rightarrow> trie \<Rightarrow> Node set" where
  "trie_nodes H E = {}"
| "trie_nodes H (L i v) = {leaf_node i v}"
| "trie_nodes H (M l r) =
     insert (middle_node (hash_of H l) (hash_of H r)) (trie_nodes H l \<union> trie_nodes H r)"

definition store_nodes :: "node_store \<Rightarrow> Node set" where
  "store_nodes nodes = {nodes h | h. nodeType (nodes h) \<noteq> EMPTY}"

lemma stored_nodes: "stored H ns t \<Longrightarrow> trie_nodes H t \<subseteq> store_nodes ns"
proof (induction t)
  case E
  show ?case by simp
next
  case (L i v)
  then have "leaf_node i v = ns (hash_of H (L i v))" "nodeType (ns (hash_of H (L i v))) \<noteq> EMPTY" by simp_all
  then show ?case unfolding store_nodes_def by auto
next
  case (M l r)
  then have "middle_node (hash_of H l) (hash_of H r) = ns (hash_of H (M l r))"
    "nodeType (ns (hash_of H (M l r))) \<noteq> EMPTY" by simp_all
  then have "middle_node (hash_of H l) (hash_of H r) \<in> store_nodes ns" unfolding store_nodes_def by blast
  with M show ?case by simp
qed

lemma addNode_store: "addNode H nodes n = Inr (nodes', h) \<Longrightarrow> store_nodes nodes' \<subseteq> insert n (store_nodes nodes)"
  by (auto simp: addNode_Inr store_nodes_def split: if_splits)

text \<open>What a successful write sequence leaves: the new trie, on top of everything stored before.\<close>

definition wrote :: "poseidon \<Rightarrow> node_store \<Rightarrow> trie \<Rightarrow> node_store \<times> uint256 \<Rightarrow> bool" where
  "wrote H nodes t res \<longleftrightarrow>
     snd res = hash_of H t \<and> stored H (fst res) t \<and> extends_nodes nodes (fst res)
   \<and> (addressed_nodes H nodes \<longrightarrow> addressed_nodes H (fst res))
   \<and> store_nodes (fst res) \<subseteq> store_nodes nodes \<union> trie_nodes H t"

lemma wrote_leaf:
  "addNode H nodes (leaf_node i v) = Inr res \<Longrightarrow> wrote H nodes (L i v) res"
  using store.put_get [of H nodes "leaf_node i v"] store.put_hash [of H nodes "leaf_node i v"]
    store.put_extends [of H nodes "leaf_node i v"] store.put_addressed [of H nodes "leaf_node i v"]
    addNode_store [of H nodes "leaf_node i v"]
  by (cases res) (auto simp: wrote_def)

lemma wrote_middle:
  assumes "addNode H nodes (middle_node (hash_of H l) (hash_of H r)) = Inr res"
    and "stored H nodes l" and "stored H nodes r" and "extends_nodes nodes0 nodes"
    and "addressed_nodes H nodes0 \<longrightarrow> addressed_nodes H nodes"
    and "store_nodes nodes \<subseteq> store_nodes nodes0 \<union> (trie_nodes H l \<union> trie_nodes H r)"
  shows "wrote H nodes0 (M l r) res"
proof -
  let ?n = "middle_node (hash_of H l) (hash_of H r)"
  obtain nodes' h where res: "res = (nodes', h)" by (cases res)
  note put = assms(1) [unfolded res]
  have "extends_nodes nodes nodes'" by (rule store.put_extends [OF put])
  moreover have "nodes' h = ?n" by (rule store.put_get [OF put]) simp
  moreover have "h = hash_of H (M l r)" using store.put_hash [OF put] by simp
  moreover have "addressed_nodes H nodes \<longrightarrow> addressed_nodes H nodes'"
    using store.put_addressed [OF put] by simp
  moreover have "store_nodes nodes' \<subseteq> store_nodes nodes0 \<union> trie_nodes H (M l r)"
    using addNode_store [OF put] assms(6) by auto
  ultimately show ?thesis
    using assms(2-5) stored_extends store.kept_trans by (auto simp: wrote_def res)
qed

lemma pushLeaf_refines:
  assumes "pushLeaf H md nodes (leaf_node i v) (leaf_node j w) d = Inr res"
    and "stored H nodes (L j w)"
  shows "\<exists>t. push md d i v j w = Some t \<and> wrote H nodes t res"
  using assms
proof (induction md d i v j w arbitrary: res rule: push.induct)
  case (1 md d i v j w)
  show ?case
  proof (cases "bit i d = bit j d")
    case True
    with "1.prems"(1) obtain nodes1 h1 where d: "\<not> d \<ge> md"
      and rec: "pushLeaf H md nodes (leaf_node i v) (leaf_node j w) (Suc d) = Inr (nodes1, h1)"
      and add: "addNode H nodes1 (if bit i d then middle_node 0 h1 else middle_node h1 0) = Inr res"
      by (subst (asm) pushLeaf.simps) (auto simp: bit_at_bit bind_sol_Inr split: if_splits)
    obtain t where t: "push md (Suc d) i v j w = Some t" "wrote H nodes t (nodes1, h1)"
      using "1.IH" [OF d True rec "1.prems"(2)] by blast
    have parts: "h1 = hash_of H t" "stored H nodes1 t" "extends_nodes nodes nodes1"
      "addressed_nodes H nodes \<longrightarrow> addressed_nodes H nodes1"
      "store_nodes nodes1 \<subseteq> store_nodes nodes \<union> trie_nodes H t"
      using t(2) by (simp_all add: wrote_def)
    have "wrote H nodes (if bit i d then M E t else M t E) res"
      using add wrote_middle [where l = E and r = t, OF _ _ parts(2-4)] parts(5)
        wrote_middle [where l = t and r = E, OF _ parts(2) _ parts(3,4)]
      by (simp add: parts(1) split: if_splits)
    with d True t(1) show ?thesis by (subst push.simps) simp
  next
    case False
    let ?new = "leaf_node i v" and ?old = "leaf_node j w"
    from False "1.prems"(1) obtain nodes1 h1 where d: "\<not> d \<ge> md"
      and put: "addNode H nodes ?new = Inr (nodes1, h1)"
      and add: "addNode H nodes1
        (if bit i d then middle_node (getNodeHash H ?old) (getNodeHash H ?new)
         else middle_node (getNodeHash H ?new) (getNodeHash H ?old)) = Inr res"
      by (subst (asm) pushLeaf.simps) (auto simp: bit_at_bit bind_sol_Inr Let_def split: if_splits)
    have new: "stored H nodes1 (L i v)" "extends_nodes nodes nodes1"
      "addressed_nodes H nodes \<longrightarrow> addressed_nodes H nodes1"
      and sub: "store_nodes nodes1 \<subseteq> store_nodes nodes \<union> trie_nodes H (L i v)"
      using wrote_leaf [OF put] by (simp_all add: wrote_def)
    have old: "stored H nodes1 (L j w)" by (rule stored_extends [OF "1.prems"(2) new(2)])
    have "wrote H nodes (if bit i d then M (L j w) (L i v) else M (L i v) (L j w)) res"
      using add wrote_middle [where l = "L j w" and r = "L i v", OF _ old new]
        wrote_middle [where l = "L i v" and r = "L j w", OF _ new(1) old new(2,3)] sub
      by (auto split: if_splits)
    with d False show ?thesis by (subst push.simps) simp
  qed
qed

lemma addLeaf_internal_refines:
  assumes "addLeaf_internal H md nodes (leaf_node i v) (hash_of H t) d = Inr res"
    and "stored H nodes t" and "nodeType (nodes 0) = EMPTY"
  shows "\<exists>t'. ins md d i v t = Some t' \<and> wrote H nodes t' res"
  using assms(1,2)
proof (induction t arbitrary: d res)
  case E
  then have "d \<le> md" "addNode H nodes (leaf_node i v) = Inr res"
    using assms(3) by (simp_all add: addLeaf_internal.simps split: if_splits)
  then show ?case using wrote_leaf by simp
next
  case (L j w)
  have read: "nodes (hash_of H (L j w)) = leaf_node j w" using L.prems(2) by simp
  from L.prems(1) have d: "\<not> d > md" and run:
    "(if j = i then addNode H nodes (leaf_node i v)
      else pushLeaf H md nodes (leaf_node i v) (leaf_node j w) d) = Inr res"
    unfolding addLeaf_internal.simps [of H md nodes _ "hash_of H (L j w)"] read
    by (simp_all add: Let_def split: if_splits)
  show ?case
  proof (cases "j = i")
    case True
    with run d show ?thesis using wrote_leaf by simp
  next
    case False
    with run have "pushLeaf H md nodes (leaf_node i v) (leaf_node j w) d = Inr res" by simp
    from pushLeaf_refines [OF this L.prems(2)] d False show ?thesis by auto
  qed
next
  case (M l r)
  have read: "nodes (hash_of H (M l r)) = middle_node (hash_of H l) (hash_of H r)"
    and sub: "stored H nodes l" "stored H nodes r"
    using M.prems(2) by simp_all
  from M.prems(1) have d: "\<not> d > md" and run:
    "(if bit i d then bind_sol (addLeaf_internal H md nodes (leaf_node i v) (hash_of H r) (Suc d))
        (\<lambda>(nodes, next). addNode H nodes (middle_node (hash_of H l) next))
      else bind_sol (addLeaf_internal H md nodes (leaf_node i v) (hash_of H l) (Suc d))
        (\<lambda>(nodes, next). addNode H nodes (middle_node next (hash_of H r)))) = Inr res"
    unfolding addLeaf_internal.simps [of H md nodes _ "hash_of H (M l r)"] read
    by (simp_all add: Let_def bit_at_bit split: if_splits)
  show ?case
  proof (cases "bit i d")
    case True
    with run obtain nodes1 h1
      where rec: "addLeaf_internal H md nodes (leaf_node i v) (hash_of H r) (Suc d) = Inr (nodes1, h1)"
        and add: "addNode H nodes1 (middle_node (hash_of H l) h1) = Inr res"
      by (auto simp: bind_sol_Inr)
    from M.IH(2) [OF rec sub(2)] obtain t where t: "ins md (Suc d) i v r = Some t"
      and w: "wrote H nodes t (nodes1, h1)" by blast
    then have parts: "h1 = hash_of H t" "stored H nodes1 t" "extends_nodes nodes nodes1"
      "addressed_nodes H nodes \<longrightarrow> addressed_nodes H nodes1"
      "store_nodes nodes1 \<subseteq> store_nodes nodes \<union> trie_nodes H t" by (simp_all add: wrote_def)
    have "wrote H nodes (M l t) res"
      using add unfolding parts(1)
      by (rule wrote_middle [OF _ stored_extends [OF sub(1) parts(3)] parts(2-4)]) (use parts(5) in blast)
    with d True t show ?thesis by auto
  next
    case False
    with run obtain nodes1 h1
      where rec: "addLeaf_internal H md nodes (leaf_node i v) (hash_of H l) (Suc d) = Inr (nodes1, h1)"
        and add: "addNode H nodes1 (middle_node h1 (hash_of H r)) = Inr res"
      by (auto simp: bind_sol_Inr)
    from M.IH(1) [OF rec sub(1)] obtain t where t: "ins md (Suc d) i v l = Some t"
      and w: "wrote H nodes t (nodes1, h1)" by blast
    then have parts: "h1 = hash_of H t" "stored H nodes1 t" "extends_nodes nodes nodes1"
      "addressed_nodes H nodes \<longrightarrow> addressed_nodes H nodes1"
      "store_nodes nodes1 \<subseteq> store_nodes nodes \<union> trie_nodes H t" by (simp_all add: wrote_def)
    have "wrote H nodes (M t r) res"
      using add unfolding parts(1)
      by (rule wrote_middle [OF _ parts(2) stored_extends [OF sub(2) parts(3)] parts(3,4)]) (use parts(5) in blast)
    with d False t show ?thesis by auto
  qed
qed

section \<open>Failing insertions\<close>

text \<open>Two different nodes of a set with one hash.\<close>

definition hash_clash :: "poseidon \<Rightarrow> Node set \<Rightarrow> bool" where
  "hash_clash H N \<longleftrightarrow> (\<exists>n \<in> N. \<exists>n' \<in> N. n \<noteq> n' \<and> getNodeHash H n = getNodeHash H n')"

lemma hash_clash_mono: "hash_clash H N \<Longrightarrow> N \<subseteq> N' \<Longrightarrow> hash_clash H N'"
  by (auto simp: hash_clash_def)

lemma addressed_no_clash: "addressed_nodes H nodes \<Longrightarrow> \<not> hash_clash H (store_nodes nodes)"
  by (auto simp: hash_clash_def store_nodes_def store.addressed_def)

lemma extends_store_nodes: "extends_nodes nodes nodes' \<Longrightarrow> store_nodes nodes \<subseteq> store_nodes nodes'"
  by (auto simp: store_nodes_def store.extends_store_def) (metis)

text \<open>So a write that succeeds proves that there was no clash.\<close>

lemma wrote_no_clash:
  assumes "wrote H nodes t res" and "addressed_nodes H nodes"
  shows "\<not> hash_clash H (store_nodes nodes \<union> trie_nodes H t)"
proof
  assume "hash_clash H (store_nodes nodes \<union> trie_nodes H t)"
  moreover have "store_nodes nodes \<union> trie_nodes H t \<subseteq> store_nodes (fst res)"
    using assms(1) extends_store_nodes [of nodes "fst res"] stored_nodes [of H "fst res" t]
    by (simp add: wrote_def)
  ultimately have "hash_clash H (store_nodes (fst res))" by (rule hash_clash_mono)
  with assms addressed_no_clash [of H "fst res"] show False by (simp add: wrote_def)
qed

lemma addNode_fails:
  assumes "addNode H nodes n = Inl e" and "addressed_nodes H nodes" and "insert n (store_nodes nodes) \<subseteq> N"
  shows "e = AssertFailed \<and> hash_clash H N"
proof -
  let ?h = "getNodeHash H n"
  have fail: "e = AssertFailed" "nodeType (nodes ?h) \<noteq> EMPTY" "nodes ?h \<noteq> n"
    using assms(1) by (simp_all add: addNode_Inl)
  then have "nodes ?h \<in> N" using assms(3) by (auto simp: store_nodes_def)
  moreover have "getNodeHash H (nodes ?h) = ?h" using assms(2) fail(2) by (simp add: store.addressed_def)
  ultimately show ?thesis using fail assms(3) by (auto simp: hash_clash_def)
qed

text \<open>The reasons of a failing write: the depth, or a clash with a node of the store or the new trie.\<close>

definition failed :: "poseidon \<Rightarrow> node_store \<Rightarrow> trie option \<Rightarrow> sol_error \<Rightarrow> bool" where
  "failed H nodes res e \<longleftrightarrow>
     e = Revert ''Max depth reached'' \<and> res = None
   \<or> (\<exists>t. e = AssertFailed \<and> res = Some t \<and> hash_clash H (store_nodes nodes \<union> trie_nodes H t))"

lemma failed_map:
  assumes "failed H nodes res e" and "\<And>t. trie_nodes H t \<subseteq> trie_nodes H (f t)"
  shows "failed H nodes (map_option f res) e"
proof (cases res)
  case None
  with assms(1) show ?thesis by (simp add: failed_def)
next
  case (Some t)
  with assms(1) have "e = AssertFailed" "hash_clash H (store_nodes nodes \<union> trie_nodes H t)"
    by (simp_all add: failed_def)
  with Some assms(2) [of t] show ?thesis
    by (auto simp: failed_def elim!: hash_clash_mono)
qed

lemma pushLeaf_fails:
  assumes "pushLeaf H md nodes (leaf_node i v) (leaf_node j w) d = Inl e"
    and "stored H nodes (L j w)" and "addressed_nodes H nodes"
  shows "failed H nodes (push md d i v j w) e"
  using assms
proof (induction md d i v j w arbitrary: e rule: push.induct)
  case (1 md d i v j w)
  show ?case
  proof (cases "d \<ge> md")
    case True
    with "1.prems"(1) show ?thesis by (simp add: pushLeaf.simps [of H md] push.simps [of md] failed_def)
  next
    case d: False
    show ?thesis
    proof (cases "bit i d = bit j d")
      case True
      let ?f = "\<lambda>t. if bit i d then M E t else M t E"
      have push: "push md d i v j w = map_option ?f (push md (Suc d) i v j w)"
        using d True by (subst push.simps) simp
      show ?thesis
      proof (cases "pushLeaf H md nodes (leaf_node i v) (leaf_node j w) (Suc d)")
        case (Inl e')
        with "1.prems"(1) d True have "e' = e"
          by (simp add: pushLeaf.simps [of H md _ _ _ d] bit_at_bit)
        with "1.IH" [OF d True Inl "1.prems"(2,3)] show ?thesis
          unfolding push by (intro failed_map) auto
      next
        case (Inr res)
        obtain nodes1 h1 where res: "res = (nodes1, h1)" by (cases res)
        obtain t where t: "push md (Suc d) i v j w = Some t" "wrote H nodes t (nodes1, h1)"
          using pushLeaf_refines [OF Inr "1.prems"(2)] res by blast
        then have parts: "h1 = hash_of H t" "addressed_nodes H nodes1"
          "store_nodes nodes1 \<subseteq> store_nodes nodes \<union> trie_nodes H t"
          using "1.prems"(3) by (simp_all add: wrote_def)
        have fail: "addNode H nodes1 (if bit i d then middle_node 0 h1 else middle_node h1 0) = Inl e"
          using "1.prems"(1) d True Inr by (simp add: pushLeaf.simps [of H md _ _ _ d] bit_at_bit res)
        have "e = AssertFailed \<and> hash_clash H (store_nodes nodes \<union> trie_nodes H (?f t))"
          by (rule addNode_fails [OF fail parts(2)]) (use parts(1,3) in \<open>cases "bit i d"; auto\<close>)
        then show ?thesis by (simp add: push t(1) failed_def)
      qed
    next
      case False
      let ?t = "if bit i d then M (L j w) (L i v) else M (L i v) (L j w)"
      have push: "push md d i v j w = Some ?t" using d False by (subst push.simps) simp
      show ?thesis
      proof (cases "addNode H nodes (leaf_node i v)")
        case (Inl e')
        with "1.prems"(1) d False have "e' = e"
          by (simp add: pushLeaf.simps [of H md _ _ _ d] bit_at_bit Let_def)
        moreover have "e' = AssertFailed \<and> hash_clash H (store_nodes nodes \<union> trie_nodes H ?t)"
          by (rule addNode_fails [OF Inl "1.prems"(3)]) auto
        ultimately show ?thesis by (simp add: push failed_def)
      next
        case (Inr res)
        obtain nodes1 h1 where res: "res = (nodes1, h1)" by (cases res)
        have parts: "addressed_nodes H nodes1" "store_nodes nodes1 \<subseteq> store_nodes nodes \<union> {leaf_node i v}"
          using wrote_leaf [OF Inr] "1.prems"(3) res by (simp_all add: wrote_def)
        let ?n = "if bit i d then middle_node (hash_of H (L j w)) (hash_of H (L i v))
          else middle_node (hash_of H (L i v)) (hash_of H (L j w))"
        have fail: "addNode H nodes1 ?n = Inl e"
          using "1.prems"(1) d False Inr
          by (simp add: pushLeaf.simps [of H md _ _ _ d] bit_at_bit Let_def res split: if_splits)
        have "e = AssertFailed \<and> hash_clash H (store_nodes nodes \<union> trie_nodes H ?t)"
          by (rule addNode_fails [OF fail parts(1)]) (use parts(2) in \<open>cases "bit i d"; auto\<close>)
        then show ?thesis by (simp add: push failed_def)
      qed
    qed
  qed
qed

lemma addLeaf_internal_fails:
  assumes "addLeaf_internal H md nodes (leaf_node i v) (hash_of H t) d = Inl e"
    and "stored H nodes t" and "nodeType (nodes 0) = EMPTY" and "addressed_nodes H nodes"
  shows "failed H nodes (ins md d i v t) e"
  using assms(1,2)
proof (induction t arbitrary: d e)
  case E
  show ?case
  proof (cases "d > md")
    case True
    with E show ?thesis by (simp add: addLeaf_internal.simps failed_def)
  next
    case False
    with E have "addNode H nodes (leaf_node i v) = Inl e"
      using assms(3) by (simp add: addLeaf_internal.simps)
    from addNode_fails [OF this assms(4) subset_refl] False show ?thesis by (simp add: failed_def)
  qed
next
  case (L j w)
  have read: "nodes (hash_of H (L j w)) = leaf_node j w" using L.prems(2) by simp
  note run = L.prems(1) [unfolded addLeaf_internal.simps [of H md nodes _ "hash_of H (L j w)"] read]
  show ?case
  proof (cases "d > md")
    case True
    with run show ?thesis by (simp add: failed_def)
  next
    case d: False
    show ?thesis
    proof (cases "j = i")
      case True
      with run d have "addNode H nodes (leaf_node i v) = Inl e" by simp
      from addNode_fails [OF this assms(4) subset_refl] d True show ?thesis by (simp add: failed_def)
    next
      case False
      with run d have "pushLeaf H md nodes (leaf_node i v) (leaf_node j w) d = Inl e" by simp
      from pushLeaf_fails [OF this L.prems(2) assms(4)] d False show ?thesis by simp
    qed
  qed
next
  case (M l r)
  have read: "nodes (hash_of H (M l r)) = middle_node (hash_of H l) (hash_of H r)"
    and sub: "stored H nodes l" "stored H nodes r"
    using M.prems(2) by simp_all
  note run = M.prems(1) [unfolded addLeaf_internal.simps [of H md nodes _ "hash_of H (M l r)"] read]
  have after: "failed H nodes (map_option f (ins md (Suc d) i v u)) e'"
    if run: "addLeaf_internal H md nodes (leaf_node i v) (hash_of H u) (Suc d) = Inr (nodes1, h1)"
      and sub: "stored H nodes u" and add: "addNode H nodes1 n = Inl e'"
      and f: "\<And>t. h1 = hash_of H t \<Longrightarrow> insert n (trie_nodes H t) \<subseteq> trie_nodes H (f t)" for u nodes1 h1 n e' f
  proof -
    obtain t where t: "ins md (Suc d) i v u = Some t" "wrote H nodes t (nodes1, h1)"
      using addLeaf_internal_refines [OF run sub assms(3)] by blast
    then have parts: "h1 = hash_of H t" "addressed_nodes H nodes1"
      "store_nodes nodes1 \<subseteq> store_nodes nodes \<union> trie_nodes H t"
      using assms(4) by (simp_all add: wrote_def)
    have "e' = AssertFailed \<and> hash_clash H (store_nodes nodes \<union> trie_nodes H (f t))"
      by (rule addNode_fails [OF add parts(2)]) (use parts(3) f [OF parts(1)] in blast)
    then show ?thesis by (simp add: t(1) failed_def)
  qed
  show ?case
  proof (cases "d > md")
    case True
    with run show ?thesis by (simp add: failed_def)
  next
    case d: False
    show ?thesis
    proof (cases "bit i d")
      case True
      from run d True consider
        "addLeaf_internal H md nodes (leaf_node i v) (hash_of H r) (Suc d) = Inl e"
      | nodes1 h1 where "addLeaf_internal H md nodes (leaf_node i v) (hash_of H r) (Suc d) = Inr (nodes1, h1)"
          "addNode H nodes1 (middle_node (hash_of H l) h1) = Inl e"
        by (auto simp: Let_def bit_at_bit bind_sol_Inl)
      then have "failed H nodes (map_option (M l) (ins md (Suc d) i v r)) e"
      proof cases
        case 1
        from M.IH(2) [OF 1 sub(2)] show ?thesis by (rule failed_map) auto
      next
        case 2
        show ?thesis by (rule after [OF 2(1) sub(2) 2(2)]) auto
      qed
      with d True show ?thesis by simp
    next
      case False
      from run d False consider
        "addLeaf_internal H md nodes (leaf_node i v) (hash_of H l) (Suc d) = Inl e"
      | nodes1 h1 where "addLeaf_internal H md nodes (leaf_node i v) (hash_of H l) (Suc d) = Inr (nodes1, h1)"
          "addNode H nodes1 (middle_node h1 (hash_of H r)) = Inl e"
        by (auto simp: Let_def bit_at_bit bind_sol_Inl)
      then have "failed H nodes (map_option (\<lambda>t. M t r) (ins md (Suc d) i v l)) e"
      proof cases
        case 1
        from M.IH(1) [OF 1 sub(1)] show ?thesis by (rule failed_map) auto
      next
        case 2
        show ?thesis by (rule after [OF 2(1) sub(1) 2(2)]) auto
      qed
      with d False show ?thesis by simp
    qed
  qed
qed

end
