(* ===== verification/SmtShape.thy ===== *)
theory SmtShape
  imports SmtTrie
begin

text \<open>
  The shape of the tries that insertion builds: how lookups change, how deep they are, that each
  leaf lies on the path of its index, that no subtree is deeper than its leaves need; and, as a
  consequence, that a map has one trie.
\<close>

section \<open>Lookup after insertion\<close>

lemma lookup_push:
  assumes "push md d i v j w = Some t" and "i \<noteq> j"
  shows "lookup d t k = (if k = i then Some v else if k = j then Some w else None)"
  using assms
proof (induction md d i v j w arbitrary: t rule: push.induct)
  case (1 md d i v j w)
  from "1.prems"(1) have d: "\<not> d \<ge> md" by (subst (asm) push.simps) (auto split: if_splits)
  show ?case
  proof (cases "bit i d = bit j d")
    case True
    with "1.prems"(1) d obtain u where u: "push md (Suc d) i v j w = Some u"
      "t = (if bit i d then M E u else M u E)"
      by (subst (asm) push.simps) auto
    have "lookup (Suc d) u k = (if k = i then Some v else if k = j then Some w else None)"
      by (rule "1.IH" [OF d True u(1) "1.prems"(2)])
    with True u(2) show ?thesis
      by (cases "bit i d"; cases "bit k d"; cases "k = i"; cases "k = j") simp_all
  next
    case False
    with "1.prems" d show ?thesis by (subst (asm) push.simps) (auto split: if_splits)
  qed
qed

lemma lookup_ins:
  "ins md d i v t = Some t' \<Longrightarrow> lookup d t' k = ((lookup d t)(i \<mapsto> v)) k"
proof (induction md d i v t arbitrary: t' rule: ins.induct)
  case (1 md d i v)
  then show ?case by (auto split: if_splits)
next
  case (2 md d i v j w)
  then show ?case using lookup_push [of md d i v j w t' k] by (auto split: if_splits)
next
  case (3 md d i v l r)
  then show ?case by (cases "d > md"; cases "bit i d") (auto split: if_splits)
qed

section \<open>Depth\<close>

text \<open>\<open>fits md d t\<close>: at depth \<open>d\<close>, no node of \<open>t\<close> is below \<open>md\<close> and no middle node is at \<open>md\<close>.\<close>

fun fits :: "nat \<Rightarrow> nat \<Rightarrow> trie \<Rightarrow> bool" where
  "fits md d E = (d \<le> md)"
| "fits md d (L i v) = (d \<le> md)"
| "fits md d (M l r) = (d < md \<and> fits md (Suc d) l \<and> fits md (Suc d) r)"

lemma fits_push: "push md d i v j w = Some t \<Longrightarrow> fits md d t"
proof (induction md d i v j w arbitrary: t rule: push.induct)
  case (1 md d i v j w)
  from "1.prems" have d: "\<not> d \<ge> md" by (subst (asm) push.simps) (auto split: if_splits)
  show ?case
  proof (cases "bit i d = bit j d")
    case True
    with "1.prems" d obtain u where u: "push md (Suc d) i v j w = Some u"
      "t = (if bit i d then M E u else M u E)"
      by (subst (asm) push.simps) auto
    with "1.IH" [OF d True u(1)] d show ?thesis by auto
  next
    case False
    with "1.prems" d show ?thesis by (subst (asm) push.simps) (auto split: if_splits)
  qed
qed

lemma fits_ins: "ins md d i v t = Some t' \<Longrightarrow> fits md d t \<Longrightarrow> fits md d t'"
proof (induction md d i v t arbitrary: t' rule: ins.induct)
  case (2 md d i v j w)
  then show ?case using fits_push [of md d i v j w t'] by (auto split: if_splits)
next
  case (3 md d i v l r)
  then show ?case by (cases "d > md"; cases "bit i d") (auto split: if_splits)
qed (auto split: if_splits)

lemma fits_mono: "fits md d t \<Longrightarrow> md \<le> md' \<Longrightarrow> fits md' d t"
  by (induction md d t rule: fits.induct) auto

text \<open>Insertion fails only on two indices that agree on all bits above the maximal depth.\<close>

lemma push_None:
  "push md d i v j w = None \<Longrightarrow> d \<le> k \<Longrightarrow> k < md \<Longrightarrow> bit i k = bit j k"
proof (induction md d i v j w rule: push.induct)
  case (1 md d i v j w)
  then have d: "\<not> d \<ge> md" by simp
  with "1.prems"(1) have eq: "bit i d = bit j d" and rec: "push md (Suc d) i v j w = None"
    by (subst (asm) push.simps; auto split: if_splits)+
  show ?case
  proof (cases "k = d")
    case True
    with eq show ?thesis by simp
  next
    case False
    with "1.IH" [OF d eq rec] "1.prems"(2,3) show ?thesis by simp
  qed
qed

section \<open>Paths and minimality\<close>

fun indices :: "trie \<Rightarrow> uint256 set" where
  "indices E = {}"
| "indices (L i v) = {i}"
| "indices (M l r) = indices l \<union> indices r"

fun on_path :: "nat \<Rightarrow> trie \<Rightarrow> bool" where
  "on_path d (M l r) =
     ((\<forall>i \<in> indices l. \<not> bit i d) \<and> (\<forall>i \<in> indices r. bit i d) \<and> on_path (Suc d) l \<and> on_path (Suc d) r)"
| "on_path d t = True"

fun single :: "trie \<Rightarrow> bool" where
  "single (M l r) = False"
| "single t = True"

fun minimal :: "trie \<Rightarrow> bool" where
  "minimal (M l r) = (minimal l \<and> minimal r \<and> \<not> (l = E \<and> single r) \<and> \<not> (r = E \<and> single l))"
| "minimal t = True"

lemma push_shape:
  "push md d i v j w = Some t \<Longrightarrow> indices t = {i, j} \<and> on_path d t \<and> minimal t \<and> \<not> single t"
proof (induction md d i v j w arbitrary: t rule: push.induct)
  case (1 md d i v j w)
  from "1.prems" have d: "\<not> d \<ge> md" by (subst (asm) push.simps) (auto split: if_splits)
  show ?case
  proof (cases "bit i d = bit j d")
    case True
    with "1.prems" d obtain u where u: "push md (Suc d) i v j w = Some u"
      "t = (if bit i d then M E u else M u E)"
      by (subst (asm) push.simps) auto
    with "1.IH" [OF d True u(1)] True show ?thesis by auto
  next
    case False
    with "1.prems" d show ?thesis by (subst (asm) push.simps) (auto split: if_splits)
  qed
qed

lemma ins_shape:
  "ins md d i v t = Some t' \<Longrightarrow> on_path d t \<Longrightarrow> minimal t \<Longrightarrow>
     indices t' = insert i (indices t) \<and> on_path d t' \<and> minimal t' \<and> (single t' \<longrightarrow> single t) \<and> t' \<noteq> E"
proof (induction md d i v t arbitrary: t' rule: ins.induct)
  case (2 md d i v j w)
  then show ?case using push_shape [of md d i v j w t'] by (auto split: if_splits)
next
  case (3 md d i v l r)
  show ?case
  proof (cases "bit i d")
    case True
    with "3.prems" obtain u where u: "\<not> d > md" "ins md (Suc d) i v r = Some u" "t' = M l u"
      by (auto split: if_splits)
    with "3.IH"(1) [OF u(1) True u(2)] "3.prems" True show ?thesis by auto
  next
    case False
    with "3.prems" obtain u where u: "\<not> d > md" "ins md (Suc d) i v l = Some u" "t' = M u r"
      by (auto split: if_splits)
    with "3.IH"(2) [OF u(1) False u(2)] "3.prems" False show ?thesis by auto
  qed
qed (auto split: if_splits)

lemma ins_None:
  "ins md d i v t = None \<Longrightarrow> fits md d t \<Longrightarrow> on_path d t \<Longrightarrow>
     \<exists>j \<in> indices t. j \<noteq> i \<and> (\<forall>k. d \<le> k \<and> k < md \<longrightarrow> bit i k = bit j k)"
proof (induction md d i v t rule: ins.induct)
  case (1 md d i v)
  then show ?case by (simp split: if_splits)
next
  case (2 md d i v j w)
  then have "j \<noteq> i" "push md d i v j w = None" by (auto split: if_splits)
  with push_None [OF this(2)] show ?case by auto
next
  case (3 md d i v l r)
  then have d: "\<not> d > md" by simp
  have step: "\<forall>k. d \<le> k \<and> k < md \<longrightarrow> bit i k = bit j k"
    if "bit i d = bit j d" "\<forall>k. Suc d \<le> k \<and> k < md \<longrightarrow> bit i k = bit j k" for j
    using that by (metis Suc_leI le_eq_less_or_eq)
  show ?case
  proof (cases "bit i d")
    case True
    with "3.prems" d have "ins md (Suc d) i v r = None" by simp
    with "3.IH"(1) [OF d True] "3.prems"(2,3) obtain j where "j \<in> indices r" "j \<noteq> i"
      "\<forall>k. Suc d \<le> k \<and> k < md \<longrightarrow> bit i k = bit j k" by auto
    with "3.prems"(3) True step [of j] show ?thesis by auto
  next
    case False
    with "3.prems" d have "ins md (Suc d) i v l = None" by simp
    with "3.IH"(2) [OF d False] "3.prems"(2,3) obtain j where "j \<in> indices l" "j \<noteq> i"
      "\<forall>k. Suc d \<le> k \<and> k < md \<longrightarrow> bit i k = bit j k" by auto
    with "3.prems"(3) False step [of j] show ?thesis by auto
  qed
qed

text \<open>And two such indices always make it fail.\<close>

lemma push_blocked:
  "(\<And>k. d \<le> k \<Longrightarrow> k < md \<Longrightarrow> bit i k = bit j k) \<Longrightarrow> push md d i v j w = None"
proof (induction md d i v j w rule: push.induct)
  case (1 md d i v j w)
  show ?case
  proof (cases "d \<ge> md")
    case True
    then show ?thesis by (simp add: push.simps [of md])
  next
    case False
    with "1.prems" have eq: "bit i d = bit j d" by simp
    have "push md (Suc d) i v j w = None" by (rule "1.IH" [OF False eq]) (use "1.prems" in simp)
    with eq show ?thesis by (subst push.simps) simp
  qed
qed

lemma ins_blocked:
  "fits md d t \<Longrightarrow> on_path d t \<Longrightarrow> j \<in> indices t \<Longrightarrow> j \<noteq> i \<Longrightarrow>
     (\<And>k. d \<le> k \<Longrightarrow> k < md \<Longrightarrow> bit i k = bit j k) \<Longrightarrow> ins md d i v t = None"
proof (induction t arbitrary: d)
  case (L j' w)
  then show ?case using push_blocked [of d md i j v w] by simp
next
  case (M l r)
  then have "bit i d = bit j d" by simp
  with M.prems M.IH(1) [of "Suc d"] M.IH(2) [of "Suc d"] show ?case by auto
qed simp

section \<open>One trie per map\<close>

lemma lookup_None: "i \<notin> indices t \<Longrightarrow> lookup d t i = None"
  by (induction d t i rule: lookup.induct) auto

lemma lookup_dom: "on_path d t \<Longrightarrow> lookup d t i \<noteq> None \<longleftrightarrow> i \<in> indices t"
proof (induction d t i rule: lookup.induct)
  case (3 d l r i)
  then show ?case using lookup_None [of i l] lookup_None [of i r] by auto
qed auto

lemma indices_lookup: "on_path d t \<Longrightarrow> indices t = {i. lookup d t i \<noteq> None}"
  using lookup_dom [of d t] by blast

lemma minimal_nonempty: "minimal t \<Longrightarrow> t \<noteq> E \<Longrightarrow> indices t \<noteq> {}"
proof (induction t)
  case (M l r)
  then show ?case by (cases "l = E"; cases "r = E") auto
qed simp_all

lemma minimal_two:
  assumes "minimal (M l r)" and "on_path d (M l r)"
  shows "\<exists>i \<in> indices (M l r). \<exists>j \<in> indices (M l r). i \<noteq> j"
  using assms
proof (induction "M l r" arbitrary: l r d)
  case (M l r)
  show ?case
  proof (cases "l = E \<or> r = E")
    case False
    then obtain i j where "i \<in> indices l" "j \<in> indices r"
      using minimal_nonempty [of l] minimal_nonempty [of r] M.prems by auto
    moreover have "i \<noteq> j" using calculation M.prems(2) by auto
    ultimately show ?thesis by auto
  next
    case True
    then show ?thesis
    proof
      assume "l = E"
      with M.prems obtain a b where "r = M a b" by (cases r) auto
      with M.hyps(2) [OF this, of "Suc d"] M.prems show ?thesis by auto
    next
      assume "r = E"
      with M.prems obtain a b where "l = M a b" by (cases l) auto
      with M.hyps(1) [OF this, of "Suc d"] M.prems show ?thesis by auto
    qed
  qed
qed

lemma lookup_left: "on_path d (M l r) \<Longrightarrow> lookup (Suc d) l i = (if bit i d then None else lookup d (M l r) i)"
  using lookup_None [of i l "Suc d"] by auto

lemma lookup_right: "on_path d (M l r) \<Longrightarrow> lookup (Suc d) r i = (if bit i d then lookup d (M l r) i else None)"
  using lookup_None [of i r "Suc d"] by auto

lemma trie_unique:
  assumes "on_path d t" "on_path d u" "minimal t" "minimal u"
    and "\<And>i. lookup d t i = lookup d u i"
  shows "t = u"
  using assms
proof (induction t arbitrary: d u)
  case E
  then have "indices u = indices E" by (simp only: indices_lookup [of d])
  with E.prems show ?case using minimal_nonempty [of u] by auto
next
  case (L i v)
  then have inds: "indices u = indices (L i v)" by (simp only: indices_lookup [of d])
  show ?case
  proof (cases u)
    case (M a b)
    with inds minimal_two [of a b d] L.prems(2,4) show ?thesis by simp
  next
    case (L j w)
    with inds L.prems(5) [of i] show ?thesis by simp
  qed (use inds in simp)
next
  case (M l r)
  then have inds: "indices u = indices (M l r)" by (simp only: indices_lookup [of d])
  obtain i j where ij: "i \<in> indices u" "j \<in> indices u" "i \<noteq> j"
    using minimal_two [OF M.prems(3,1)] inds by blast
  then obtain l' r' where u: "u = M l' r'" by (cases u) auto
  have path: "on_path d (M l' r')" using M.prems(2) u by simp
  have eq: "lookup d (M l r) i = lookup d (M l' r') i" for i using M.prems(5) [of i] u by simp
  have "l = l'"
  proof (rule M.IH(1) [of "Suc d"])
    show "lookup (Suc d) l i = lookup (Suc d) l' i" for i
      by (simp only: lookup_left [OF M.prems(1)] lookup_left [OF path] eq)
  qed (use M.prems(1-4) u in simp_all)
  moreover have "r = r'"
  proof (rule M.IH(2) [of "Suc d"])
    show "lookup (Suc d) r i = lookup (Suc d) r' i" for i
      by (simp only: lookup_right [OF M.prems(1)] lookup_right [OF path] eq)
  qed (use M.prems(1-4) u in simp_all)
  ultimately show ?case by (simp add: u)
qed

text \<open>A canonical trie has its leaves on their paths and no subtree deeper than needed: a map has
  at most one.\<close>

definition canonical :: "trie \<Rightarrow> bool" where
  "canonical t \<longleftrightarrow> on_path 0 t \<and> minimal t"

lemma canonical_unique: "canonical t \<Longrightarrow> canonical u \<Longrightarrow> lookup 0 t = lookup 0 u \<Longrightarrow> t = u"
  using trie_unique [of 0 t u] by (simp add: canonical_def)

end
