(* ===== verification/SmtHistory.thy ===== *)
theory SmtHistory
  imports SmtNodes
begin

text \<open>
  The root history of the sparse Merkle tree (\<open>SmtLib.sol\<close>): its entries, the index from a root to
  its occurrences, the reading functions, and the binary search over creation times of the
  library \<open>BinarySearchSmtRoots\<close>.  Array positions are natural numbers, as an array is always
  shorter than \<open>2^256\<close>; subtraction from them is checked as in Solidity.
\<close>

section \<open>State\<close>

record RootEntry =
  root :: uint256
  createdAtTimestamp :: uint256
  createdAtBlock :: uint256

record RootEntryInfo =
  info_root :: uint256
  replacedByRoot :: uint256
  info_createdAtTimestamp :: uint256
  replacedAtTimestamp :: uint256
  info_createdAtBlock :: uint256
  replacedAtBlock :: uint256

record smt_data =
  nodes :: node_store
  rootEntries :: "RootEntry list"
  rootIndexes :: "uint256 \<Rightarrow> nat list"
  maxDepth :: uint256
  initialized :: bool

record block_env =
  block_timestamp :: uint256
  block_number :: uint256

definition ROOT_INFO_LIST_RETURN_LIMIT :: nat where
  "ROOT_INFO_LIST_RETURN_LIMIT = 1000"

definition MAX_DEPTH_HARD_CAP :: uint256 where
  "MAX_DEPTH_HARD_CAP = 256"

section \<open>Entries\<close>

text \<open>\<open>xs.length - 1\<close> with checked subtraction.\<close>

definition last_index :: "'a list \<Rightarrow> sol_error + nat" where
  "last_index xs = (if xs = [] then Inl ArithmeticOverflow else Inr (length xs - 1))"

definition addEntry :: "smt_data \<Rightarrow> uint256 \<Rightarrow> uint256 \<Rightarrow> uint256 \<Rightarrow> smt_data" where
  "addEntry self r timestamp blk =
     (let self = self\<lparr>rootEntries := rootEntries self @
            [\<lparr>root = r, createdAtTimestamp = timestamp, createdAtBlock = blk\<rparr>]\<rparr>
      in self\<lparr>rootIndexes := (rootIndexes self)(r := rootIndexes self r @ [length (rootEntries self) - 1])\<rparr>)"

definition isInitialized :: "smt_data \<Rightarrow> bool" where
  "isInitialized self = initialized self"

definition getRoot :: "smt_data \<Rightarrow> sol_error + uint256" where
  "getRoot self =
     bind_sol (require (isInitialized self) ''Smt is not initialized'') (\<lambda>_.
     bind_sol (last_index (rootEntries self)) (\<lambda>i.
     bind_sol (array_at (rootEntries self) i) (\<lambda>e. Inr (root e))))"

definition rootExists :: "smt_data \<Rightarrow> uint256 \<Rightarrow> bool" where
  "rootExists self r = (length (rootIndexes self r) > 0)"

definition getRootHistoryLength :: "smt_data \<Rightarrow> nat" where
  "getRootHistoryLength self = length (rootEntries self)"

definition getRootInfoByIndex :: "smt_data \<Rightarrow> nat \<Rightarrow> sol_error + RootEntryInfo" where
  "getRootInfoByIndex self i =
     bind_sol (last_index (rootEntries self)) (\<lambda>lastIndex.
       let isLastRoot = (i = lastIndex) in
     bind_sol (array_at (rootEntries self) i) (\<lambda>e.
     bind_sol
       (if isLastRoot then Inr (0, 0, 0)
        else bind_sol (array_at (rootEntries self) (i + 1))
               (\<lambda>n. Inr (root n, createdAtTimestamp n, createdAtBlock n)))
       (\<lambda>(r, t, b).
         Inr \<lparr>info_root = root e, replacedByRoot = r,
              info_createdAtTimestamp = createdAtTimestamp e, replacedAtTimestamp = t,
              info_createdAtBlock = createdAtBlock e, replacedAtBlock = b\<rparr>)))"

definition onlyExistingRoot :: "smt_data \<Rightarrow> uint256 \<Rightarrow> sol_error + unit" where
  "onlyExistingRoot self r = require (rootExists self r) ''Root does not exist''"

definition getRootInfo :: "smt_data \<Rightarrow> uint256 \<Rightarrow> sol_error + RootEntryInfo" where
  "getRootInfo self r =
     bind_sol (onlyExistingRoot self r) (\<lambda>_.
     bind_sol (last_index (rootIndexes self r)) (\<lambda>l.
     bind_sol (array_at (rootIndexes self r) l) (\<lambda>lastIndex.
     getRootInfoByIndex self lastIndex)))"

definition getRootInfoListLengthByRoot :: "smt_data \<Rightarrow> uint256 \<Rightarrow> nat" where
  "getRootInfoListLengthByRoot self r = length (rootIndexes self r)"

text \<open>The loop \<open>for (i = start; i < end; i++) result[i - start] = f(i)\<close> with \<open>n = end - start\<close>.\<close>

fun collect :: "(nat \<Rightarrow> sol_error + 'a) \<Rightarrow> nat \<Rightarrow> nat \<Rightarrow> sol_error + 'a list" where
  "collect f start 0 = Inr []"
| "collect f start (Suc n) =
     bind_sol (f start) (\<lambda>x. bind_sol (collect f (Suc start) n) (\<lambda>xs. Inr (x # xs)))"

definition collect_range :: "(nat \<Rightarrow> sol_error + 'a) \<Rightarrow> nat \<times> nat \<Rightarrow> sol_error + 'a list" where
  "collect_range f = (\<lambda>(start, stop).
     if stop < start then Inl ArithmeticOverflow else collect f start (stop - start))"

text \<open>
  \<open>calculateBounds len start length limit\<close> is \<open>ArrayUtils.calculateBounds\<close>, which is not part of
  the repository.
\<close>

type_synonym calculate_bounds = "nat \<Rightarrow> uint256 \<Rightarrow> uint256 \<Rightarrow> nat \<Rightarrow> sol_error + (nat \<times> nat)"

definition getRootHistory ::
  "calculate_bounds \<Rightarrow> smt_data \<Rightarrow> uint256 \<Rightarrow> uint256 \<Rightarrow> sol_error + RootEntryInfo list" where
  "getRootHistory calculateBounds self startIndex len =
     bind_sol (calculateBounds (length (rootEntries self)) startIndex len ROOT_INFO_LIST_RETURN_LIMIT)
       (collect_range (getRootInfoByIndex self))"

definition getRootInfoListByRoot ::
  "calculate_bounds \<Rightarrow> smt_data \<Rightarrow> uint256 \<Rightarrow> uint256 \<Rightarrow> uint256 \<Rightarrow> sol_error + RootEntryInfo list" where
  "getRootInfoListByRoot calculateBounds self r startIndex len =
     bind_sol (onlyExistingRoot self r) (\<lambda>_.
     bind_sol (calculateBounds (length (rootIndexes self r)) startIndex len ROOT_INFO_LIST_RETURN_LIMIT)
       (collect_range (\<lambda>i. bind_sol (array_at (rootIndexes self r) i) (getRootInfoByIndex self))))"

section \<open>Binary search\<close>

datatype SearchType = TIMESTAMP | BLOCK

primrec fieldSelector :: "RootEntry \<Rightarrow> SearchType \<Rightarrow> uint256" where
  "fieldSelector rti BLOCK = createdAtBlock rti"
| "fieldSelector rti TIMESTAMP = createdAtTimestamp rti"

text \<open>The two fields are all there are, so that quantifiers over them compute.\<close>

instantiation SearchType :: enum
begin

definition enum_SearchType :: "SearchType list" where
  "enum_SearchType = [TIMESTAMP, BLOCK]"

definition enum_all_SearchType :: "(SearchType \<Rightarrow> bool) \<Rightarrow> bool" where
  "enum_all_SearchType P \<longleftrightarrow> P TIMESTAMP \<and> P BLOCK"

definition enum_ex_SearchType :: "(SearchType \<Rightarrow> bool) \<Rightarrow> bool" where
  "enum_ex_SearchType P \<longleftrightarrow> P TIMESTAMP \<or> P BLOCK"

instance
proof
  show univ: "(UNIV :: SearchType set) = set enum_class.enum"
    by (auto simp: enum_SearchType_def intro: SearchType.exhaust)
  show "distinct (enum_class.enum :: SearchType list)" by (simp add: enum_SearchType_def)
  show "enum_class.enum_all P \<longleftrightarrow> Ball UNIV P" for P :: "SearchType \<Rightarrow> bool"
    by (simp add: univ enum_SearchType_def enum_all_SearchType_def)
  show "enum_class.enum_ex P \<longleftrightarrow> Bex UNIV P" for P :: "SearchType \<Rightarrow> bool"
    by (simp add: univ enum_SearchType_def enum_ex_SearchType_def)
qed

end

text \<open>The field's value for a root created now.\<close>

primrec moment :: "SearchType \<Rightarrow> block_env \<Rightarrow> uint256" where
  "moment TIMESTAMP e = block_timestamp e"
| "moment BLOCK e = block_number e"

lemma fieldSelector_now [simp]:
  "fieldSelector \<lparr>root = r, createdAtTimestamp = block_timestamp e, createdAtBlock = block_number e\<rparr> st = moment st e"
  by (cases st) simp_all

lemma fieldSelector_zero [simp]:
  "fieldSelector \<lparr>root = r, createdAtTimestamp = 0, createdAtBlock = 0\<rparr> st = 0"
  by (cases st) simp_all

text \<open>The inner loop: from a hit to the last entry with the same value.\<close>

function last_equal :: "RootEntry list \<Rightarrow> SearchType \<Rightarrow> uint256 \<Rightarrow> nat \<Rightarrow> sol_error + (nat \<times> bool)" where
  "last_equal es st v mid =
     (if mid < length es - 1 then
        bind_sol (array_at es (mid + 1)) (\<lambda>e.
          if fieldSelector e st = v then last_equal es st v (mid + 1) else Inr (mid, True))
      else Inr (mid, True))"
  by pat_completeness auto
termination by (relation "measure (\<lambda>(es, st, v, mid). length es - mid)") auto

function search_loop ::
  "RootEntry list \<Rightarrow> SearchType \<Rightarrow> uint256 \<Rightarrow> nat \<Rightarrow> nat \<Rightarrow> sol_error + (nat \<times> bool)" where
  "search_loop es st v mn mx =
     (if mn \<le> mx then
        let mid = (mx + mn) div 2 in
        bind_sol (array_at es mid) (\<lambda>e.
          let midValue = fieldSelector e st in
          if midValue = v then last_equal es st v mid
          else if v > midValue then search_loop es st v (mid + 1) mx
          else if v < midValue \<and> mid > 0 then search_loop es st v mn (mid - 1)
          else Inr (0, False))
      else Inr (mx, True))"
  by pat_completeness auto
termination by (relation "measure (\<lambda>(es, st, v, mn, mx). Suc mx - mn)") auto

declare last_equal.simps [simp del] search_loop.simps [simp del]

definition binarySearchUint256 ::
  "smt_data \<Rightarrow> uint256 \<Rightarrow> SearchType \<Rightarrow> sol_error + (nat \<times> bool)" where
  "binarySearchUint256 self v st =
     (if length (rootEntries self) = 0 then Inr (0, False)
      else search_loop (rootEntries self) st v 0 (length (rootEntries self) - 1))"

definition getRootInfoByTimestampOrBlock ::
  "smt_data \<Rightarrow> uint256 \<Rightarrow> SearchType \<Rightarrow> sol_error + RootEntryInfo" where
  "getRootInfoByTimestampOrBlock self v st =
     bind_sol (binarySearchUint256 self v st) (\<lambda>(i, found).
       if found then getRootInfoByIndex self i else Inl AssertFailed)"

definition getRootInfoByTime :: "block_env \<Rightarrow> smt_data \<Rightarrow> uint256 \<Rightarrow> sol_error + RootEntryInfo" where
  "getRootInfoByTime env self timestamp =
     bind_sol (require (timestamp \<le> block_timestamp env) ''No future timestamps allowed'')
       (\<lambda>_. getRootInfoByTimestampOrBlock self timestamp TIMESTAMP)"

definition getRootInfoByBlock :: "block_env \<Rightarrow> smt_data \<Rightarrow> uint256 \<Rightarrow> sol_error + RootEntryInfo" where
  "getRootInfoByBlock env self blockN =
     bind_sol (require (blockN \<le> block_number env) ''No future blocks allowed'')
       (\<lambda>_. getRootInfoByTimestampOrBlock self blockN BLOCK)"

section \<open>Logs with growing keys\<close>

text \<open>
  What a search relies on: the keys of a log grow with the position.  \<open>latest s v n\<close>: entry \<open>n\<close>
  is the last one whose key is at most \<open>v\<close>.
\<close>

locale sorted_log =
  fixes inv :: "'s \<Rightarrow> bool" and len :: "'s \<Rightarrow> nat" and key :: "'s \<Rightarrow> nat \<Rightarrow> 'k :: linorder"
  assumes keys_grow: "inv s \<Longrightarrow> i \<le> j \<Longrightarrow> j < len s \<Longrightarrow> key s i \<le> key s j"
begin

definition latest :: "'s \<Rightarrow> 'k \<Rightarrow> nat \<Rightarrow> bool" where
  "latest s v n \<longleftrightarrow> n < len s \<and> key s n \<le> v \<and> (\<forall>m < len s. key s m \<le> v \<longrightarrow> m \<le> n)"

lemma latest_unique: "latest s v m \<Longrightarrow> latest s v n \<Longrightarrow> m = n"
  unfolding latest_def by (meson le_antisym)

lemma latestI:
  assumes "inv s" and "n < len s" and "key s n \<le> v" and "Suc n < len s \<Longrightarrow> v < key s (Suc n)"
  shows "latest s v n"
  unfolding latest_def
proof (intro conjI allI impI)
  fix m
  assume m: "m < len s" "key s m \<le> v"
  show "m \<le> n"
  proof (rule ccontr)
    assume "\<not> m \<le> n"
    then have "key s (Suc n) \<le> key s m" and "Suc n < len s"
      using keys_grow [OF assms(1), of "Suc n" m] m(1) by auto
    with assms(4) m(2) show False by simp
  qed
qed (use assms in simp_all)

lemma all_later: "inv s \<Longrightarrow> v < key s 0 \<Longrightarrow> m < len s \<Longrightarrow> v < key s m"
  using keys_grow [of s 0 m] by (simp add: order_less_le_trans)

end

definition sorted_by :: "SearchType \<Rightarrow> RootEntry list \<Rightarrow> bool" where
  "sorted_by st es \<longleftrightarrow> sorted (map (\<lambda>e. fieldSelector e st) es)"

interpretation history: sorted_log "sorted_by st" length "\<lambda>es i. fieldSelector (es ! i) st" for st
  by unfold_locales (auto simp: sorted_by_def sorted_iff_nth_mono)

abbreviation latest_entry :: "SearchType \<Rightarrow> RootEntry list \<Rightarrow> uint256 \<Rightarrow> nat \<Rightarrow> bool" where
  "latest_entry st \<equiv> sorted_log.latest length (\<lambda>es i. fieldSelector (es ! i) st)"

section \<open>The search finds the latest entry\<close>

lemma last_equal_latest:
  assumes "sorted_by st es" and "mid < length es" and "fieldSelector (es ! mid) st = v"
  shows "\<exists>n. last_equal es st v mid = Inr (n, True) \<and> latest_entry st es v n"
  using assms(2,3)
proof (induction "length es - mid" arbitrary: mid rule: less_induct)
  case less
  show ?case
  proof (cases "mid < length es - 1 \<and> fieldSelector (es ! (mid + 1)) st = v")
    case True
    then have succ: "mid + 1 < length es" by linarith
    then have "length es - (mid + 1) < length es - mid" by linarith
    from less.hyps [OF this succ] True
    obtain n where "last_equal es st v (mid + 1) = Inr (n, True)" "latest_entry st es v n" by blast
    with True succ show ?thesis by (subst last_equal.simps) (simp add: array_at_def)
  next
    case False
    have "latest_entry st es v mid"
    proof (rule history.latestI [OF assms(1) less.prems(1)])
      assume suc: "Suc mid < length es"
      then have "fieldSelector (es ! mid) st \<le> fieldSelector (es ! Suc mid) st"
        by (intro history.keys_grow [OF assms(1)]) simp_all
      with False suc less.prems(2) show "v < fieldSelector (es ! Suc mid) st" by auto
    qed (use less.prems(2) in simp)
    with False show ?thesis by (subst last_equal.simps) (auto simp: array_at_def)
  qed
qed

lemma search_loop_latest:
  assumes sorted: "sorted_by st es"
    and "mx < length es" and "mn \<le> Suc mx"
    and "\<And>m. m < mn \<Longrightarrow> fieldSelector (es ! m) st < v"
    and "\<And>m. mx < m \<Longrightarrow> m < length es \<Longrightarrow> v < fieldSelector (es ! m) st"
  shows "(\<exists>n. search_loop es st v mn mx = Inr (n, True) \<and> latest_entry st es v n)
       \<or> search_loop es st v mn mx = Inr (0, False) \<and> v < fieldSelector (es ! 0) st"
  using assms(2-)
proof (induction "Suc mx - mn" arbitrary: mn mx rule: less_induct)
  case less
  show ?case
  proof (cases "mn \<le> mx")
    case False
    then have "latest_entry st es v mx"
      using less.prems by (intro history.latestI [OF sorted]) (auto simp: less_imp_le)
    with False show ?thesis by (subst search_loop.simps) simp
  next
    case True
    define mid where "mid = (mx + mn) div 2"
    have mid: "mn \<le> mid" "mid \<le> mx" "mid < length es"
      using True less.prems(1) by (auto simp: mid_def)
    let ?k = "fieldSelector (es ! mid) st"
    have step: "search_loop es st v mn mx =
        (if ?k = v then last_equal es st v mid
         else if v > ?k then search_loop es st v (mid + 1) mx
         else if v < ?k \<and> mid > 0 then search_loop es st v mn (mid - 1)
         else Inr (0, False))"
      using True mid(3) by (subst search_loop.simps) (simp add: array_at_def mid_def Let_def)
    consider "?k = v" | "?k < v" | "v < ?k" by fastforce
    then show ?thesis
    proof cases
      case 1
      then show ?thesis using last_equal_latest [OF sorted mid(3)] step by simp
    next
      case 2
      have "fieldSelector (es ! m) st < v" if "m < mid + 1" for m
        using history.keys_grow [OF sorted, of m mid] mid(3) that 2 by (simp add: order_le_less_trans)
      moreover have "search_loop es st v mn mx = search_loop es st v (mid + 1) mx"
        using 2 step by auto
      ultimately show ?thesis
        using less.hyps [of mx "mid + 1"] less.prems(1,4) mid by simp
    next
      case 3
      have later: "v < fieldSelector (es ! m) st" if "mid \<le> m" "m < length es" for m
        using history.keys_grow [OF sorted that] 3 by (simp add: order_less_le_trans)
      show ?thesis
      proof (cases "mid > 0")
        case True
        then have "search_loop es st v mn mx = search_loop es st v mn (mid - 1)"
          using 3 step by auto
        then show ?thesis
          using less.hyps [of "mid - 1" mn] less.prems(1,3) mid True later by simp
      next
        case False
        then have "search_loop es st v mn mx = Inr (0, False)" "mid = 0"
          using 3 step by auto
        then show ?thesis using 3 by simp
      qed
    qed
  qed
qed

end
