(* ===== verification/SmtProof.thy ===== *)
theory SmtProof
  imports SmtShape SmtHistory
begin

text \<open>
  Inclusion proofs of \<open>SmtLib.sol\<close>: the loop of \<open>getProofByRoot\<close>, what it returns on a stored
  trie, and the recomputation of the root by which a verifier checks a proof.
\<close>

section \<open>Building a proof\<close>

record Proof =
  p_root :: uint256
  existence :: bool
  siblings :: "uint256 list"
  p_index :: uint256
  p_value :: uint256
  auxExistence :: bool
  auxIndex :: uint256
  auxValue :: uint256

definition array_set :: "'a list \<Rightarrow> nat \<Rightarrow> 'a \<Rightarrow> sol_error + 'a list" where
  "array_set xs i x = (if i < length xs then Inr (xs[i := x]) else Inl OutOfBounds)"

text \<open>The loop \<open>for (i = 0; i <= maxDepth; i++)\<close>, with the iterations left as first argument.\<close>

fun proof_loop ::
  "nat \<Rightarrow> node_store \<Rightarrow> nat \<Rightarrow> uint256 \<Rightarrow> Proof \<Rightarrow> sol_error + Proof" where
  "proof_loop 0 ns i nextNodeHash p = Inr p"
| "proof_loop (Suc n) ns i nextNodeHash p =
     (let node = ns nextNodeHash in
      case nodeType node of
        EMPTY \<Rightarrow> Inr p
      | LEAF \<Rightarrow>
          if index node = p_index p then Inr (p\<lparr>existence := True, p_value := nvalue node\<rparr>)
          else Inr (p\<lparr>auxExistence := True, auxIndex := index node, auxValue := nvalue node,
                     p_value := nvalue node\<rparr>)
      | MIDDLE \<Rightarrow>
          if bit_at (p_index p) i then
            bind_sol (array_set (siblings p) i (childLeft node)) (\<lambda>s.
              proof_loop n ns (i + 1) (childRight node) (p\<lparr>siblings := s\<rparr>))
          else
            bind_sol (array_set (siblings p) i (childRight node)) (\<lambda>s.
              proof_loop n ns (i + 1) (childLeft node) (p\<lparr>siblings := s\<rparr>)))"

definition getProofByRoot :: "smt_data \<Rightarrow> uint256 \<Rightarrow> uint256 \<Rightarrow> sol_error + Proof" where
  "getProofByRoot self i historicalRoot =
     bind_sol (onlyExistingRoot self historicalRoot) (\<lambda>_.
       proof_loop (Suc (unat (maxDepth self))) (nodes self) 0 historicalRoot
         \<lparr>p_root = historicalRoot, existence = False, siblings = replicate (unat (maxDepth self)) 0,
          p_index = i, p_value = 0, auxExistence = False, auxIndex = 0, auxValue = 0\<rparr>)"

definition getProof :: "smt_data \<Rightarrow> uint256 \<Rightarrow> sol_error + Proof" where
  "getProof self i = bind_sol (getRoot self) (getProofByRoot self i)"

definition getProofByTime :: "block_env \<Rightarrow> smt_data \<Rightarrow> uint256 \<Rightarrow> uint256 \<Rightarrow> sol_error + Proof" where
  "getProofByTime env self i timestamp =
     bind_sol (getRootInfoByTime env self timestamp) (\<lambda>info. getProofByRoot self i (info_root info))"

definition getProofByBlock :: "block_env \<Rightarrow> smt_data \<Rightarrow> uint256 \<Rightarrow> uint256 \<Rightarrow> sol_error + Proof" where
  "getProofByBlock env self i blockNumber =
     bind_sol (getRootInfoByBlock env self blockNumber) (\<lambda>info. getProofByRoot self i (info_root info))"

section \<open>The path in the trie\<close>

text \<open>The hashes of the siblings on the path of an index, and where the path ends.\<close>

fun path_of :: "poseidon \<Rightarrow> nat \<Rightarrow> uint256 \<Rightarrow> trie \<Rightarrow> uint256 list \<times> trie" where
  "path_of H d i (M l r) =
     (if bit i d then (hash_of H l # fst (path_of H (Suc d) i r), snd (path_of H (Suc d) i r))
      else (hash_of H r # fst (path_of H (Suc d) i l), snd (path_of H (Suc d) i l)))"
| "path_of H d i t = ([], t)"

fun finish :: "trie \<Rightarrow> Proof \<Rightarrow> Proof" where
  "finish (L j w) p =
     (if j = p_index p then p\<lparr>existence := True, p_value := w\<rparr>
      else p\<lparr>auxExistence := True, auxIndex := j, auxValue := w, p_value := w\<rparr>)"
| "finish t p = p"

lemma path_length: "fits md d t \<Longrightarrow> d + length (fst (path_of H d i t)) \<le> md"
  by (induction H d i t rule: path_of.induct) auto

lemma proof_loop_path:
  assumes "stored H ns t" and "nodeType (ns 0) = EMPTY" and "fits md d t"
    and "siblings p = pre @ replicate (md - d) 0" and "length pre = d" and "md - d < n"
  shows "proof_loop n ns d (hash_of H t) p =
    Inr (finish (snd (path_of H d (p_index p) t))
      (p\<lparr>siblings := pre @ fst (path_of H d (p_index p) t)
           @ replicate (md - d - length (fst (path_of H d (p_index p) t))) 0\<rparr>))"
  using assms
proof (induction t arbitrary: d n p pre)
  case E
  then obtain k where "n = Suc k" by (cases n) auto
  with E show ?case by simp
next
  case (L j w)
  then obtain k where n: "n = Suc k" by (cases n) auto
  have read: "ns (hash_of H (L j w)) = leaf_node j w" using L.prems(1) by simp
  show ?case unfolding n proof_loop.simps read using L.prems(4) by simp
next
  case (M l r)
  then obtain k where n: "n = Suc k" by (cases n) auto
  have read: "ns (hash_of H (M l r)) = middle_node (hash_of H l) (hash_of H r)"
    and sub: "stored H ns l" "stored H ns r" using M.prems(1) by simp_all
  have d: "d < md" "fits md (Suc d) l" "fits md (Suc d) r" using M.prems(3) by simp_all
  have rep: "replicate (md - d) (0 :: uint256) = 0 # replicate (md - Suc d) 0"
    using d(1) by (metis Suc_diff_Suc replicate_Suc)
  have set: "array_set (siblings p) d x = Inr ((pre @ [x]) @ replicate (md - Suc d) 0)" for x
    using M.prems(4,5) d(1) by (simp add: array_set_def rep list_update_append)
  have len: "length (pre @ [x]) = Suc d" for x :: uint256 using M.prems(5) by simp
  have k: "md - Suc d < k" using M.prems(6) n d(1) by simp
  show ?case
  proof (cases "bit (p_index p) d")
    case True
    let ?p = "p\<lparr>siblings := (pre @ [hash_of H l]) @ replicate (md - Suc d) 0\<rparr>"
    have "proof_loop k ns (Suc d) (hash_of H r) ?p =
      Inr (finish (snd (path_of H (Suc d) (p_index p) r))
        (?p\<lparr>siblings := (pre @ [hash_of H l]) @ fst (path_of H (Suc d) (p_index p) r)
           @ replicate (md - Suc d - length (fst (path_of H (Suc d) (p_index p) r))) 0\<rparr>))"
      using M.IH(2) [OF sub(2) M.prems(2) d(3) _ len k, of ?p] by simp
    with True show ?thesis
      unfolding n proof_loop.simps read by (simp add: bit_at_bit set)
  next
    case False
    let ?p = "p\<lparr>siblings := (pre @ [hash_of H r]) @ replicate (md - Suc d) 0\<rparr>"
    have "proof_loop k ns (Suc d) (hash_of H l) ?p =
      Inr (finish (snd (path_of H (Suc d) (p_index p) l))
        (?p\<lparr>siblings := (pre @ [hash_of H r]) @ fst (path_of H (Suc d) (p_index p) l)
           @ replicate (md - Suc d - length (fst (path_of H (Suc d) (p_index p) l))) 0\<rparr>))"
      using M.IH(1) [OF sub(1) M.prems(2) d(2) _ len k, of ?p] by simp
    with False show ?thesis
      unfolding n proof_loop.simps read by (simp add: bit_at_bit set)
  qed
qed

section \<open>What a proof shows\<close>

text \<open>The value that a proof attributes to its index.\<close>

definition proved_value :: "Proof \<Rightarrow> uint256 option" where
  "proved_value p = (if existence p then Some (p_value p) else None)"

lemma path_lookup:
  "lookup d t i = (case snd (path_of H d i t) of L j w \<Rightarrow> if i = j then Some w else None | _ \<Rightarrow> None)"
  by (induction H d i t rule: path_of.induct) auto

lemma path_end: "single (snd (path_of H d i t))"
  by (induction H d i t rule: path_of.induct) auto

lemma finish_proved:
  assumes "p_index p = i" and "\<not> existence p"
  shows "proved_value (finish (snd (path_of H d i t)) p) = lookup d t i"
  using assms path_end [of H d i t]
  by (cases "snd (path_of H d i t)") (auto simp: proved_value_def path_lookup [of d t i H])

text \<open>
  A verifier drops the trailing zeros of the siblings, hashes the leaf that the proof ends in and
  climbs to the root along the bits of the index.
\<close>

fun climb :: "poseidon \<Rightarrow> nat \<Rightarrow> uint256 \<Rightarrow> uint256 list \<Rightarrow> uint256 \<Rightarrow> uint256" where
  "climb H d i [] h = h"
| "climb H d i (s # ss) h =
     (if bit i d then Unit2L H s (climb H (Suc d) i ss h) else Unit2L H (climb H (Suc d) i ss h) s)"

definition trim :: "uint256 list \<Rightarrow> uint256 list" where
  "trim xs = rev (dropWhile (\<lambda>x. x = 0) (rev xs))"

definition end_hash :: "poseidon \<Rightarrow> Proof \<Rightarrow> uint256" where
  "end_hash H p =
     (if existence p then Unit3L H (p_index p) (p_value p) 1
      else if auxExistence p then Unit3L H (auxIndex p) (auxValue p) 1 else 0)"

definition verifies :: "poseidon \<Rightarrow> Proof \<Rightarrow> bool" where
  "verifies H p \<longleftrightarrow> climb H 0 (p_index p) (trim (siblings p)) (end_hash H p) = p_root p"

lemma hash_simps: "getNodeHash H (leaf_node i v) = Unit3L H i v 1"
  "getNodeHash H (middle_node l r) = Unit2L H l r"
  by (simp_all add: getNodeHash_def)

lemma path_climb: "climb H d i (fst (path_of H d i t)) (hash_of H (snd (path_of H d i t))) = hash_of H t"
  by (induction H d i t rule: path_of.induct) (auto simp: hash_simps)

lemma path_last:
  assumes "stored H ns t" and "nodeType (ns 0) = EMPTY" and "minimal t"
    and "fst (path_of H d i t) \<noteq> []"
  shows "last (fst (path_of H d i t)) \<noteq> 0"
  using assms
proof (induction H d i t rule: path_of.induct)
  case (1 H d i l r)
  have ends: "fst (path_of H (Suc d) i t) = [] \<longleftrightarrow> single t" for t by (cases t) auto
  show ?case
  proof (cases "bit i d")
    case True
    show ?thesis
    proof (cases "single r")
      case single: True
      then have "l \<noteq> E" using "1.prems"(3) by auto
      with single True ends [of r] "1.prems"(1,2) stored_nonzero [of H ns l] show ?thesis by simp
    next
      case False
      with "1.IH"(1) [OF True] ends [of r] True "1.prems" show ?thesis by simp
    qed
  next
    case False
    show ?thesis
    proof (cases "single l")
      case single: True
      then have "r \<noteq> E" using "1.prems"(3) by auto
      with single False ends [of l] "1.prems"(1,2) stored_nonzero [of H ns r] show ?thesis by simp
    next
      case notl: False
      with "1.IH"(3) [OF False] ends [of l] False "1.prems" show ?thesis by simp
    qed
  qed
qed simp_all

lemma trim_replicate:
  assumes "xs = [] \<or> last xs \<noteq> 0"
  shows "trim (xs @ replicate n 0) = xs"
proof (cases xs rule: rev_cases)
  case Nil
  then show ?thesis by (simp add: trim_def)
next
  case (snoc ys y)
  with assms have "y \<noteq> 0" by simp
  then have "dropWhile (\<lambda>x. x = 0) (replicate n 0 @ y # rev ys) = y # rev ys"
    by (subst dropWhile_append2) simp_all
  with snoc show ?thesis by (simp add: trim_def)
qed

lemma end_hash_finish:
  "single e \<Longrightarrow> \<not> existence p \<Longrightarrow> \<not> auxExistence p \<Longrightarrow> end_hash H (finish e p) = hash_of H e"
  by (cases e) (auto simp: end_hash_def hash_simps)

lemma finish_sel [simp]:
  "siblings (finish e p) = siblings p" "p_index (finish e p) = p_index p" "p_root (finish e p) = p_root p"
  by (cases e; simp)+

text \<open>The proof that \<open>getProofByRoot\<close> returns for a root that a stored trie hashes to.\<close>

lemma getProofByRoot_path:
  assumes "stored H (nodes s) t" and "nodeType (nodes s 0) = EMPTY" and "fits (unat (maxDepth s)) 0 t"
    and "rootExists s (hash_of H t)" and "minimal t"
  shows "\<exists>p. getProofByRoot s i (hash_of H t) = Inr p \<and> proved_value p = lookup 0 t i \<and> verifies H p
    \<and> p_root p = hash_of H t \<and> p_index p = i \<and> length (siblings p) = unat (maxDepth s)"
proof -
  let ?md = "unat (maxDepth s)"
  let ?p = "\<lparr>p_root = hash_of H t, existence = False, siblings = replicate ?md 0,
          p_index = i, p_value = 0, auxExistence = False, auxIndex = 0, auxValue = 0\<rparr>"
  let ?xs = "fst (path_of H 0 i t)" and ?e = "snd (path_of H 0 i t)"
  let ?q = "finish ?e (?p\<lparr>siblings := ?xs @ replicate (?md - length ?xs) 0\<rparr>)"
  have "getProofByRoot s i (hash_of H t) = Inr ?q"
    using proof_loop_path [OF assms(1-3), of ?p "[]" "Suc ?md"] assms(4)
    by (simp add: getProofByRoot_def onlyExistingRoot_def require_def del: proof_loop.simps)
  moreover have "proved_value ?q = lookup 0 t i"
    by (rule finish_proved) simp_all
  moreover have "verifies H ?q"
  proof -
    have "?xs = [] \<or> last ?xs \<noteq> 0" using path_last [OF assms(1,2,5)] by blast
    then have "trim (siblings ?q) = ?xs" by (simp add: trim_replicate)
    moreover have "end_hash H ?q = hash_of H ?e" by (rule end_hash_finish [OF path_end]) simp_all
    ultimately show ?thesis by (simp add: verifies_def path_climb)
  qed
  moreover have "length ?xs \<le> ?md" using path_length [OF assms(3)] by simp
  ultimately show ?thesis by (intro exI [of _ ?q]) simp
qed

end
