(* ===== verification/SmtContract.thy ===== *)
theory SmtContract
  imports SmtProof
begin

text \<open>
  The state-changing operations of \<open>SmtLib.sol\<close> and the states they lead to: initialisation, the
  maximal depth, adding a leaf; the transition relation of a chain that calls them at growing
  times; the invariant of every reachable state; and the small contract of \<open>PoseidonHasher.sol\<close>.
\<close>

section \<open>Operations\<close>

definition setMaxDepth :: "smt_data \<Rightarrow> uint256 \<Rightarrow> sol_error + smt_data" where
  "setMaxDepth self d =
     bind_sol (require (d > 0) ''Max depth must be greater than zero'') (\<lambda>_.
     bind_sol (require (d > maxDepth self) ''Max depth can only be increased'') (\<lambda>_.
     bind_sol (require (d \<le> MAX_DEPTH_HARD_CAP) ''Max depth is greater than hard cap'') (\<lambda>_.
       Inr (self\<lparr>maxDepth := d\<rparr>))))"

definition initialize :: "smt_data \<Rightarrow> uint256 \<Rightarrow> sol_error + smt_data" where
  "initialize self d =
     bind_sol (require (\<not> isInitialized self) ''Smt is already initialized'') (\<lambda>_.
     bind_sol (setMaxDepth self d) (\<lambda>self.
     let self = addEntry self 0 0 0 in Inr (self\<lparr>initialized := True\<rparr>)))"

definition addLeaf :: "poseidon \<Rightarrow> block_env \<Rightarrow> smt_data \<Rightarrow> uint256 \<Rightarrow> uint256 \<Rightarrow> sol_error + smt_data" where
  "addLeaf H env self i v =
     bind_sol (require (isInitialized self) ''Smt is not initialized'') (\<lambda>_.
     let node = leaf_node i v in
     bind_sol (getRoot self) (\<lambda>prevRoot.
     bind_sol (addLeaf_internal H (unat (maxDepth self)) (nodes self) node prevRoot 0) (\<lambda>(ns, newRoot).
       Inr (addEntry (self\<lparr>nodes := ns\<rparr>) newRoot (block_timestamp env) (block_number env)))))"

definition getNode :: "smt_data \<Rightarrow> uint256 \<Rightarrow> Node" where
  "getNode self nodeHash = nodes self nodeHash"

definition getMaxDepth :: "smt_data \<Rightarrow> uint256" where
  "getMaxDepth self = maxDepth self"

text \<open>\<open>setHasher\<close> is a shim without effect.\<close>

definition setHasher :: "smt_data \<Rightarrow> 'hasher \<Rightarrow> smt_data" where
  "setHasher self hasher = self"

text \<open>\<open>PoseidonHasher.hash\<close>.\<close>

definition PoseidonHasher_hash :: "poseidon \<Rightarrow> uint256 list \<Rightarrow> sol_error + uint256" where
  "PoseidonHasher_hash H inputs =
     bind_sol (require (length inputs = 3) ''PoseidonHasher: only 3-input variant supported'') (\<lambda>_.
     bind_sol (array_at inputs 0) (\<lambda>a.
     bind_sol (array_at inputs 1) (\<lambda>b.
     bind_sol (array_at inputs 2) (\<lambda>c. Inr (Unit3L H a b c)))))"

lemma PoseidonHasher_hash_leaf:
  "PoseidonHasher_hash H [i, v, 1] = Inr (getNodeHash H (leaf_node i v))"
  by (simp add: PoseidonHasher_hash_def require_def array_at_def getNodeHash_def)

section \<open>Reachable states\<close>

text \<open>The contract's storage with the current block.  Time and block number never decrease.\<close>

record chain =
  data :: smt_data
  env :: block_env

definition zero_data :: smt_data where
  "zero_data = \<lparr>nodes = (\<lambda>_. empty_node), rootEntries = [], rootIndexes = (\<lambda>_. []), maxDepth = 0,
     initialized = False\<rparr>"

datatype tx =
    Initialize uint256
  | SetMaxDepth uint256
  | AddLeaf uint256 uint256
  | NextBlock uint256 uint256

definition later_block :: "block_env \<Rightarrow> uint256 \<Rightarrow> uint256 \<Rightarrow> bool" where
  "later_block e t n \<longleftrightarrow> block_timestamp e \<le> t \<and> block_number e \<le> n"

definition apply_tx :: "poseidon \<Rightarrow> tx \<Rightarrow> chain \<Rightarrow> sol_error + chain" where
  "apply_tx H x c =
     (case x of
        Initialize d \<Rightarrow> bind_sol (initialize (data c) d) (\<lambda>s. Inr (c\<lparr>data := s\<rparr>))
      | SetMaxDepth d \<Rightarrow> bind_sol (setMaxDepth (data c) d) (\<lambda>s. Inr (c\<lparr>data := s\<rparr>))
      | AddLeaf i v \<Rightarrow> bind_sol (addLeaf H (env c) (data c) i v) (\<lambda>s. Inr (c\<lparr>data := s\<rparr>))
      | NextBlock t n \<Rightarrow>
          bind_sol (require (later_block (env c) t n) ''block out of order'')
            (\<lambda>_. Inr (c\<lparr>env := \<lparr>block_timestamp = t, block_number = n\<rparr>\<rparr>)))"

lemma later_moment:
  "later_block e t n \<Longrightarrow> moment st e \<le> moment st \<lparr>block_timestamp = t, block_number = n\<rparr>"
  by (cases st) (simp_all add: later_block_def)

inductive reachable :: "poseidon \<Rightarrow> chain \<Rightarrow> bool" for H where
  reach_start: "data c = zero_data \<Longrightarrow> reachable H c"
| reach_tx: "reachable H c \<Longrightarrow> apply_tx H x c = Inr c' \<Longrightarrow> reachable H c'"

text \<open>A run of transactions stays among the reachable states.\<close>

interpretation txs: step_invariant "reachable H" "map (apply_tx H) xs" for H xs
  by unfold_locales (auto intro: reach_tx)

lemma run_reachable: "reachable H c \<Longrightarrow> run_steps (map (apply_tx H) xs) c = Inr c' \<Longrightarrow> reachable H c'"
  by (rule txs.run_keeps)

section \<open>The invariant\<close>

text \<open>The root index lists, for every root, the positions at which it stands in the history.\<close>

definition indexed :: "smt_data \<Rightarrow> bool" where
  "indexed s \<longleftrightarrow> (\<forall>r. rootIndexes s r = filter (\<lambda>j. root (rootEntries s ! j) = r) [0..<length (rootEntries s)])"

definition dated :: "smt_data \<Rightarrow> block_env \<Rightarrow> bool" where
  "dated s e \<longleftrightarrow>
     (\<forall>st. sorted_by st (rootEntries s))
   \<and> (\<forall>st. \<forall>x \<in> set (rootEntries s). fieldSelector x st \<le> moment st e)
   \<and> (rootEntries s \<noteq> [] \<longrightarrow> hd (rootEntries s) = \<lparr>root = 0, createdAtTimestamp = 0, createdAtBlock = 0\<rparr>)"

text \<open>A trie of the contract's shape that hashes to \<open>r\<close> and is stored.\<close>

definition tree_at :: "poseidon \<Rightarrow> smt_data \<Rightarrow> uint256 \<Rightarrow> trie \<Rightarrow> bool" where
  "tree_at H s r t \<longleftrightarrow>
     r = hash_of H t \<and> stored H (nodes s) t \<and> fits (unat (maxDepth s)) 0 t \<and> on_path 0 t \<and> minimal t"

definition zero_unused :: "smt_data \<Rightarrow> bool" where
  "zero_unused s \<longleftrightarrow> nodeType (nodes s 0) = EMPTY"

definition state_ok :: "poseidon \<Rightarrow> chain \<Rightarrow> bool" where
  "state_ok H c \<longleftrightarrow>
     addressed_nodes H (nodes (data c))
   \<and> maxDepth (data c) \<le> 256 \<and> (initialized (data c) \<longrightarrow> maxDepth (data c) > 0)
   \<and> (initialized (data c) \<longleftrightarrow> rootEntries (data c) \<noteq> [])
   \<and> indexed (data c) \<and> dated (data c) (env c)
   \<and> (zero_unused (data c) \<longrightarrow> (\<forall>e \<in> set (rootEntries (data c)). \<exists>t. tree_at H (data c) (root e) t))"

lemma indexed_addEntry: "indexed s \<Longrightarrow> indexed (addEntry s r t b)"
proof -
  assume s: "indexed s"
  have "filter (\<lambda>j. root ((rootEntries s @ [e]) ! j) = q) [0..<length (rootEntries s)] =
      filter (\<lambda>j. root (rootEntries s ! j) = q) [0..<length (rootEntries s)]" for e q
    by (rule filter_cong) (auto simp: nth_append)
  with s show ?thesis by (simp add: indexed_def addEntry_def Let_def)
qed

lemma sorted_by_snoc:
  "sorted_by st es \<Longrightarrow> (\<And>e. e \<in> set es \<Longrightarrow> fieldSelector e st \<le> fieldSelector x st) \<Longrightarrow> sorted_by st (es @ [x])"
  by (auto simp: sorted_by_def sorted_append)

lemma dated_addEntry:
  assumes "dated s e" and "rootEntries s \<noteq> []"
  shows "dated (addEntry s r (block_timestamp e) (block_number e)) e"
  using assms by (auto simp: dated_def addEntry_def Let_def intro!: sorted_by_snoc)

lemma addEntry_sel [simp]:
  "nodes (addEntry s r t b) = nodes s" "maxDepth (addEntry s r t b) = maxDepth s"
  "initialized (addEntry s r t b) = initialized s"
  "rootEntries (addEntry s r t b) =
     rootEntries s @ [\<lparr>root = r, createdAtTimestamp = t, createdAtBlock = b\<rparr>]"
  by (simp_all add: addEntry_def Let_def)

lemma require_Inr [simp]: "require b m = Inr u \<longleftrightarrow> b"
  by (simp add: require_def)

lemma tree_at_extends:
  "tree_at H s r t \<Longrightarrow> extends_nodes (nodes s) (nodes s') \<Longrightarrow> maxDepth s \<le> maxDepth s' \<Longrightarrow> tree_at H s' r t"
  unfolding tree_at_def
  by (auto intro: stored_extends elim!: fits_mono simp: unat_mono word_le_nat_alt)

lemma tree_at_root0: "tree_at H s 0 E"
  by (simp add: tree_at_def)

lemma getRoot_last:
  "rootEntries s \<noteq> [] \<Longrightarrow> initialized s \<Longrightarrow> getRoot s = Inr (root (last (rootEntries s)))"
  by (simp add: getRoot_def isInitialized_def require_def last_index_def array_at_def last_conv_nth)

text \<open>What a successful \<open>addLeaf\<close> does to a state that satisfies the invariant.\<close>

lemma addLeaf_step:
  assumes ok: "state_ok H c" and run: "addLeaf H e (data c) i v = Inr s'" and zero: "zero_unused (data c)"
  shows "\<exists>ns t t'. s' = addEntry ((data c)\<lparr>nodes := ns\<rparr>) (hash_of H t') (block_timestamp e) (block_number e)
    \<and> tree_at H (data c) (root (last (rootEntries (data c)))) t
    \<and> ins (unat (maxDepth (data c))) 0 i v t = Some t'
    \<and> tree_at H s' (hash_of H t') t' \<and> extends_nodes (nodes (data c)) ns
    \<and> addressed_nodes H ns \<and> rootEntries (data c) \<noteq> []"
proof -
  let ?s = "data c"
  have init: "initialized ?s" using run by (auto simp: addLeaf_def isInitialized_def bind_sol_Inr)
  then have entries: "rootEntries ?s \<noteq> []" using ok by (simp add: state_ok_def)
  have "\<forall>e \<in> set (rootEntries ?s). \<exists>t. tree_at H ?s (root e) t"
    using ok zero by (simp add: state_ok_def)
  with last_in_set [OF entries] obtain t where t: "tree_at H ?s (root (last (rootEntries ?s))) t"
    by blast
  from run init obtain ns h where
    core: "addLeaf_internal H (unat (maxDepth ?s)) (nodes ?s) (leaf_node i v) (hash_of H t) 0 = Inr (ns, h)"
    and s': "s' = addEntry (?s\<lparr>nodes := ns\<rparr>) h (block_timestamp e) (block_number e)"
    using t by (auto simp: addLeaf_def bind_sol_Inr getRoot_last entries tree_at_def)
  obtain t' where t': "ins (unat (maxDepth ?s)) 0 i v t = Some t'" and wrote: "wrote H (nodes ?s) t' (ns, h)"
    using addLeaf_internal_refines [OF core] t zero by (auto simp: tree_at_def zero_unused_def)
  have "tree_at H s' (hash_of H t') t'"
    using wrote fits_ins [OF t'] ins_shape [OF t'] t by (simp add: tree_at_def wrote_def s')
  moreover have "addressed_nodes H ns" using wrote ok by (simp add: wrote_def state_ok_def)
  ultimately show ?thesis
    using s' t t' wrote entries by (auto simp: wrote_def)
qed

text \<open>Writing keeps the store addressed by hashes and never loses a node, also when a hash is zero.\<close>

lemma addNode_grows:
  assumes "addNode H ns n = Inr (ns', h)" and "nodeType n \<noteq> EMPTY" and "addressed_nodes H ns"
  shows "addressed_nodes H ns' \<and> extends_nodes ns ns'"
  using store.put_addressed [OF assms] store.put_extends [OF assms(1)] by blast

lemma addNode_grows_from:
  "addNode H ns1 n = Inr (ns', h) \<Longrightarrow> nodeType n \<noteq> EMPTY \<Longrightarrow>
     addressed_nodes H ns1 \<and> extends_nodes ns ns1 \<Longrightarrow> addressed_nodes H ns' \<and> extends_nodes ns ns'"
  using addNode_grows [of H ns1 n ns' h] store.kept_trans by blast

lemma pushLeaf_grows:
  "pushLeaf H md ns new old d = Inr (ns', h) \<Longrightarrow> nodeType new \<noteq> EMPTY \<Longrightarrow> addressed_nodes H ns \<Longrightarrow>
     addressed_nodes H ns' \<and> extends_nodes ns ns'"
proof (induction H md ns new old d arbitrary: ns' h rule: pushLeaf.induct)
  case (1 H md ns new old d)
  from "1.prems"(1) have d: "\<not> d \<ge> md" by (auto simp: pushLeaf.simps [of H md])
  show ?case
  proof (cases "bit_at (index new) d = bit_at (index old) d")
    case True
    with "1.prems"(1) d obtain ns1 h1
      where rec: "pushLeaf H md ns new old (d + 1) = Inr (ns1, h1)"
        and add: "addNode H ns1 (if bit_at (index new) d then middle_node 0 h1 else middle_node h1 0) = Inr (ns', h)"
      by (auto simp: pushLeaf.simps [of H md _ _ _ d] bind_sol_Inr)
    show ?thesis
      by (rule addNode_grows_from [OF add _ "1.IH" [OF d refl refl True rec "1.prems"(2,3)]]) simp
  next
    case False
    with "1.prems"(1) d obtain ns1 h1
      where put: "addNode H ns new = Inr (ns1, h1)"
        and add: "addNode H ns1
          (if bit_at (index new) d then middle_node (getNodeHash H old) (getNodeHash H new)
           else middle_node (getNodeHash H new) (getNodeHash H old)) = Inr (ns', h)"
      by (auto simp: pushLeaf.simps [of H md _ _ _ d] bind_sol_Inr Let_def)
    show ?thesis
      by (rule addNode_grows_from [OF add _ addNode_grows [OF put "1.prems"(2,3)]]) simp
  qed
qed

lemma addLeaf_internal_grows:
  "addLeaf_internal H md ns new k d = Inr (ns', h) \<Longrightarrow> nodeType new \<noteq> EMPTY \<Longrightarrow> addressed_nodes H ns \<Longrightarrow>
     addressed_nodes H ns' \<and> extends_nodes ns ns'"
proof (induction H md ns new k d arbitrary: ns' h rule: addLeaf_internal.induct)
  case (1 H md ns new k d)
  from "1.prems"(1) have d: "\<not> d > md" by (auto simp: addLeaf_internal.simps [of H md])
  note run = "1.prems"(1) [unfolded addLeaf_internal.simps [of H md ns new k d]]
  show ?case
  proof (cases "nodeType (ns k)")
    case EMPTY
    with run d addNode_grows "1.prems"(2,3) show ?thesis by simp
  next
    case LEAF
    with run d addNode_grows pushLeaf_grows "1.prems"(2,3) show ?thesis
      by (auto simp: Let_def split: if_splits)
  next
    case MIDDLE
    show ?thesis
    proof (cases "bit_at (index new) d")
      case True
      with run d MIDDLE obtain ns1 h1
        where rec: "addLeaf_internal H md ns new (childRight (ns k)) (d + 1) = Inr (ns1, h1)"
          and add: "addNode H ns1 (middle_node (childLeft (ns k)) h1) = Inr (ns', h)"
        by (auto simp: bind_sol_Inr Let_def)
      show ?thesis
        by (rule addNode_grows_from [OF add _ "1.IH"(1) [OF d refl MIDDLE True rec "1.prems"(2,3)]]) simp
    next
      case False
      with run d MIDDLE obtain ns1 h1
        where rec: "addLeaf_internal H md ns new (childLeft (ns k)) (d + 1) = Inr (ns1, h1)"
          and add: "addNode H ns1 (middle_node h1 (childRight (ns k))) = Inr (ns', h)"
        by (auto simp: bind_sol_Inr Let_def)
      show ?thesis
        by (rule addNode_grows_from [OF add _ "1.IH"(2) [OF d refl MIDDLE False rec "1.prems"(2,3)]]) simp
    qed
  qed
qed

section \<open>Every reachable state satisfies the invariant\<close>

lemma addLeaf_shape:
  assumes "addLeaf H e s i v = Inr s'"
  shows "\<exists>ns r. s' = addEntry (s\<lparr>nodes := ns\<rparr>) r (block_timestamp e) (block_number e)
    \<and> initialized s \<and> (addressed_nodes H (nodes s) \<longrightarrow> addressed_nodes H ns \<and> extends_nodes (nodes s) ns)"
proof -
  from assms obtain r0 ns r where "initialized s"
    and run: "addLeaf_internal H (unat (maxDepth s)) (nodes s) (leaf_node i v) r0 0 = Inr (ns, r)"
    and "s' = addEntry (s\<lparr>nodes := ns\<rparr>) r (block_timestamp e) (block_number e)"
    by (auto simp: addLeaf_def bind_sol_Inr isInitialized_def)
  with addLeaf_internal_grows [OF run] show ?thesis by auto
qed

lemma state_ok_addLeaf:
  assumes ok: "state_ok H c" and run: "addLeaf H (env c) (data c) i v = Inr s'"
  shows "state_ok H (c\<lparr>data := s'\<rparr>)"
proof -
  let ?s = "data c"
  obtain ns r where s': "s' = addEntry (?s\<lparr>nodes := ns\<rparr>) r (block_timestamp (env c)) (block_number (env c))"
    and init: "initialized ?s" and grow: "addressed_nodes H ns" "extends_nodes (nodes ?s) ns"
    using addLeaf_shape [OF run] ok by (auto simp: state_ok_def)
  have entries: "rootEntries ?s \<noteq> []" using ok init by (simp add: state_ok_def)
  have dated: "dated s' (env c)"
    using ok dated_addEntry [of "?s\<lparr>nodes := ns\<rparr>" "env c" r] entries
    by (simp add: s' state_ok_def dated_def)
  have indexed: "indexed s'"
    using ok indexed_addEntry [of "?s\<lparr>nodes := ns\<rparr>"] by (simp add: s' state_ok_def indexed_def)
  have trees: "\<exists>t. tree_at H s' (root e) t" if "zero_unused s'" and "e \<in> set (rootEntries s')" for e
  proof -
    have zero: "zero_unused ?s"
      using that(1) store.extends_empty [OF grow(2)] by (simp add: zero_unused_def s')
    from addLeaf_step [OF ok run zero] obtain t' where
      new: "rootEntries s' = rootEntries ?s @
        [\<lparr>root = hash_of H t', createdAtTimestamp = block_timestamp (env c), createdAtBlock = block_number (env c)\<rparr>]"
      "tree_at H s' (hash_of H t') t'" by auto
    have old: "\<exists>t. tree_at H s' (root e) t" if "e \<in> set (rootEntries ?s)"
    proof -
      from that ok zero obtain t where "tree_at H ?s (root e) t" by (auto simp: state_ok_def)
      then have "tree_at H s' (root e) t" using grow(2) by (auto simp: s' intro: tree_at_extends)
      then show ?thesis by blast
    qed
    from that(2) new old show ?thesis by auto
  qed
  show ?thesis
    using ok dated indexed trees grow(1) init by (auto simp: state_ok_def s')
qed

lemma setMaxDepth_Inr:
  "setMaxDepth s d = Inr s' \<longleftrightarrow> d > 0 \<and> d > maxDepth s \<and> d \<le> 256 \<and> s' = s\<lparr>maxDepth := d\<rparr>"
  by (auto simp: setMaxDepth_def bind_sol_Inr MAX_DEPTH_HARD_CAP_def)

lemma initialize_Inr:
  "initialize s d = Inr s' \<longleftrightarrow> \<not> initialized s \<and> d > 0 \<and> d > maxDepth s \<and> d \<le> 256
     \<and> s' = (addEntry (s\<lparr>maxDepth := d\<rparr>) 0 0 0)\<lparr>initialized := True\<rparr>"
  by (auto simp: initialize_def bind_sol_Inr setMaxDepth_Inr isInitialized_def)

lemma state_ok_setMaxDepth:
  assumes "state_ok H c" and "setMaxDepth (data c) d = Inr s'"
  shows "state_ok H (c\<lparr>data := s'\<rparr>)"
proof -
  from assms(2) have s': "s' = (data c)\<lparr>maxDepth := d\<rparr>" "d > maxDepth (data c)" "d \<le> 256" "d > 0"
    by (simp_all add: setMaxDepth_Inr)
  have "tree_at H s' r t" if "tree_at H (data c) r t" for r t
    using that s' by (auto intro: tree_at_extends simp: store.kept_refl)
  with assms(1) s' show ?thesis
    by (auto simp: state_ok_def indexed_def dated_def zero_unused_def; blast)
qed

lemma state_ok_initialize:
  assumes "state_ok H c" and "initialize (data c) d = Inr s'"
  shows "state_ok H (c\<lparr>data := s'\<rparr>)"
proof -
  let ?s = "(data c)\<lparr>maxDepth := d\<rparr>"
  from assms(2) have s': "s' = (addEntry ?s 0 0 0)\<lparr>initialized := True\<rparr>" and d: "d \<le> 256" "d > 0"
    and fresh: "\<not> initialized (data c)" by (simp_all add: initialize_Inr)
  have none: "rootEntries (data c) = []" using assms(1) fresh by (simp add: state_ok_def)
  have "indexed (addEntry ?s 0 0 0)"
    using assms(1) by (intro indexed_addEntry) (simp add: state_ok_def indexed_def)
  then have "indexed s'" by (simp add: s' indexed_def)
  moreover have "dated s' (env c)"
    by (simp add: s' dated_def none sorted_by_def)
  moreover have "\<exists>t. tree_at H s' 0 t"
    by (rule exI [of _ E]) (simp add: tree_at_def)
  ultimately show ?thesis
    using assms(1) d by (auto simp: state_ok_def s' none)
qed

lemma state_ok_start: "data c = zero_data \<Longrightarrow> state_ok H c"
  by (simp add: state_ok_def zero_data_def store.addressed_def indexed_def dated_def sorted_by_def)

lemma state_ok_block:
  assumes "state_ok H c" and "later_block (env c) t n"
  shows "state_ok H (c\<lparr>env := \<lparr>block_timestamp = t, block_number = n\<rparr>\<rparr>)"
proof -
  let ?e = "\<lparr>block_timestamp = t, block_number = n\<rparr>"
  have "moment st (env c) \<le> moment st ?e" for st using assms(2) by (rule later_moment)
  then have "fieldSelector x st \<le> moment st ?e" if "x \<in> set (rootEntries (data c))" for x st
    using order_trans [OF _ \<open>moment st (env c) \<le> moment st ?e\<close>, of "fieldSelector x st"] assms(1) that
    by (simp add: state_ok_def dated_def)
  with assms(1) show ?thesis by (simp add: state_ok_def dated_def)
qed

lemma reachable_ok: "reachable H c \<Longrightarrow> state_ok H c"
proof (induction rule: reachable.induct)
  case (reach_start c)
  then show ?case by (rule state_ok_start)
next
  case (reach_tx c x c')
  from reach_tx.hyps(2) reach_tx.IH show ?case
    by (cases x) (auto simp: apply_tx_def bind_sol_Inr state_ok_initialize state_ok_setMaxDepth
      state_ok_addLeaf state_ok_block)
qed

lemma indexed_exists:
  assumes "indexed s"
  shows "rootExists s r \<longleftrightarrow> r \<in> root ` set (rootEntries s)"
proof -
  have "rootIndexes s r \<noteq> [] \<longleftrightarrow> (\<exists>j < length (rootEntries s). root (rootEntries s ! j) = r)"
    using assms by (auto simp: indexed_def filter_empty_conv)
  then show ?thesis by (auto simp: rootExists_def set_conv_nth)
qed

text \<open>In a reachable state every existing root is the hash of a stored trie.\<close>

lemma reachable_tree:
  assumes "reachable H c" and "zero_unused (data c)" and "rootExists (data c) r"
  shows "\<exists>t. tree_at H (data c) r t"
  using reachable_ok [OF assms(1)] assms(2,3) by (auto simp: state_ok_def indexed_exists)

lemma tree_proof:
  assumes "tree_at H s r t" and "zero_unused s" and "rootExists s r"
  shows "\<exists>p. getProofByRoot s i r = Inr p \<and> proved_value p = lookup 0 t i \<and> verifies H p
    \<and> p_root p = r \<and> p_index p = i \<and> length (siblings p) = unat (maxDepth s)"
  using getProofByRoot_path [of H s t i] assms by (simp add: tree_at_def zero_unused_def)

end
