(* ===== verification/SmtSpec.thy ===== *)
theory SmtSpec
  imports SmtContract
begin

text \<open>
  What the sparse Merkle tree guarantees in every reachable state: it is a map with proofs, it
  keeps its history, its root depends on the map only, and queries by time, block or root give
  the right entry of the history.  The hypothesis \<open>zero_unused\<close> says that no stored node has
  hash zero, which the contract reads as the empty tree.
\<close>

section \<open>A sample chain\<close>

definition sample_poseidon :: poseidon where
  "sample_poseidon = \<lparr>Unit2L = (\<lambda>l r. 1000000 + 1000 * l + r), Unit3L = (\<lambda>i v k. 1000 + 10 * i + v)\<rparr>"

definition start_chain :: chain where
  "start_chain = \<lparr>data = zero_data, env = \<lparr>block_timestamp = 10, block_number = 1\<rparr>\<rparr>"

definition sample_run :: "tx list \<Rightarrow> sol_error + chain" where
  "sample_run txs = run_steps (map (apply_tx sample_poseidon) txs) start_chain"

text \<open>A chain with three blocks and a leaf in each; leaves 1 and 5 share their two lowest bits.\<close>

definition sample_txs :: "tx list" where
  "sample_txs = [Initialize 8, AddLeaf 1 7, NextBlock 20 2, AddLeaf 5 8, NextBlock 30 3, AddLeaf 2 9]"

definition sample_chain :: chain where
  "sample_chain = (case sample_run sample_txs of Inr c \<Rightarrow> c | Inl e \<Rightarrow> start_chain)"

lemma sample_run_reachable: "sample_run txs = Inr c \<Longrightarrow> reachable sample_poseidon c"
  unfolding sample_run_def
  by (rule run_reachable [OF reach_start]) (simp_all add: start_chain_def)

lemma sample_check:
  "(case sample_run sample_txs of
      Inr c \<Rightarrow> zero_unused (data c) \<and> initialized (data c) \<and> length (rootEntries (data c)) = 4
        \<and> block_timestamp (env c) = 30
    | Inl e \<Rightarrow> False)"
  by code_simp

lemma sample_chain_run: "sample_run sample_txs = Inr sample_chain"
  using sample_check by (auto simp: sample_chain_def split: sum.splits)

lemma sample_chain_facts:
  "reachable sample_poseidon sample_chain" "zero_unused (data sample_chain)"
  "initialized (data sample_chain)" "length (rootEntries (data sample_chain)) = 4"
  "block_timestamp (env sample_chain) = 30"
  using sample_check sample_run_reachable [OF sample_chain_run] by (simp_all add: sample_chain_run)

section \<open>Lemmas on reachable states\<close>

lemma reachable_root:
  assumes "reachable H c" and "initialized (data c)"
  shows "getRoot (data c) = Inr (root (last (rootEntries (data c))))"
    and "rootExists (data c) (root (last (rootEntries (data c))))"
    and "rootEntries (data c) \<noteq> []"
proof -
  have ok: "state_ok H c" by (rule reachable_ok [OF assms(1)])
  show entries: "rootEntries (data c) \<noteq> []" using ok assms(2) by (simp add: state_ok_def)
  show "getRoot (data c) = Inr (root (last (rootEntries (data c))))"
    by (rule getRoot_last [OF entries assms(2)])
  show "rootExists (data c) (root (last (rootEntries (data c))))"
    using ok entries by (simp add: state_ok_def indexed_exists)
qed

lemma exists_addEntry: "rootExists (addEntry s r t b) q \<longleftrightarrow> q = r \<or> rootExists s q"
  by (auto simp: rootExists_def addEntry_def Let_def)

text \<open>A transaction keeps the stored tries, the roots and the use of hash zero.\<close>

lemma tx_keeps:
  assumes "reachable H c" and "apply_tx H x c = Inr c'"
  shows "rootExists (data c) r \<Longrightarrow> rootExists (data c') r"
    and "tree_at H (data c) r t \<Longrightarrow> tree_at H (data c') r t"
    and "zero_unused (data c') \<Longrightarrow> zero_unused (data c)"
proof -
  have addr: "addressed_nodes H (nodes (data c))"
    using reachable_ok [OF assms(1)] by (simp add: state_ok_def)
  have grow: "extends_nodes (nodes (data c)) (nodes (data c')) \<and> maxDepth (data c) \<le> maxDepth (data c')
      \<and> (\<forall>r. rootExists (data c) r \<longrightarrow> rootExists (data c') r)"
  proof (cases x)
    case (Initialize d)
    with assms(2) show ?thesis
      by (auto simp: apply_tx_def bind_sol_Inr initialize_Inr store.kept_refl rootExists_def addEntry_def Let_def
        split: if_splits)
  next
    case (SetMaxDepth d)
    with assms(2) show ?thesis
      by (auto simp: apply_tx_def bind_sol_Inr setMaxDepth_Inr store.kept_refl rootExists_def)
  next
    case (AddLeaf i v)
    with assms(2) obtain s' where run: "addLeaf H (env c) (data c) i v = Inr s'" and c': "data c' = s'"
      by (auto simp: apply_tx_def bind_sol_Inr)
    from addLeaf_shape [OF run] addr show ?thesis
      by (auto simp: c' exists_addEntry) (auto simp: rootExists_def addEntry_def Let_def)
  next
    case (NextBlock t n)
    with assms(2) show ?thesis by (auto simp: apply_tx_def bind_sol_Inr store.kept_refl)
  qed
  then show "rootExists (data c) r \<Longrightarrow> rootExists (data c') r" by blast
  from grow show "tree_at H (data c) r t \<Longrightarrow> tree_at H (data c') r t" by (auto intro: tree_at_extends)
  from grow show "zero_unused (data c') \<Longrightarrow> zero_unused (data c)"
    using store.extends_empty by (auto simp: zero_unused_def)
qed

text \<open>The proof for the current root is the one of its trie.\<close>

lemma getProof_tree:
  assumes "reachable H c" and "initialized (data c)" and "zero_unused (data c)"
    and "tree_at H (data c) (root (last (rootEntries (data c)))) t"
  shows "\<exists>p. getProof (data c) i = Inr p \<and> proved_value p = lookup 0 t i \<and> verifies H p"
  using tree_proof [OF assms(4,3) reachable_root(2) [OF assms(1,2)], of i]
  by (auto simp: getProof_def reachable_root(1) [OF assms(1,2)])

text \<open>The content of the tree: what the proofs for the current root show of every index.\<close>

definition content :: "smt_data \<Rightarrow> (uint256 \<rightharpoonup> uint256)" where
  "content s = (\<lambda>i. case getProof s i of Inr p \<Rightarrow> proved_value p | Inl e \<Rightarrow> None)"

text \<open>The abstract tree is a finite map; of the transactions only \<open>addLeaf\<close> changes it.\<close>

definition map_step :: "tx \<Rightarrow> (uint256 \<rightharpoonup> uint256) \<Rightarrow> (uint256 \<rightharpoonup> uint256)" where
  "map_step x m = (case x of AddLeaf i v \<Rightarrow> m(i \<mapsto> v) | _ \<Rightarrow> m)"

lemma content_tree:
  assumes "reachable H c" and "initialized (data c)" and "zero_unused (data c)"
    and "tree_at H (data c) (root (last (rootEntries (data c)))) t"
  shows "content (data c) = lookup 0 t"
proof
  fix i
  from getProof_tree [OF assms, of i] show "content (data c) i = lookup 0 t i"
    by (auto simp: content_def)
qed

lemma content_uninitialized: "\<not> initialized s \<Longrightarrow> content s = Map.empty"
  by (simp add: content_def getProof_def getRoot_def isInitialized_def require_def)

text \<open>Transactions that append no root to an initialised tree keep its content.\<close>

lemma content_kept:
  assumes "reachable H c" and "apply_tx H x c = Inr c'" and "zero_unused (data c')"
    and "rootEntries (data c') = rootEntries (data c)" and "initialized (data c') = initialized (data c)"
  shows "content (data c') = content (data c)"
proof (cases "initialized (data c)")
  case True
  have zero: "zero_unused (data c)" by (rule tx_keeps(3) [OF assms(1-3)])
  obtain t where t: "tree_at H (data c) (root (last (rootEntries (data c)))) t"
    using reachable_tree [OF assms(1) zero reachable_root(2) [OF assms(1) True]] by blast
  have "tree_at H (data c') (root (last (rootEntries (data c')))) t"
    using tx_keeps(2) [OF assms(1,2) t] assms(4) by simp
  from content_tree [OF reach_tx [OF assms(1,2)] _ assms(3) this] content_tree [OF assms(1) True zero t]
  show ?thesis using True assms(5) by simp
qed (simp add: content_uninitialized assms(5))

lemma content_initialized:
  assumes "reachable H c" and "apply_tx H (Initialize d) c = Inr c'" and "zero_unused (data c')"
  shows "content (data c') = content (data c)"
proof -
  from assms(2) obtain s where c': "data c' = s" and s: "initialize (data c) d = Inr s"
    by (auto simp: apply_tx_def bind_sol_Inr)
  from s have init: "\<not> initialized (data c)" "initialized s" "last (rootEntries s) = \<lparr>root = 0, createdAtTimestamp = 0, createdAtBlock = 0\<rparr>"
    by (auto simp: initialize_Inr)
  have "tree_at H s 0 E" by (rule tree_at_root0)
  with content_tree [OF reach_tx [OF assms(1,2)] _ assms(3), of E] init c'
  show ?thesis by (simp add: content_uninitialized) (simp add: fun_eq_iff)
qed

definition info_at :: "RootEntry list \<Rightarrow> nat \<Rightarrow> RootEntryInfo" where
  "info_at es n =
     (let e = es ! n;
          nxt = (if Suc n = length es
                 then \<lparr>root = 0, createdAtTimestamp = 0, createdAtBlock = 0\<rparr> else es ! Suc n)
      in \<lparr>info_root = root e, replacedByRoot = root nxt,
          info_createdAtTimestamp = createdAtTimestamp e, replacedAtTimestamp = createdAtTimestamp nxt,
          info_createdAtBlock = createdAtBlock e, replacedAtBlock = createdAtBlock nxt\<rparr>)"

lemma getRootInfoByIndex_ok:
  assumes "n < length (rootEntries s)"
  shows "getRootInfoByIndex s n = Inr (info_at (rootEntries s) n)"
proof -
  have "rootEntries s \<noteq> []" using assms by auto
  moreover have "n = length (rootEntries s) - 1 \<longleftrightarrow> Suc n = length (rootEntries s)" using assms by auto
  ultimately show ?thesis
    using assms by (auto simp: getRootInfoByIndex_def last_index_def array_at_def info_at_def Let_def)
qed

text \<open>The leaves of the sample chain in another order, one of them overwritten.\<close>

definition other_txs :: "tx list" where
  "other_txs = [Initialize 4, AddLeaf 2 1, AddLeaf 5 8, SetMaxDepth 8, AddLeaf 1 7, AddLeaf 2 9]"

definition other_chain :: chain where
  "other_chain = (case sample_run other_txs of Inr c \<Rightarrow> c | Inl e \<Rightarrow> start_chain)"

lemma other_check:
  "(case sample_run other_txs of Inr c \<Rightarrow> zero_unused (data c) \<and> initialized (data c) | Inl e \<Rightarrow> False)"
  by code_simp

lemma other_chain_run: "sample_run other_txs = Inr other_chain"
  using other_check by (auto simp: other_chain_def split: sum.splits)

lemma other_chain_facts:
  "reachable sample_poseidon other_chain" "zero_unused (data other_chain)" "initialized (data other_chain)"
  using other_check sample_run_reachable [OF other_chain_run] by (simp_all add: other_chain_run)

text \<open>The trie of both chains.\<close>

definition sample_trie :: trie where
  "sample_trie = M (L 2 9) (M (M (L 1 7) (L 5 8)) E)"

lemma sample_tree: "tree_at sample_poseidon (data sample_chain) (root (last (rootEntries (data sample_chain)))) sample_trie"
  by code_simp

lemma other_tree: "tree_at sample_poseidon (data other_chain) (root (last (rootEntries (data other_chain)))) sample_trie"
  by code_simp

text \<open>The entry of the history that was current at a time or block.\<close>

definition current_at :: "smt_data \<Rightarrow> SearchType \<Rightarrow> uint256 \<Rightarrow> nat \<Rightarrow> bool" where
  "current_at s st v n \<longleftrightarrow> n < length (rootEntries s) \<and> fieldSelector (rootEntries s ! n) st \<le> v
     \<and> (\<forall>m. n < m \<and> m < length (rootEntries s) \<longrightarrow> v < fieldSelector (rootEntries s ! m) st)"

lemma latest_current: "latest_entry st (rootEntries s) v n \<Longrightarrow> current_at s st v n"
  by (auto simp: history.latest_def current_at_def not_le [symmetric])

lemma search_spec:
  assumes "sorted_by st (rootEntries s)" and "rootEntries s \<noteq> []"
  shows "if v < fieldSelector (rootEntries s ! 0) st then binarySearchUint256 s v st = Inr (0, False)
    else \<exists>n. binarySearchUint256 s v st = Inr (n, True) \<and> current_at s st v n"
proof -
  let ?es = "rootEntries s"
  have run: "binarySearchUint256 s v st = search_loop ?es st v 0 (length ?es - 1)"
    using assms(2) by (simp add: binarySearchUint256_def)
  have "(\<exists>n. binarySearchUint256 s v st = Inr (n, True) \<and> latest_entry st ?es v n)
      \<or> binarySearchUint256 s v st = Inr (0, False) \<and> v < fieldSelector (?es ! 0) st"
    unfolding run using assms(2) by (intro search_loop_latest [OF assms(1)]) auto
  then show ?thesis
  proof
    assume "\<exists>n. binarySearchUint256 s v st = Inr (n, True) \<and> latest_entry st ?es v n"
    then obtain n where n: "binarySearchUint256 s v st = Inr (n, True)" "latest_entry st ?es v n"
      by blast
    have "fieldSelector (?es ! 0) st \<le> fieldSelector (?es ! n) st"
      using history.keys_grow [OF assms(1), of 0 n] n(2) by (simp add: history.latest_def)
    also have "\<dots> \<le> v" using n(2) by (simp add: history.latest_def)
    finally show ?thesis using n latest_current by (auto simp: not_less)
  qed simp
qed

lemma collect_map:
  "(\<And>k. start \<le> k \<Longrightarrow> k < start + n \<Longrightarrow> f k = Inr (g k)) \<Longrightarrow> collect f start n = Inr (map g [start..<start + n])"
proof (induction n arbitrary: start)
  case 0
  show ?case by simp
next
  case (Suc n)
  then have "collect f (Suc start) n = Inr (map g [Suc start..<Suc start + n])" by simp
  moreover have "f start = Inr (g start)" using Suc.prems by simp
  moreover have "[start..<start + Suc n] = start # [Suc start..<Suc start + n]"
    by (simp add: upt_conv_Cons)
  ultimately show ?case by simp
qed

lemma sorted_le_last: "sorted xs \<Longrightarrow> x \<in> set xs \<Longrightarrow> x \<le> last xs"
  by (induction xs) auto

text \<open>What \<open>ArrayUtils.calculateBounds\<close> documents: a range inside the array, within the limit.\<close>

definition bounds_law :: "calculate_bounds \<Rightarrow> bool" where
  "bounds_law calculateBounds \<longleftrightarrow>
     (\<forall>n a l lim st en. calculateBounds n a l lim = Inr (st, en) \<longrightarrow> st \<le> en \<and> en \<le> n \<and> en - st \<le> lim)"

definition sample_bounds :: calculate_bounds where
  "sample_bounds n a l lim = Inr (min n (unat a), min n (min n (unat a) + min lim (unat l)))"

lemma sample_bounds_law: "bounds_law sample_bounds"
  by (auto simp: bounds_law_def sample_bounds_def)

section \<open>Properties\<close>

lemma content_addLeaf:
  assumes "reachable H c" and "addLeaf H (env c) (data c) i v = Inr s'" and "zero_unused s'"
  shows "content s' = (content (data c))(i \<mapsto> v)"
    and "\<exists>r. getRoot s' = Inr r \<and> rootEntries s' = rootEntries (data c) @
        [\<lparr>root = r, createdAtTimestamp = block_timestamp (env c), createdAtBlock = block_number (env c)\<rparr>]"
    and "initialized s'" and "\<exists>p. getProof s' j = Inr p"
proof -
  have tx: "apply_tx H (AddLeaf i v) c = Inr (c\<lparr>data := s'\<rparr>)" using assms(2) by (simp add: apply_tx_def)
  have reach': "reachable H (c\<lparr>data := s'\<rparr>)" by (rule reach_tx [OF assms(1) tx])
  have zero: "zero_unused (data c)" using tx_keeps(3) [OF assms(1) tx] assms(3) by simp
  obtain ns t t' where
    s': "s' = addEntry ((data c)\<lparr>nodes := ns\<rparr>) (hash_of H t') (block_timestamp (env c)) (block_number (env c))"
    and t: "tree_at H (data c) (root (last (rootEntries (data c)))) t"
    and ins: "ins (unat (maxDepth (data c))) 0 i v t = Some t'" and t': "tree_at H s' (hash_of H t') t'"
    using addLeaf_step [OF reachable_ok [OF assms(1)] assms(2) zero] by blast
  have init: "initialized (data c)" using addLeaf_shape [OF assms(2)] by blast
  then show init': "initialized s'" by (simp add: s')
  have last: "root (last (rootEntries s')) = hash_of H t'" by (simp add: s')
  show "\<exists>p. getProof s' j = Inr p"
    using getProof_tree [OF reach', of t' j] init' assms(3) t' last by auto
  have "content s' = lookup 0 t'"
    using content_tree [OF reach', of t'] init' assms(3) t' last by simp
  then show "content s' = (content (data c))(i \<mapsto> v)"
    using content_tree [OF assms(1) init zero t] lookup_ins [OF ins] by auto
  show "\<exists>r. getRoot s' = Inr r \<and> rootEntries s' = rootEntries (data c) @
        [\<lparr>root = r, createdAtTimestamp = block_timestamp (env c), createdAtBlock = block_number (env c)\<rparr>]"
    using reachable_root(1) [OF reach'] init' last by (simp add: s')
qed

text \<open>The contract refines the map, transaction by transaction.\<close>

lemma content_step:
  assumes "reachable H c" and "apply_tx H x c = Inr c'" and "zero_unused (data c')"
  shows "content (data c') = map_step x (content (data c))"
proof (cases x)
  case (Initialize d)
  then show ?thesis using content_initialized assms by (simp add: map_step_def)
next
  case (SetMaxDepth d)
  with assms(2) have "rootEntries (data c') = rootEntries (data c)" "initialized (data c') = initialized (data c)"
    by (auto simp: apply_tx_def bind_sol_Inr setMaxDepth_Inr)
  from content_kept [OF assms this] show ?thesis by (simp add: SetMaxDepth map_step_def)
next
  case (AddLeaf i v)
  with assms(2) obtain s' where "addLeaf H (env c) (data c) i v = Inr s'" and c': "data c' = s'"
    by (auto simp: apply_tx_def bind_sol_Inr)
  from content_addLeaf(1) [OF assms(1) this(1)] assms(3) show ?thesis by (simp add: AddLeaf c' map_step_def)
next
  case (NextBlock t n)
  with assms(2) have "rootEntries (data c') = rootEntries (data c)" "initialized (data c') = initialized (data c)"
    by (auto simp: apply_tx_def bind_sol_Inr)
  from content_kept [OF assms this] show ?thesis by (simp add: NextBlock map_step_def)
qed

lemma content_run:
  "reachable H c \<Longrightarrow> run_steps (map (apply_tx H) txs) c = Inr c' \<Longrightarrow> zero_unused (data c') \<Longrightarrow>
     content (data c') = fold map_step txs (content (data c)) \<and> zero_unused (data c)"
proof (induction txs arbitrary: c)
  case Nil
  then show ?case by simp
next
  case (Cons x txs)
  then obtain u where u: "apply_tx H x c = Inr u" "run_steps (map (apply_tx H) txs) u = Inr c'"
    by (auto split: sum.splits)
  have IH: "content (data c') = fold map_step txs (content (data u)) \<and> zero_unused (data u)"
    by (rule Cons.IH [OF reach_tx [OF Cons.prems(1) u(1)] u(2) Cons.prems(3)])
  with content_step [OF Cons.prems(1) u(1)] tx_keeps(3) [OF Cons.prems(1) u(1)] show ?case by simp
qed

text \<open>C2: The contract refines a finite map: after any run of transactions from the empty storage,
  what the proofs for the current root show of every index is the map that the successful
  \<open>addLeaf\<close> calls of the run build in their order, whatever changes of depth and blocks lie
  between them; initialisation, depth changes and new blocks leave it alone.\<close>

theorem run_refines_the_map:
  assumes "data c0 = zero_data" and "run_steps (map (apply_tx H) txs) c0 = Inr c" and "zero_unused (data c)"
  shows "content (data c) = fold map_step txs Map.empty"
proof -
  have "content (data c0) = Map.empty" by (simp add: content_uninitialized assms(1) zero_data_def)
  with content_run [OF reach_start [OF assms(1)] assms(2,3)] show ?thesis by simp
qed

theorem run_refines_the_map_witness:
  "content (data other_chain) = [2 \<mapsto> 9, 5 \<mapsto> 8, 1 \<mapsto> 7]"
  using run_refines_the_map [OF _ other_chain_run [unfolded sample_run_def] other_chain_facts(2)]
  by (auto simp: start_chain_def other_txs_def map_step_def)

text \<open>C17: Adding a leaf updates the map at one index: after \<open>addLeaf(i, v)\<close> succeeds in a reachable
  state, the proofs for the current root show \<open>v\<close> for \<open>i\<close>, and for every other index what they
  showed before; a proof exists for every index; and the new root is recorded with the block's
  time and number.\<close>

theorem addLeaf_updates_the_map:
  assumes "reachable H c" and "addLeaf H (env c) (data c) i v = Inr s'" and "zero_unused s'"
  shows "content s' = (content (data c))(i \<mapsto> v) \<and> (\<exists>p. getProof s' j = Inr p)
    \<and> (\<exists>r. getRoot s' = Inr r \<and> rootEntries s' = rootEntries (data c) @
        [\<lparr>root = r, createdAtTimestamp = block_timestamp (env c), createdAtBlock = block_number (env c)\<rparr>])"
  using content_addLeaf [OF assms] by blast

theorem addLeaf_updates_the_map_witness:
  "\<exists>s'. addLeaf sample_poseidon (env sample_chain) (data sample_chain) 1 70 = Inr s' \<and> content s' 1 = Some 70"
proof -
  have "(case addLeaf sample_poseidon (env sample_chain) (data sample_chain) 1 70 of
      Inr s' \<Rightarrow> zero_unused s' | Inl e \<Rightarrow> False)" by code_simp
  then obtain s' where run: "addLeaf sample_poseidon (env sample_chain) (data sample_chain) 1 70 = Inr s'"
    and zero: "zero_unused s'" by (auto split: sum.splits)
  from addLeaf_updates_the_map [OF sample_chain_facts(1) run zero] run show ?thesis by auto
qed

text \<open>C16: History is never rewritten: whatever transaction follows (another leaf, a larger depth, a
  new block), every root that existed still exists, and the proof for any index under it still
  shows the same value and still verifies.\<close>

theorem historical_proofs_are_stable:
  assumes "reachable H c" and "apply_tx H x c = Inr c'" and "zero_unused (data c')"
    and "rootExists (data c) r"
  shows "rootExists (data c') r
    \<and> (\<exists>p p'. getProofByRoot (data c) i r = Inr p \<and> getProofByRoot (data c') i r = Inr p'
        \<and> proved_value p' = proved_value p \<and> verifies H p \<and> verifies H p')"
proof -
  note keeps = tx_keeps [OF assms(1,2)]
  have exists': "rootExists (data c') r" by (rule keeps(1) [OF assms(4)])
  have zero: "zero_unused (data c)" by (rule keeps(3) [OF assms(3)])
  obtain t where t: "tree_at H (data c) r t" using reachable_tree [OF assms(1) zero assms(4)] by blast
  from tree_proof [OF t zero assms(4), of i] tree_proof [OF keeps(2) [OF t] assms(3) exists', of i] exists'
  show ?thesis by metis
qed

theorem historical_proofs_are_stable_witness:
  "\<exists>c' p p'. apply_tx sample_poseidon (SetMaxDepth 16) sample_chain = Inr c'
     \<and> getProofByRoot (data sample_chain) 5 0 = Inr p \<and> getProofByRoot (data c') 5 0 = Inr p'
     \<and> proved_value p' = proved_value p"
proof -
  have check: "(case apply_tx sample_poseidon (SetMaxDepth 16) sample_chain of
      Inr c' \<Rightarrow> zero_unused (data c') | Inl e \<Rightarrow> False)" "rootExists (data sample_chain) 0" by code_simp+
  then obtain c' where run: "apply_tx sample_poseidon (SetMaxDepth 16) sample_chain = Inr c'"
    and zero: "zero_unused (data c')" by (auto split: sum.splits)
  from historical_proofs_are_stable [OF sample_chain_facts(1) run zero check(2), of 5] run
  show ?thesis by auto
qed

text \<open>C4: Proofs are total and sound: in a reachable state, asking for any index under any existing
  root returns a proof (no array access is out of bounds, no invalid node is met); it has one
  sibling per level of the maximal depth, and recomputing the root from its siblings and leaf,
  as a verifier does, gives that root; for a root that never existed the call reverts.\<close>

theorem proofs_exist_and_verify:
  assumes "reachable H c" and "zero_unused (data c)"
  shows "if rootExists (data c) r
    then \<exists>p. getProofByRoot (data c) i r = Inr p \<and> p_root p = r \<and> p_index p = i
      \<and> length (siblings p) = unat (maxDepth (data c)) \<and> verifies H p
    else getProofByRoot (data c) i r = Inl (Revert ''Root does not exist'')"
proof (cases "rootExists (data c) r")
  case True
  then obtain t where "tree_at H (data c) r t" using reachable_tree [OF assms] by blast
  from tree_proof [OF this assms(2) True, of i] True show ?thesis by auto
next
  case False
  then show ?thesis by (simp add: getProofByRoot_def onlyExistingRoot_def require_def)
qed

theorem proofs_exist_and_verify_witness:
  "\<exists>p. getProofByRoot (data sample_chain) 5 (root (last (rootEntries (data sample_chain)))) = Inr p
     \<and> verifies sample_poseidon p \<and> length (siblings p) = 8"
proof -
  have exists: "rootExists (data sample_chain) (root (last (rootEntries (data sample_chain))))"
    by (rule reachable_root(2) [OF sample_chain_facts(1,3)])
  have depth: "unat (maxDepth (data sample_chain)) = 8" by code_simp
  from proofs_exist_and_verify [OF sample_chain_facts(1,2),
      of "root (last (rootEntries (data sample_chain)))" 5] exists depth show ?thesis by auto
qed

text \<open>C8: The root depends on the content only: two reachable states, with whatever histories of
  insertions, overwritings and depth changes, whose current proofs show the same value for
  every index have the same current root.  In particular the order of insertions is invisible.\<close>

theorem root_depends_on_content_only:
  assumes "reachable H c1" "initialized (data c1)" "zero_unused (data c1)"
    and "reachable H c2" "initialized (data c2)" "zero_unused (data c2)"
    and same: "content (data c1) = content (data c2)"
  shows "getRoot (data c1) = getRoot (data c2)"
proof -
  obtain t1 where t1: "tree_at H (data c1) (root (last (rootEntries (data c1)))) t1"
    using reachable_tree [OF assms(1,3) reachable_root(2) [OF assms(1,2)]] by blast
  obtain t2 where t2: "tree_at H (data c2) (root (last (rootEntries (data c2)))) t2"
    using reachable_tree [OF assms(4,6) reachable_root(2) [OF assms(4,5)]] by blast
  have "lookup 0 t1 = lookup 0 t2"
    using content_tree [OF assms(1-3) t1] content_tree [OF assms(4-6) t2] same by simp
  then have "t1 = t2"
    using t1 t2 by (intro trie_unique [of 0]) (simp_all add: tree_at_def)
  then show ?thesis
    using t1 t2 reachable_root(1) [OF assms(1,2)] reachable_root(1) [OF assms(4,5)]
    by (simp add: tree_at_def)
qed

theorem root_depends_on_content_only_witness:
  "getRoot (data sample_chain) = getRoot (data other_chain) \<and> sample_txs \<noteq> other_txs"
proof -
  have "content (data sample_chain) = content (data other_chain)"
    using content_tree [OF sample_chain_facts(1,3,2) sample_tree]
      content_tree [OF other_chain_facts(1,3,2) other_tree] by simp
  from root_depends_on_content_only [OF sample_chain_facts(1,3,2) other_chain_facts(1,3,2) this]
  show ?thesis by (simp add: sample_txs_def other_txs_def)
qed

lemma unat_256: "unat (256 :: uint256) = 256"
  by simp

text \<open>The two reasons against a leaf: it is \<open>crowded\<close> by a leaf whose index agrees on all bits that the
  tree looks at, or the one canonical trie of the new map brings a collision of the hash.\<close>

definition crowded :: "smt_data \<Rightarrow> uint256 \<Rightarrow> bool" where
  "crowded s i \<longleftrightarrow> (\<exists>j. j \<noteq> i \<and> content s j \<noteq> None \<and> (\<forall>k < unat (maxDepth s). bit i k = bit j k))"

definition collides :: "poseidon \<Rightarrow> smt_data \<Rightarrow> uint256 \<Rightarrow> uint256 \<Rightarrow> bool" where
  "collides H s i v \<longleftrightarrow>
     (\<exists>t. canonical t \<and> lookup 0 t = (content s)(i \<mapsto> v) \<and> hash_clash H (store_nodes (nodes s) \<union> trie_nodes H t))"

lemma collides_trie:
  assumes "canonical t" and "lookup 0 t = (content s)(i \<mapsto> v)"
  shows "collides H s i v \<longleftrightarrow> hash_clash H (store_nodes (nodes s) \<union> trie_nodes H t)"
  using assms canonical_unique [OF _ assms(1)] unfolding collides_def by metis

lemma crowded_below_cap: "crowded s i \<Longrightarrow> maxDepth s < 256"
proof (rule ccontr)
  assume "crowded s i" and "\<not> maxDepth s < 256"
  then obtain j where j: "j \<noteq> i" "\<forall>k < unat (maxDepth s). bit i k = bit j k" and "256 \<le> unat (maxDepth s)"
    by (auto simp: crowded_def word_less_nat_alt)
  then have "bit i k = bit j k" if "k < 256" for k using that by simp
  then have "i = j" by (intro bit_word_eqI) simp
  with j(1) show False by simp
qed

lemma addLeaf_outcome:
  assumes "reachable H c" and "initialized (data c)" and "zero_unused (data c)"
  shows "addLeaf H (env c) (data c) i v = Inl e \<longleftrightarrow>
    (if crowded (data c) i then e = Revert ''Max depth reached''
     else e = AssertFailed \<and> collides H (data c) i v)"
proof -
  let ?s = "data c" and ?md = "unat (maxDepth (data c))"
  have ok: "state_ok H c" by (rule reachable_ok [OF assms(1)])
  note root = reachable_root [OF assms(1,2)]
  obtain t where t: "tree_at H ?s (root (last (rootEntries ?s))) t"
    using reachable_tree [OF assms(1,3) root(2)] by blast
  note shown = content_tree [OF assms(1-3) t]
  have path: "fits ?md 0 t" "on_path 0 t" "minimal t" using t by (simp_all add: tree_at_def)
  have ins: "ins ?md 0 i v t = None \<longleftrightarrow> crowded ?s i"
    using ins_None [OF _ path(1,2), of i v] ins_blocked [OF path(1,2), of _ i v]
    by (auto simp: crowded_def shown lookup_dom [OF path(2), simplified])
  have made: "collides H ?s i v \<longleftrightarrow> hash_clash H (store_nodes (nodes ?s) \<union> trie_nodes H t')"
    if "ins ?md 0 i v t = Some t'" for t'
    using that ins_shape [OF that path(2,3)] lookup_ins [OF that]
    by (intro collides_trie) (auto simp: canonical_def shown)
  let ?run = "addLeaf_internal H ?md (nodes ?s) (leaf_node i v) (hash_of H t) 0"
  have run: "addLeaf H (env c) ?s i v = Inl e \<longleftrightarrow> ?run = Inl e" for e
    using assms(2) t root(1)
    by (auto simp: addLeaf_def bind_sol_Inl isInitialized_def require_def tree_at_def)
  show ?thesis
  proof (cases ?run)
    case (Inl e')
    have "failed H (nodes ?s) (ins ?md 0 i v t) e'"
      using t assms(3) ok Inl
      by (intro addLeaf_internal_fails) (simp_all add: tree_at_def zero_unused_def state_ok_def)
    with Inl ins made show ?thesis by (auto simp: run failed_def)
  next
    case (Inr res)
    obtain t' where t': "ins ?md 0 i v t = Some t'" and "wrote H (nodes ?s) t' res"
      using addLeaf_internal_refines [OF Inr] t assms(3) by (auto simp: tree_at_def zero_unused_def)
    with ok wrote_no_clash [of H "nodes ?s" t' res] made [OF t'] have "\<not> collides H ?s i v"
      by (simp add: state_ok_def)
    with Inr t' ins show ?thesis by (auto simp: run)
  qed
qed

text \<open>C7: A leaf is refused for two reasons only, exactly then, and with the right error: with "Max depth
  reached" when another leaf's index agrees with its index on all bits below the maximal depth
  (never so at the cap of 256), and otherwise with a failing assertion when two different nodes,
  among the stored ones and those of the one canonical trie of the new map, have one hash.\<close>

theorem addLeaf_fails_only_with_reason:
  assumes "reachable H c" and "initialized (data c)" and "zero_unused (data c)"
  shows "(addLeaf H (env c) (data c) i v = Inl e \<longleftrightarrow>
      (if crowded (data c) i then e = Revert ''Max depth reached''
       else e = AssertFailed \<and> collides H (data c) i v))
    \<and> (crowded (data c) i \<longrightarrow> maxDepth (data c) < 256)"
  using addLeaf_outcome [OF assms] crowded_below_cap by blast

text \<open>The same leaf again is never refused: its trie is already stored.\<close>

theorem addLeaf_fails_only_with_reason_witness:
  "\<exists>c. sample_run [Initialize 1, AddLeaf 1 7] = Inr c
     \<and> addLeaf sample_poseidon (env c) (data c) 3 8 = Inl (Revert ''Max depth reached'')
     \<and> crowded (data c) 3 \<and> \<not> crowded (data c) 1 \<and> \<not> collides sample_poseidon (data c) 1 7"
proof -
  have "(case sample_run [Initialize 1, AddLeaf 1 7] of
      Inr c \<Rightarrow> zero_unused (data c) \<and> initialized (data c)
        \<and> addLeaf sample_poseidon (env c) (data c) 3 8 = Inl (Revert ''Max depth reached'')
        \<and> (case addLeaf sample_poseidon (env c) (data c) 1 7 of Inl _ \<Rightarrow> False | Inr _ \<Rightarrow> True)
    | Inl e \<Rightarrow> False)" by code_simp
  then obtain c s' where run: "sample_run [Initialize 1, AddLeaf 1 7] = Inr c"
    and c: "zero_unused (data c)" "initialized (data c)"
      "addLeaf sample_poseidon (env c) (data c) 3 8 = Inl (Revert ''Max depth reached'')"
      "addLeaf sample_poseidon (env c) (data c) 1 7 = Inr s'"
    by (auto split: sum.splits)
  note exact = addLeaf_fails_only_with_reason [OF sample_run_reachable [OF run] c(2,1)]
  have "crowded (data c) 3" using exact [of 3 8 "Revert ''Max depth reached''"] c(3) by (auto split: if_splits)
  moreover have "\<not> crowded (data c) 1" using exact [of 1 7 "Revert ''Max depth reached''"] c(4) by auto
  moreover have "\<not> collides sample_poseidon (data c) 1 7"
    using exact [of 1 7 AssertFailed] c(4) calculation(2) by auto
  ultimately show ?thesis using run c(3) by blast
qed

text \<open>C15: The binary search is the search for the latest entry: on a history whose times (or block
  numbers) do not decrease it always returns, without an array access out of bounds, and gives
  the last position whose field is at most the value, the last of several equal ones included;
  it reports nothing found only for an empty history or a value before the first entry.\<close>

theorem binarySearch_finds_latest:
  assumes "sorted_by st (rootEntries s)"
  shows "if rootEntries s = [] \<or> v < fieldSelector (rootEntries s ! 0) st
    then binarySearchUint256 s v st = Inr (0, False)
    else \<exists>n < length (rootEntries s). binarySearchUint256 s v st = Inr (n, True)
      \<and> fieldSelector (rootEntries s ! n) st \<le> v
      \<and> (\<forall>m. n < m \<and> m < length (rootEntries s) \<longrightarrow> v < fieldSelector (rootEntries s ! m) st)"
proof (cases "rootEntries s = []")
  case True
  then show ?thesis by (simp add: binarySearchUint256_def)
next
  case False
  with search_spec [OF assms False, of v] show ?thesis by (auto simp: current_at_def split: if_splits)
qed

theorem binarySearch_finds_latest_witness:
  "\<exists>n. binarySearchUint256 (data sample_chain) 25 TIMESTAMP = Inr (n, True)
     \<and> fieldSelector (rootEntries (data sample_chain) ! n) TIMESTAMP \<le> 25"
proof -
  have "sorted_by TIMESTAMP (rootEntries (data sample_chain))"
    using reachable_ok [OF sample_chain_facts(1)] by (simp add: state_ok_def dated_def)
  moreover have "rootEntries (data sample_chain) \<noteq> []" using sample_chain_facts(4) by auto
  moreover have "\<not> 25 < fieldSelector (rootEntries (data sample_chain) ! 0) TIMESTAMP" by code_simp
  ultimately show ?thesis
    using binarySearch_finds_latest [of TIMESTAMP "data sample_chain" 25] by auto
qed

lemma search_reachable:
  assumes "reachable H c" and "initialized (data c)"
  shows "\<exists>n. current_at (data c) st v n
    \<and> getRootInfoByTimestampOrBlock (data c) v st = Inr (info_at (rootEntries (data c)) n)"
proof -
  let ?es = "rootEntries (data c)"
  have entries: "?es \<noteq> []" by (rule reachable_root(3) [OF assms])
  have dated: "dated (data c) (env c)" using reachable_ok [OF assms(1)] by (simp add: state_ok_def)
  then have sorted: "sorted_by st ?es" by (simp add: dated_def)
  have first: "\<not> v < fieldSelector (?es ! 0) st"
    using dated entries by (simp add: dated_def hd_conv_nth)
  from search_spec [OF sorted entries, of v] first obtain n
    where n: "binarySearchUint256 (data c) v st = Inr (n, True)" "current_at (data c) st v n" by auto
  then have "getRootInfoByIndex (data c) n = Inr (info_at ?es n)"
    by (simp add: getRootInfoByIndex_ok current_at_def)
  with n show ?thesis by (auto simp: getRootInfoByTimestampOrBlock_def)
qed

text \<open>C22: Queries by time or block are answered as of that moment: for a time up to now, and a
  block up to the current one, an initialised tree always answers, with the entry that was
  current then (the last one created by then) and the moment of its replacement; the proof by
  time or block is the proof under that entry's root; and queries about the future revert.\<close>

theorem queries_answer_as_of_then:
  assumes "reachable H c" and "initialized (data c)"
  shows "(t \<le> block_timestamp (env c) \<longrightarrow>
       (\<exists>n. current_at (data c) TIMESTAMP t n
          \<and> getRootInfoByTime (env c) (data c) t = Inr (info_at (rootEntries (data c)) n)
          \<and> getProofByTime (env c) (data c) i t = getProofByRoot (data c) i (root (rootEntries (data c) ! n))))
    \<and> (b \<le> block_number (env c) \<longrightarrow>
       (\<exists>n. current_at (data c) BLOCK b n
          \<and> getRootInfoByBlock (env c) (data c) b = Inr (info_at (rootEntries (data c)) n)
          \<and> getProofByBlock (env c) (data c) i b = getProofByRoot (data c) i (root (rootEntries (data c) ! n))))
    \<and> (t > block_timestamp (env c) \<longrightarrow>
         getRootInfoByTime (env c) (data c) t = Inl (Revert ''No future timestamps allowed''))
    \<and> (b > block_number (env c) \<longrightarrow>
         getRootInfoByBlock (env c) (data c) b = Inl (Revert ''No future blocks allowed''))"
proof -
  obtain n where n: "current_at (data c) TIMESTAMP t n"
    "getRootInfoByTimestampOrBlock (data c) t TIMESTAMP = Inr (info_at (rootEntries (data c)) n)"
    using search_reachable [OF assms] by blast
  obtain m where m: "current_at (data c) BLOCK b m"
    "getRootInfoByTimestampOrBlock (data c) b BLOCK = Inr (info_at (rootEntries (data c)) m)"
    using search_reachable [OF assms] by blast
  have root: "info_root (info_at es k) = root (es ! k)" for es k by (simp add: info_at_def Let_def)
  show ?thesis
    using n m
    by (auto simp: getRootInfoByTime_def getRootInfoByBlock_def getProofByTime_def getProofByBlock_def
        require_def root)
qed

theorem queries_answer_as_of_then_witness:
  "\<exists>n. current_at (data sample_chain) TIMESTAMP 25 n
     \<and> getRootInfoByTime (env sample_chain) (data sample_chain) 25 =
         Inr (info_at (rootEntries (data sample_chain)) n)"
  using queries_answer_as_of_then [OF sample_chain_facts(1,3), of 25] sample_chain_facts(5) by auto

text \<open>C21: The history is consistent in every reachable state: it starts with the empty root at time
  and block zero; times and block numbers never decrease and never lie in the future; the index
  of a root holds exactly the positions at which it stands, in order; the depth never exceeds
  the cap; and a tree is initialised exactly when it has a history.\<close>

theorem history_is_consistent:
  assumes "reachable H c"
  shows "let s = data c; es = rootEntries (data c) in
      (initialized s \<longleftrightarrow> es \<noteq> []) \<and> maxDepth s \<le> MAX_DEPTH_HARD_CAP
    \<and> (es \<noteq> [] \<longrightarrow> hd es = \<lparr>root = 0, createdAtTimestamp = 0, createdAtBlock = 0\<rparr> \<and> maxDepth s > 0)
    \<and> (\<forall>j k. j \<le> k \<and> k < length es \<longrightarrow>
         createdAtTimestamp (es ! j) \<le> createdAtTimestamp (es ! k)
       \<and> createdAtBlock (es ! j) \<le> createdAtBlock (es ! k)
       \<and> createdAtTimestamp (es ! k) \<le> block_timestamp (env c)
       \<and> createdAtBlock (es ! k) \<le> block_number (env c))
    \<and> (\<forall>r. rootIndexes s r = filter (\<lambda>j. root (es ! j) = r) [0..<length es])"
proof -
  let ?es = "rootEntries (data c)"
  have ok: "state_ok H c" by (rule reachable_ok [OF assms])
  then have sorted: "sorted_by TIMESTAMP ?es" "sorted_by BLOCK ?es"
    by (simp_all add: state_ok_def dated_def)
  have "createdAtTimestamp (?es ! j) \<le> createdAtTimestamp (?es ! k)"
    "createdAtBlock (?es ! j) \<le> createdAtBlock (?es ! k)" if "j \<le> k" "k < length ?es" for j k
    using history.keys_grow [OF sorted(1) that] history.keys_grow [OF sorted(2) that] by simp_all
  moreover have "createdAtTimestamp (?es ! k) \<le> block_timestamp (env c)
      \<and> createdAtBlock (?es ! k) \<le> block_number (env c)" if "k < length ?es" for k
  proof -
    have le: "fieldSelector (?es ! k) st \<le> moment st (env c)" for st
      using ok nth_mem [OF that] by (simp add: state_ok_def dated_def)
    show ?thesis using le [of TIMESTAMP] le [of BLOCK] by simp
  qed
  ultimately show ?thesis
    using ok by (simp add: state_ok_def dated_def indexed_def MAX_DEPTH_HARD_CAP_def Let_def)
qed

theorem history_is_consistent_witness:
  "hd (rootEntries (data sample_chain)) = \<lparr>root = 0, createdAtTimestamp = 0, createdAtBlock = 0\<rparr>
     \<and> maxDepth (data sample_chain) \<le> MAX_DEPTH_HARD_CAP"
  using history_is_consistent [OF sample_chain_facts(1)] sample_chain_facts(4) by (auto simp: Let_def)

text \<open>C23: Pages of the history: the call fails only where the bounds calculation fails; otherwise it
  returns the entries of the page in order, at most 1000 of them and without reading out of
  bounds, and each entry names as its replacement the root, time and block of the next one,
  zero for the entry that is current.\<close>

theorem getRootHistory_pages:
  assumes "bounds_law calculateBounds"
    and "calculateBounds (length (rootEntries s)) start len ROOT_INFO_LIST_RETURN_LIMIT = Inr (st, en)"
  shows "\<exists>infos. getRootHistory calculateBounds s start len = Inr infos
    \<and> length infos = en - st \<and> length infos \<le> 1000
    \<and> (\<forall>k < length infos. info_root (infos ! k) = root (rootEntries s ! (st + k))
         \<and> (Suc (st + k) = length (rootEntries s) \<longrightarrow> replacedByRoot (infos ! k) = 0 \<and> replacedAtBlock (infos ! k) = 0)
         \<and> (Suc k < length infos \<longrightarrow> replacedByRoot (infos ! k) = info_root (infos ! Suc k)
              \<and> replacedAtTimestamp (infos ! k) = info_createdAtTimestamp (infos ! Suc k)
              \<and> replacedAtBlock (infos ! k) = info_createdAtBlock (infos ! Suc k)))"
proof -
  let ?es = "rootEntries s"
  have bounds: "st \<le> en" "en \<le> length ?es" "en - st \<le> 1000"
    using assms by (auto simp: bounds_law_def ROOT_INFO_LIST_RETURN_LIMIT_def)
  have "collect (getRootInfoByIndex s) st (en - st) = Inr (map (info_at ?es) [st..<st + (en - st)])"
    using bounds by (intro collect_map getRootInfoByIndex_ok) simp
  then have "getRootHistory calculateBounds s start len = Inr (map (info_at ?es) [st..<en])"
    using assms(2) bounds(1) by (simp add: getRootHistory_def collect_range_def)
  with bounds show ?thesis
    by (intro exI [of _ "map (info_at ?es) [st..<en]"]) (auto simp: info_at_def Let_def)
qed

theorem getRootHistory_pages_witness:
  "\<exists>infos. getRootHistory sample_bounds (data sample_chain) 1 2 = Inr infos \<and> length infos = 2
     \<and> replacedByRoot (infos ! 0) = info_root (infos ! 1)"
proof -
  have "sample_bounds (length (rootEntries (data sample_chain))) 1 2 ROOT_INFO_LIST_RETURN_LIMIT = Inr (1, 3)"
    by (simp add: sample_chain_facts(4) sample_bounds_def ROOT_INFO_LIST_RETURN_LIMIT_def)
  from getRootHistory_pages [OF sample_bounds_law this] obtain infos
    where run: "getRootHistory sample_bounds (data sample_chain) 1 2 = Inr infos"
      and two: "length infos = 3 - 1"
      and pages: "\<forall>k < length infos. Suc k < length infos \<longrightarrow> replacedByRoot (infos ! k) = info_root (infos ! Suc k)"
    by blast
  have "replacedByRoot (infos ! 0) = info_root (infos ! Suc 0)"
    using pages [rule_format, of 0] two by simp
  with run two show ?thesis by simp
qed

text \<open>C34: A root that stands several times in the history, as when a leaf is changed and changed back,
  is looked up at its last occurrence: \<open>getRootInfo\<close> describes the last entry with that root,
  the number of occurrences is reported by \<open>getRootInfoListLengthByRoot\<close>, and a root without
  occurrence reverts.\<close>

theorem getRootInfo_last_occurrence:
  assumes "reachable H c"
  shows "if r \<in> root ` set (rootEntries (data c))
    then \<exists>n. n < length (rootEntries (data c)) \<and> root (rootEntries (data c) ! n) = r
      \<and> (\<forall>m. n < m \<and> m < length (rootEntries (data c)) \<longrightarrow> root (rootEntries (data c) ! m) \<noteq> r)
      \<and> getRootInfo (data c) r = Inr (info_at (rootEntries (data c)) n)
      \<and> getRootInfoListLengthByRoot (data c) r = card {j. j < length (rootEntries (data c)) \<and> root (rootEntries (data c) ! j) = r}
    else getRootInfo (data c) r = Inl (Revert ''Root does not exist'')"
proof -
  let ?es = "rootEntries (data c)"
  let ?P = "\<lambda>j. root (?es ! j) = r"
  have idx: "indexed (data c)" using reachable_ok [OF assms] by (simp add: state_ok_def)
  then have js: "rootIndexes (data c) r = filter ?P [0..<length ?es]" by (simp add: indexed_def)
  show ?thesis
  proof (cases "r \<in> root ` set ?es")
    case True
    then have exists: "rootExists (data c) r" using indexed_exists [OF idx] by simp
    then have nonempty: "filter ?P [0..<length ?es] \<noteq> []" by (simp add: rootExists_def js)
    define n where "n = last (filter ?P [0..<length ?es])"
    have n: "n < length ?es" "?P n" using last_in_set [OF nonempty] by (simp_all add: n_def)
    have later: "\<not> ?P m" if "n < m" "m < length ?es" for m
    proof
      assume "?P m"
      then have m: "m \<in> set (filter ?P [0..<length ?es])" using that by simp
      moreover have "sorted (filter ?P [0..<length ?es])" by (intro sorted_wrt_filter) simp
      ultimately have "m \<le> n" unfolding n_def by (rule sorted_le_last [rotated])
      with that show False by simp
    qed
    have "array_at (rootIndexes (data c) r) (length (rootIndexes (data c) r) - 1) = Inr n"
      using nonempty by (simp add: js array_at_def n_def last_conv_nth)
    then have "getRootInfo (data c) r = Inr (info_at ?es n)"
      using exists nonempty n(1)
      by (simp add: getRootInfo_def onlyExistingRoot_def require_def last_index_def getRootInfoByIndex_ok js)
    moreover have "getRootInfoListLengthByRoot (data c) r = card {j. j < length ?es \<and> ?P j}"
      unfolding getRootInfoListLengthByRoot_def js
      by (subst distinct_card [symmetric]) (auto intro!: arg_cong [where f = card])
    ultimately show ?thesis using True n later by auto
  next
    case False
    then have "\<not> rootExists (data c) r" using indexed_exists [OF idx] by simp
    with False show ?thesis by (auto simp: getRootInfo_def onlyExistingRoot_def require_def)
  qed
qed

theorem getRootInfo_last_occurrence_witness:
  "\<exists>n. getRootInfo (data sample_chain) 0 = Inr (info_at (rootEntries (data sample_chain)) n)
     \<and> root (rootEntries (data sample_chain) ! n) = 0"
proof -
  have "(0 :: uint256) \<in> root ` set (rootEntries (data sample_chain))" by code_simp
  with getRootInfo_last_occurrence [OF sample_chain_facts(1), of 0] show ?thesis by auto
qed

end
