(* ===== verification/SmtTime.thy ===== *)
theory SmtTime
  imports SmtSpec
begin

text \<open>
  The sparse Merkle tree over time: how a run of transactions lets the state grow, and that a
  query for a past time or block keeps being answered with the content of that moment.
\<close>

section \<open>Looking back\<close>

text \<open>A run appends entries that are no older than its start, keeps the stored tries, and time goes on.\<close>

definition grown :: "poseidon \<Rightarrow> chain \<Rightarrow> chain \<Rightarrow> bool" where
  "grown H c c' \<longleftrightarrow>
     (\<exists>es. rootEntries (data c') = rootEntries (data c) @ es
        \<and> (\<forall>e \<in> set es. \<forall>st. moment st (env c) \<le> fieldSelector e st))
   \<and> initialized (data c') \<and> (\<forall>st. moment st (env c) \<le> moment st (env c'))
   \<and> (\<forall>r. rootExists (data c) r \<longrightarrow> rootExists (data c') r)
   \<and> (\<forall>r t. tree_at H (data c) r t \<longrightarrow> tree_at H (data c') r t)"

lemma grown_refl: "initialized (data c) \<Longrightarrow> grown H c c"
  by (simp add: grown_def)

lemma grown_trans:
  assumes "grown H c u" and "grown H u c'"
  shows "grown H c c'"
proof -
  from assms obtain es fs where
    es: "rootEntries (data u) = rootEntries (data c) @ es" "\<forall>e \<in> set es. \<forall>st. moment st (env c) \<le> fieldSelector e st"
    and fs: "rootEntries (data c') = rootEntries (data u) @ fs" "\<forall>e \<in> set fs. \<forall>st. moment st (env u) \<le> fieldSelector e st"
    unfolding grown_def by blast
  have time: "\<forall>st. moment st (env c) \<le> moment st (env u)" using assms(1) by (simp add: grown_def)
  have "\<forall>e \<in> set (es @ fs). \<forall>st. moment st (env c) \<le> fieldSelector e st"
    using es(2) fs(2) time by (auto intro: order_trans)
  with es(1) fs(1) have "\<exists>gs. rootEntries (data c') = rootEntries (data c) @ gs
      \<and> (\<forall>e \<in> set gs. \<forall>st. moment st (env c) \<le> fieldSelector e st)"
    by (intro exI [of _ "es @ fs"]) simp
  moreover have "\<forall>st. moment st (env c) \<le> moment st (env c')"
    using assms order_trans unfolding grown_def by blast
  ultimately show ?thesis using assms unfolding grown_def by blast
qed

lemma tx_grown:
  assumes "reachable H c" and "apply_tx H x c = Inr c'" and "initialized (data c)"
  shows "grown H c c'"
proof -
  have "(\<exists>es. rootEntries (data c') = rootEntries (data c) @ es
        \<and> (\<forall>e \<in> set es. \<forall>st. moment st (env c) \<le> fieldSelector e st))
      \<and> initialized (data c') \<and> (\<forall>st. moment st (env c) \<le> moment st (env c'))"
  proof (cases x)
    case (Initialize d)
    with assms(2,3) show ?thesis by (auto simp: apply_tx_def bind_sol_Inr initialize_Inr)
  next
    case (SetMaxDepth d)
    with assms(2,3) show ?thesis by (auto simp: apply_tx_def bind_sol_Inr setMaxDepth_Inr)
  next
    case (AddLeaf i v)
    with assms(2) obtain s' where run: "addLeaf H (env c) (data c) i v = Inr s'" and c': "c' = c\<lparr>data := s'\<rparr>"
      by (auto simp: apply_tx_def bind_sol_Inr)
    from addLeaf_shape [OF run] show ?thesis by (auto simp: c')
  next
    case (NextBlock t n)
    with assms(2) have c': "c' = c\<lparr>env := \<lparr>block_timestamp = t, block_number = n\<rparr>\<rparr>" and "later_block (env c) t n"
      by (auto simp: apply_tx_def bind_sol_Inr)
    with assms(3) show ?thesis by (simp add: c' later_moment)
  qed
  with tx_keeps(1,2) [OF assms(1,2)] show ?thesis unfolding grown_def by blast
qed

text \<open>Every run of transactions on an initialised tree grows it.\<close>

interpretation growth: step_growth "\<lambda>c. reachable H c \<and> initialized (data c)" "map (apply_tx H) xs" "grown H" for H xs
proof
  fix f s s'
  assume "f \<in> set (map (apply_tx H) xs)" "reachable H s \<and> initialized (data s)" "f s = Inr s'"
  then obtain x where "apply_tx H x s = Inr s'" "reachable H s" "initialized (data s)" by auto
  then have "reachable H s'" "grown H s s'" by (auto intro: reach_tx tx_grown)
  then show "reachable H s' \<and> initialized (data s')" "grown H s s'" by (simp_all add: grown_def)
qed (auto intro: grown_refl grown_trans)

lemma run_grown:
  "reachable H c \<Longrightarrow> run_steps (map (apply_tx H) txs) c = Inr c' \<Longrightarrow> initialized (data c) \<Longrightarrow> grown H c c'"
  by (rule growth.run_grows) simp_all

lemma current_after:
  assumes "rootEntries s = es @ fs" and "es \<noteq> []" and "current_at s st v n"
    and "\<forall>e \<in> set es. fieldSelector e st \<le> v" and "\<forall>e \<in> set fs. v < fieldSelector e st"
  shows "rootEntries s ! n = last es"
proof -
  have "n < length es"
  proof (rule ccontr)
    assume "\<not> n < length es"
    with assms(1,3) have "rootEntries s ! n \<in> set fs" by (auto simp: current_at_def nth_append)
    with assms(3,5) show False by (auto simp: current_at_def not_less [symmetric])
  qed
  moreover have "\<not> Suc n < length es"
  proof
    assume less: "Suc n < length es"
    with assms(1,3) have "v < fieldSelector (es ! Suc n) st"
      by (force simp: current_at_def nth_append)
    with assms(4) less show False by (auto simp: not_less [symmetric])
  qed
  ultimately have "n = length es - 1" by simp
  with assms(1,2) show ?thesis by (simp add: nth_append last_conv_nth)
qed

lemma root_as_of:
  assumes "reachable H c" and "initialized (data c)" and "grown H u c'"
    and "reachable H c'" and "data u = data c"
    and "moment st (env c) \<le> v" and "v < moment st (env u)"
    and "current_at (data c') st v n"
  shows "rootEntries (data c') ! n = last (rootEntries (data c))"
proof -
  from assms(3) obtain es where es: "rootEntries (data c') = rootEntries (data c) @ es"
    and young: "\<forall>e \<in> set es. \<forall>st. moment st (env u) \<le> fieldSelector e st"
    using assms(5) by (auto simp: grown_def)
  have "dated (data c) (env c)" using reachable_ok [OF assms(1)] by (simp add: state_ok_def)
  then have "fieldSelector e st \<le> moment st (env c)" if "e \<in> set (rootEntries (data c))" for e
    using that by (simp add: dated_def)
  then have old: "\<forall>e \<in> set (rootEntries (data c)). fieldSelector e st \<le> v" using assms(6) by (auto intro: order_trans)
  have "\<forall>e \<in> set es. v < fieldSelector e st" using young assms(7) by (auto intro: less_le_trans)
  from current_after [OF es reachable_root(3) [OF assms(1,2)] assms(8) old this] show ?thesis .
qed

text \<open>
  \<open>looks_back\<close>: the answer in \<open>c'\<close> about the moment \<open>v\<close> is the content of the tree in \<open>c\<close>.
\<close>

definition looks_back :: "poseidon \<Rightarrow> chain \<Rightarrow> chain \<Rightarrow> SearchType \<Rightarrow> uint256 \<Rightarrow> uint256 \<Rightarrow> bool" where
  "looks_back H c c' st v i \<longleftrightarrow>
     (\<exists>x p. getRootInfoByTimestampOrBlock (data c') v st = Inr x \<and> v \<le> moment st (env c')
        \<and> getProofByRoot (data c') i (info_root x) = Inr p
        \<and> proved_value p = content (data c) i \<and> verifies H p)"

lemma looks_back_grown:
  assumes "reachable H c" and "initialized (data c)" and "grown H u c'" and "reachable H c'"
    and "data u = data c" and "moment st (env c) \<le> v" and "v < moment st (env u)"
    and "zero_unused (data c)" and "zero_unused (data c')"
  shows "looks_back H c c' st v i"
proof -
  let ?r = "root (last (rootEntries (data c)))"
  have init': "initialized (data c')" using assms(3) by (simp add: grown_def)
  obtain k where k: "current_at (data c') st v k"
    "getRootInfoByTimestampOrBlock (data c') v st = Inr (info_at (rootEntries (data c')) k)"
    using search_reachable [OF assms(4) init'] by blast
  have root: "info_root (info_at (rootEntries (data c')) k) = ?r"
    using root_as_of [OF assms(1-7) k(1)] by (simp add: info_at_def Let_def)
  obtain t where t: "tree_at H (data c) ?r t"
    using reachable_tree [OF assms(1,8) reachable_root(2) [OF assms(1,2)]] by blast
  have "rootExists (data c') ?r" "tree_at H (data c') ?r t"
    using assms(3,5) t reachable_root(2) [OF assms(1,2)] by (auto simp: grown_def)
  from tree_proof [OF this(2) assms(9) this(1), of i] content_tree [OF assms(1,2,8) t]
  have shown: "\<exists>p. getProofByRoot (data c') i ?r = Inr p \<and> proved_value p = content (data c) i \<and> verifies H p"
    by auto
  have "moment st (env u) \<le> moment st (env c')" using assms(3) by (simp add: grown_def)
  then have "v \<le> moment st (env c')" using assms(7) by simp
  with k(2) root shown show ?thesis by (auto simp: looks_back_def)
qed

text \<open>C3: Looking back: what the proofs for the current root show just before a new block is what a
  query for that time or block shows for ever after, with a proof that verifies: later leaves,
  depth changes and blocks do not change the answer about the past.\<close>

theorem past_is_answered_as_it_was:
  assumes "reachable H c" and "initialized (data c)" and "zero_unused (data c')"
    and run: "run_steps (map (apply_tx H) (NextBlock t n # txs)) c = Inr c'"
  shows "(block_timestamp (env c) \<le> v \<and> v < t \<longrightarrow>
       (\<exists>p. getProofByTime (env c') (data c') i v = Inr p \<and> proved_value p = content (data c) i \<and> verifies H p))
    \<and> (block_number (env c) \<le> v \<and> v < n \<longrightarrow>
       (\<exists>p. getProofByBlock (env c') (data c') i v = Inr p \<and> proved_value p = content (data c) i \<and> verifies H p))"
proof -
  from run obtain u where u: "apply_tx H (NextBlock t n) c = Inr u"
    and rest: "run_steps (map (apply_tx H) txs) u = Inr c'"
    by (auto split: sum.splits)
  have data: "data u = data c" and env: "env u = \<lparr>block_timestamp = t, block_number = n\<rparr>"
    using u by (auto simp: apply_tx_def bind_sol_Inr)
  have reach: "reachable H u" by (rule reach_tx [OF assms(1) u])
  have g: "grown H u c'" using run_grown [OF reach rest] assms(2) data by simp
  have zero: "zero_unused (data c)" using content_run [OF reach rest assms(3)] data by simp
  have looks: "looks_back H c c' st v i" if "moment st (env c) \<le> v" "v < moment st (env u)" for st
    by (rule looks_back_grown [OF assms(1,2) g run_reachable [OF reach rest] data that zero assms(3)])
  show ?thesis
    using looks [of TIMESTAMP] looks [of BLOCK] env
    by (fastforce simp: looks_back_def getProofByTime_def getRootInfoByTime_def getProofByBlock_def
        getRootInfoByBlock_def require_def)
qed

text \<open>The sample chain and three later transactions.\<close>

definition later_txs :: "tx list" where
  "later_txs = [NextBlock 40 4, AddLeaf 1 70, AddLeaf 3 1]"

definition later_chain :: chain where
  "later_chain = (case run_steps (map (apply_tx sample_poseidon) later_txs) sample_chain of
     Inr c \<Rightarrow> c | Inl e \<Rightarrow> sample_chain)"

lemma later_check:
  "(case run_steps (map (apply_tx sample_poseidon) later_txs) sample_chain of
     Inr c \<Rightarrow> zero_unused (data c) | Inl e \<Rightarrow> False)"
  by code_simp

lemma later_chain_run: "run_steps (map (apply_tx sample_poseidon) later_txs) sample_chain = Inr later_chain"
  using later_check by (auto simp: later_chain_def split: sum.splits)

theorem past_is_answered_as_it_was_witness:
  "(\<exists>p. getProofByTime (env later_chain) (data later_chain) 1 35 = Inr p \<and> proved_value p = Some 7)
     \<and> content (data later_chain) 1 = Some 70"
proof -
  have zero: "zero_unused (data later_chain)" using later_check by (simp add: later_chain_run)
  have then_: "content (data sample_chain) 1 = Some 7" by code_simp
  have now_: "content (data later_chain) 1 = Some 70" by code_simp
  have "block_timestamp (env sample_chain) = 30" by (rule sample_chain_facts(5))
  with past_is_answered_as_it_was [OF sample_chain_facts(1,3) zero later_chain_run [unfolded later_txs_def], of 35 1] then_ now_
  show ?thesis by auto
qed

end
