(* ===== verification/SmtSound.thy ===== *)
theory SmtSound
  imports SmtSpec
begin

text \<open>
  The other direction of verification: whatever proof a verifier accepts for a root of the
  history, not only the ones that the contract returns, shows what the contract shows, unless
  the proof brings a collision of the hash function with it.
\<close>

section \<open>What an accepted proof hashes\<close>

fun climb_nodes :: "poseidon \<Rightarrow> nat \<Rightarrow> uint256 \<Rightarrow> uint256 list \<Rightarrow> uint256 \<Rightarrow> Node set" where
  "climb_nodes H d i [] h = {}"
| "climb_nodes H d i (s # ss) h =
     insert (if bit i d then middle_node s (climb H (Suc d) i ss h) else middle_node (climb H (Suc d) i ss h) s)
       (climb_nodes H (Suc d) i ss h)"

text \<open>Where a proof ends: in the leaf of its index, in another leaf, or in the empty tree.\<close>

definition end_trie :: "Proof \<Rightarrow> trie" where
  "end_trie p =
     (if existence p then L (p_index p) (p_value p)
      else if auxExistence p then L (auxIndex p) (auxValue p) else E)"

definition proof_nodes :: "poseidon \<Rightarrow> Proof \<Rightarrow> Node set" where
  "proof_nodes H p =
     climb_nodes H 0 (p_index p) (trim (siblings p)) (end_hash H p) \<union> trie_nodes H (end_trie p)"

text \<open>A verifier recomputes the root and checks that another leaf is another one.\<close>

definition accepts :: "poseidon \<Rightarrow> Proof \<Rightarrow> bool" where
  "accepts H p \<longleftrightarrow> verifies H p \<and> \<not> (\<not> existence p \<and> auxExistence p \<and> auxIndex p = p_index p)"

lemma end_hash_trie: "end_hash H p = hash_of H (end_trie p)"
  by (simp add: end_hash_def end_trie_def hash_simps)

lemma no_clashD:
  "\<not> hash_clash H N \<Longrightarrow> n \<in> N \<Longrightarrow> n' \<in> N \<Longrightarrow> getNodeHash H n = getNodeHash H n' \<Longrightarrow> n = n'"
  by (auto simp: hash_clash_def)

text \<open>Without a clash, climbing to the hash of a stored trie follows the path of that trie.\<close>

lemma climb_end:
  assumes "single e" and "hash_of H e = hash_of H t" and "stored H ns t" and "nodeType (ns 0) = EMPTY"
    and "trie_nodes H e \<union> trie_nodes H t \<subseteq> N" and "\<not> hash_clash H N"
    and "\<forall>n \<in> trie_nodes H e. getNodeHash H n \<noteq> 0"
  shows "t = e"
proof (cases e)
  case E
  then show ?thesis using stored_nonzero [OF assms(3,4)] assms(2) by auto
next
  case (L i v)
  show ?thesis
  proof (cases t)
    case E
    with L assms(2,7) show ?thesis by auto
  next
    case (L j w)
    with \<open>e = trie.L i v\<close> no_clashD [OF assms(6), of "leaf_node i v" "leaf_node j w"] assms(2,5)
    show ?thesis by auto
  next
    case (M l r)
    with L no_clashD [OF assms(6), of "leaf_node i v" "middle_node (hash_of H l) (hash_of H r)"] assms(2,5)
    show ?thesis by auto
  qed
next
  case (M l r)
  with assms(1) show ?thesis by simp
qed

lemma climb_path:
  assumes "stored H ns t" and "nodeType (ns 0) = EMPTY" and "single e"
    and "climb H d i ss (hash_of H e) = hash_of H t"
    and "climb_nodes H d i ss (hash_of H e) \<union> trie_nodes H e \<union> trie_nodes H t \<subseteq> N" and "\<not> hash_clash H N"
    and "\<forall>n \<in> climb_nodes H d i ss (hash_of H e) \<union> trie_nodes H e. getNodeHash H n \<noteq> 0"
  shows "path_of H d i t = (ss, e)"
  using assms
proof (induction ss arbitrary: d t)
  case Nil
  then have "t = e" by (intro climb_end [of e H t ns N]) auto
  with Nil.prems(3) show ?case by (cases e) simp_all
next
  case (Cons s ss)
  let ?h = "climb H (Suc d) i ss (hash_of H e)"
  let ?n = "if bit i d then middle_node s ?h else middle_node ?h s"
  have n: "getNodeHash H ?n = hash_of H t" "?n \<in> N" "getNodeHash H ?n \<noteq> 0"
    using Cons.prems(4,5,7) by (auto simp: hash_simps)
  show ?case
  proof (cases t)
    case E
    with n show ?thesis by simp
  next
    case (L j w)
    then have "?n = leaf_node j w" using n Cons.prems(5) by (intro no_clashD [OF Cons.prems(6)]) auto
    then show ?thesis by (simp split: if_splits)
  next
    case (M l r)
    then have node: "?n = middle_node (hash_of H l) (hash_of H r)"
      using n Cons.prems(5) by (intro no_clashD [OF Cons.prems(6)]) auto
    have IH: "path_of H (Suc d) i u = (ss, e)" if "u \<in> {l, r}" "?h = hash_of H u" for u
      using Cons.prems that M by (intro Cons.IH) auto
    show ?thesis
    proof (cases "bit i d")
      case True
      with node IH [of r] M show ?thesis by simp
    next
      case False
      with node IH [of l] M show ?thesis by simp
    qed
  qed
qed

lemma end_single: "single (end_trie p)"
  by (simp add: end_trie_def)

section \<open>Property\<close>

text \<open>C5: Proofs cannot be forged: a proof that a verifier accepts for an existing root, wherever it
  comes from, shows for its index what the contract's own proof shows under that root, or else
  the nodes that it hashes contain two different nodes with one hash (with each other or with
  a stored node), or a node that hashes to zero.\<close>

theorem proofs_cannot_be_forged:
  assumes "reachable H c" and "zero_unused (data c)" and "rootExists (data c) (p_root p)" and "accepts H p"
  shows "(\<exists>q. getProofByRoot (data c) (p_index p) (p_root p) = Inr q \<and> proved_value p = proved_value q)
    \<or> hash_clash H (store_nodes (nodes (data c)) \<union> proof_nodes H p)
    \<or> (\<exists>n \<in> proof_nodes H p. getNodeHash H n = 0)"
proof -
  let ?N = "store_nodes (nodes (data c)) \<union> proof_nodes H p"
  obtain t where t: "tree_at H (data c) (p_root p) t" using reachable_tree [OF assms(1-3)] by blast
  obtain q where q: "getProofByRoot (data c) (p_index p) (p_root p) = Inr q" "proved_value q = lookup 0 t (p_index p)"
    using tree_proof [OF t assms(2,3), of "p_index p"] by blast
  have "proved_value p = lookup 0 t (p_index p)"
    if "\<not> hash_clash H ?N" "\<forall>n \<in> proof_nodes H p. getNodeHash H n \<noteq> 0"
  proof -
    have "path_of H 0 (p_index p) t = (trim (siblings p), end_trie p)"
      using that t assms(2,4) stored_nodes [of H "nodes (data c)" t] end_single [of p]
      by (intro climb_path [of H "nodes (data c)" t "end_trie p" 0 _ _ ?N])
        (auto simp: tree_at_def zero_unused_def accepts_def verifies_def end_hash_trie proof_nodes_def)
    with assms(4) show ?thesis
      by (auto simp: path_lookup [of 0 t "p_index p" H] end_trie_def proved_value_def accepts_def)
  qed
  with q show ?thesis by auto
qed

text \<open>The proof of the sample chain for index 5, with the trailing zeros left out.\<close>

definition short_proof :: Proof where
  "short_proof =
     \<lparr>p_root = root (last (rootEntries (data sample_chain))), existence = True, siblings = [1029, 0, 1017],
      p_index = 5, p_value = 8, auxExistence = False, auxIndex = 0, auxValue = 0\<rparr>"

theorem proofs_cannot_be_forged_witness:
  "proved_value short_proof = Some 8
    \<and> ((\<exists>q. getProofByRoot (data sample_chain) 5 (p_root short_proof) = Inr q \<and> proved_value short_proof = proved_value q)
    \<or> hash_clash sample_poseidon (store_nodes (nodes (data sample_chain)) \<union> proof_nodes sample_poseidon short_proof)
    \<or> (\<exists>n \<in> proof_nodes sample_poseidon short_proof. getNodeHash sample_poseidon n = 0))"
proof -
  have "proved_value short_proof = Some 8" "p_index short_proof = 5" "accepts sample_poseidon short_proof"
    "rootExists (data sample_chain) (p_root short_proof)" by code_simp+
  with proofs_cannot_be_forged [OF sample_chain_facts(1,2), of short_proof] show ?thesis by simp
qed

end
