(* ===== verification/SmtProgress.thy ===== *)
theory SmtProgress
  imports SmtSpec
begin

text \<open>
  Progress of the sparse Merkle tree: in every reachable state some transactions are possible
  that add any given leaf, as no state of the tree is a dead end but for hash collisions.
\<close>

section \<open>Raising the depth\<close>

lemma raise_depth:
  assumes "reachable H c" and "maxDepth (data c) \<noteq> 256"
  shows "apply_tx H (SetMaxDepth 256) c = Inr (c\<lparr>data := (data c)\<lparr>maxDepth := 256\<rparr>\<rparr>)"
proof -
  have "maxDepth (data c) \<le> 256" using reachable_ok [OF assms(1)] by (simp add: state_ok_def)
  with assms(2) have "maxDepth (data c) < 256" by simp
  then have "setMaxDepth (data c) 256 = Inr ((data c)\<lparr>maxDepth := 256\<rparr>)" by (simp add: setMaxDepth_Inr)
  then show ?thesis by (simp add: apply_tx_def)
qed

lemma raised:
  "apply_tx H (SetMaxDepth 256) c = Inr c' \<Longrightarrow> c' = c\<lparr>data := (data c)\<lparr>maxDepth := 256\<rparr>\<rparr>"
  by (auto simp: apply_tx_def bind_sol_Inr setMaxDepth_Inr)

text \<open>At the cap only a hash collision stands in the way of a leaf.\<close>

lemma add_at_cap:
  assumes "reachable H c" and "initialized (data c)" and "zero_unused (data c)" and "maxDepth (data c) = 256"
  shows "(\<exists>c'. apply_tx H (AddLeaf i v) c = Inr c') \<longleftrightarrow> \<not> collides H (data c) i v"
proof -
  have "\<not> crowded (data c) i" using crowded_below_cap [of "data c" i] assms(4) by auto
  with addLeaf_outcome [OF assms(1-3), of i v] show ?thesis
    by (cases "addLeaf H (env c) (data c) i v") (auto simp: apply_tx_def)
qed

lemma add_no_clash:
  assumes "reachable H c" and "initialized (data c)" and "zero_unused (data c)"
    and "apply_tx H (AddLeaf i v) c = Inr c'"
  shows "\<not> collides H (data c) i v"
  using addLeaf_outcome [OF assms(1-3), of i v AssertFailed] addLeaf_outcome [OF assms(1-3), of i v "Revert ''Max depth reached''"] assms(4)
  by (cases "addLeaf H (env c) (data c) i v") (auto simp: apply_tx_def split: if_splits)

section \<open>Property\<close>

text \<open>C14: No state of an initialised tree is a dead end: to any reachable state any leaf can be added, at
  once or after raising the depth to its cap, and is then part of the content, exactly if no two
  different nodes, among the stored ones and those of the canonical trie of the new map, have
  one hash.\<close>

theorem any_leaf_can_be_added:
  assumes "reachable H c" and "initialized (data c)" and "zero_unused (data c)"
  shows "(\<exists>txs c'. txs \<in> {[AddLeaf i v], [SetMaxDepth 256, AddLeaf i v]}
        \<and> run_steps (map (apply_tx H) txs) c = Inr c'
        \<and> (zero_unused (data c') \<longrightarrow> content (data c') = (content (data c))(i \<mapsto> v)))
    \<longleftrightarrow> \<not> collides H (data c) i v"
proof -
  let ?txs = "if maxDepth (data c) = 256 then [] else [SetMaxDepth 256]"
  let ?s = "(data c)\<lparr>maxDepth := 256\<rparr>"
  let ?c = "c\<lparr>data := ?s\<rparr>"
  have run: "run_steps (map (apply_tx H) ?txs) c = Inr ?c"
    using raise_depth [OF assms(1)] by auto
  have reach: "reachable H ?c" by (rule run_reachable [OF assms(1) run])
  have zero: "zero_unused ?s" using assms(3) by (simp add: zero_unused_def)
  have same: "content ?s = content (data c)"
    using content_run [OF assms(1) run] zero by (auto simp: map_step_def split: if_splits)
  have clash: "collides H ?s i v \<longleftrightarrow> collides H (data c) i v" by (simp add: collides_def same)
  show ?thesis
  proof
    assume "\<not> collides H (data c) i v"
    then obtain c' where "apply_tx H (AddLeaf i v) ?c = Inr c'"
      using add_at_cap [OF reach, of i v] assms(2) zero clash by auto
    with run have all: "run_steps (map (apply_tx H) (?txs @ [AddLeaf i v])) c = Inr c'"
      by (simp add: run_steps_append)
    have "zero_unused (data c') \<longrightarrow> content (data c') = (content (data c))(i \<mapsto> v)"
      using content_run [OF assms(1) all] by (auto simp: map_step_def)
    with all show "\<exists>txs c'. txs \<in> {[AddLeaf i v], [SetMaxDepth 256, AddLeaf i v]}
        \<and> run_steps (map (apply_tx H) txs) c = Inr c'
        \<and> (zero_unused (data c') \<longrightarrow> content (data c') = (content (data c))(i \<mapsto> v))"
      by (intro exI [of _ "?txs @ [AddLeaf i v]"] exI [of _ c']) simp
  next
    assume "\<exists>txs c'. txs \<in> {[AddLeaf i v], [SetMaxDepth 256, AddLeaf i v]}
        \<and> run_steps (map (apply_tx H) txs) c = Inr c'
        \<and> (zero_unused (data c') \<longrightarrow> content (data c') = (content (data c))(i \<mapsto> v))"
    then obtain c' where "run_steps (map (apply_tx H) [AddLeaf i v]) c = Inr c'
        \<or> run_steps (map (apply_tx H) [SetMaxDepth 256, AddLeaf i v]) c = Inr c'" by blast
    then have "apply_tx H (AddLeaf i v) c = Inr c' \<or> apply_tx H (AddLeaf i v) ?c = Inr c'"
      by (auto simp: run_steps_Cons_Inr simp del: run_steps.simps(2) dest: raised)
    then show "\<not> collides H (data c) i v"
      using add_no_clash [OF assms, of i v c'] add_no_clash [OF reach, of i v c'] assms(2) zero clash by auto
  qed
qed

theorem any_leaf_can_be_added_witness:
  "\<exists>c. sample_run [Initialize 1, AddLeaf 1 7] = Inr c
     \<and> addLeaf sample_poseidon (env c) (data c) 3 8 = Inl (Revert ''Max depth reached'')
     \<and> \<not> collides sample_poseidon (data c) 3 8"
proof -
  have "(case sample_run [Initialize 1, AddLeaf 1 7] of
      Inr c \<Rightarrow> zero_unused (data c) \<and> initialized (data c)
        \<and> addLeaf sample_poseidon (env c) (data c) 3 8 = Inl (Revert ''Max depth reached'')
        \<and> (case run_steps (map (apply_tx sample_poseidon) [SetMaxDepth 256, AddLeaf 3 8]) c of
             Inr _ \<Rightarrow> True | Inl _ \<Rightarrow> False)
    | Inl e \<Rightarrow> False)" by code_simp
  then obtain c c' where run: "sample_run [Initialize 1, AddLeaf 1 7] = Inr c"
    and c: "zero_unused (data c)" "initialized (data c)"
      "addLeaf sample_poseidon (env c) (data c) 3 8 = Inl (Revert ''Max depth reached'')"
      "run_steps (map (apply_tx sample_poseidon) [SetMaxDepth 256, AddLeaf 3 8]) c = Inr c'"
    by (auto split: sum.splits)
  have "zero_unused (data c') \<longrightarrow> content (data c') = (content (data c))(3 \<mapsto> 8)"
    using content_run [OF sample_run_reachable [OF run] c(4)] by (auto simp: map_step_def)
  with any_leaf_can_be_added [OF sample_run_reachable [OF run] c(2,1), of 3 8] run c(3,4)
  show ?thesis by blast
qed

end
