(* ===== verification/SmtTyping.thy ===== *)
theory SmtTyping
  imports SmtSpec
begin

text \<open>
  The typing of the node store: every stored node has the form that the contract gives to nodes
  of its type, and its children are stored too.  Nothing is assumed of the hash function.
\<close>

section \<open>Well-typed stores\<close>

text \<open>A hash that can be followed: the empty tree's, or that of a stored node.\<close>

definition followable :: "node_store \<Rightarrow> uint256 \<Rightarrow> bool" where
  "followable ns h \<longleftrightarrow> h = 0 \<or> nodeType (ns h) \<noteq> EMPTY"

definition well_typed_node :: "node_store \<Rightarrow> Node \<Rightarrow> bool" where
  "well_typed_node ns n =
     (case nodeType n of
        EMPTY \<Rightarrow> n = empty_node
      | LEAF \<Rightarrow> childLeft n = 0 \<and> childRight n = 0
      | MIDDLE \<Rightarrow> index n = 0 \<and> nvalue n = 0 \<and> followable ns (childLeft n) \<and> followable ns (childRight n))"

definition well_typed :: "node_store \<Rightarrow> bool" where
  "well_typed ns \<longleftrightarrow> (\<forall>h. well_typed_node ns (ns h))"

lemma well_typed_simps [simp]:
  "well_typed_node ns (leaf_node i v)"
  "well_typed_node ns (middle_node l r) \<longleftrightarrow> followable ns l \<and> followable ns r"
  "followable ns 0"
  by (simp_all add: well_typed_node_def followable_def leaf_node_def middle_node_def)

lemma followable_grows: "extends_nodes ns ns' \<Longrightarrow> followable ns h \<Longrightarrow> followable ns' h"
  by (auto simp: followable_def store.extends_store_def)

lemma well_typed_node_grows:
  "extends_nodes ns ns' \<Longrightarrow> well_typed_node ns n \<Longrightarrow> well_typed_node ns' n"
  by (auto simp: well_typed_node_def followable_grows split: NodeType.splits)

text \<open>
  \<open>typed_write ns res\<close>: a sequence of writes on \<open>ns\<close> left a well-typed store that keeps every
  node, and the hash it returned can be followed there.
\<close>

definition typed_write :: "node_store \<Rightarrow> node_store \<times> uint256 \<Rightarrow> bool" where
  "typed_write ns res \<longleftrightarrow> well_typed (fst res) \<and> extends_nodes ns (fst res) \<and> followable (fst res) (snd res)"

lemma addNode_typed:
  assumes "addNode H ns n = Inr res" and "well_typed ns" and "well_typed_node ns n" and "nodeType n \<noteq> EMPTY"
  shows "typed_write ns res"
proof -
  obtain ns' h where res: "res = (ns', h)" by (cases res)
  with assms(1) have add: "addNode H ns n = Inr (ns', h)" by simp
  have grow: "extends_nodes ns ns'" by (rule store.put_extends [OF add])
  have at: "ns' h = n" by (rule store.put_get [OF add assms(4)])
  have "well_typed_node ns' (ns' k)" for k
  proof (cases "ns' k = ns k")
    case True
    then show ?thesis using well_typed_node_grows [OF grow] assms(2) by (simp add: well_typed_def)
  next
    case False
    then have "k = h" by (rule store.put_only [OF add])
    then show ?thesis using well_typed_node_grows [OF grow assms(3)] at by simp
  qed
  with grow at assms(4) show ?thesis by (simp add: typed_write_def well_typed_def res followable_def)
qed

lemma typed_write_then:
  assumes "typed_write ns (ns1, h1)" and "addNode H ns1 n = Inr res" and "nodeType n \<noteq> EMPTY"
    and "extends_nodes ns ns1 \<Longrightarrow> followable ns1 h1 \<Longrightarrow> well_typed_node ns1 n"
  shows "typed_write ns res"
proof -
  have "typed_write ns1 res"
    using assms by (intro addNode_typed [OF assms(2)]) (simp_all add: typed_write_def)
  with assms(1) show ?thesis using store.kept_trans by (auto simp: typed_write_def)
qed

lemma well_typed_forms:
  assumes "well_typed_node ns n"
  shows "n = empty_node \<or> (\<exists>i v. n = leaf_node i v)
    \<or> (\<exists>l r. n = middle_node l r \<and> followable ns l \<and> followable ns r)"
proof (cases "nodeType n")
  case EMPTY
  with assms show ?thesis by (simp add: well_typed_node_def)
next
  case LEAF
  with assms have "n = leaf_node (index n) (nvalue n)" by (simp add: well_typed_node_def leaf_node_def)
  then show ?thesis by blast
next
  case MIDDLE
  with assms have "n = middle_node (childLeft n) (childRight n)"
    "followable ns (childLeft n)" "followable ns (childRight n)"
    by (simp_all add: well_typed_node_def middle_node_def)
  then show ?thesis by blast
qed

section \<open>Insertion keeps the store well typed\<close>

lemma pushLeaf_typed:
  "pushLeaf H md ns (leaf_node i v) old d = Inr res \<Longrightarrow> well_typed ns \<Longrightarrow> followable ns (getNodeHash H old) \<Longrightarrow>
     typed_write ns res"
proof (induction H md ns "leaf_node i v" old d arbitrary: res rule: pushLeaf.induct)
  case (1 H md ns old d)
  let ?new = "leaf_node i v"
  from "1.prems"(1) have d: "\<not> d \<ge> md" by (auto simp: pushLeaf.simps [of H md])
  show ?case
  proof (cases "bit_at (index ?new) d = bit_at (index old) d")
    case True
    with "1.prems"(1) d obtain ns1 h1
      where rec: "pushLeaf H md ns ?new old (d + 1) = Inr (ns1, h1)"
        and add: "addNode H ns1 (if bit_at (index ?new) d then middle_node 0 h1 else middle_node h1 0) = Inr res"
      by (auto simp: pushLeaf.simps [of H md _ _ _ d] bind_sol_Inr)
    show ?thesis
      by (rule typed_write_then [OF "1.hyps" [OF d refl refl True rec "1.prems"(2,3)] add]) simp_all
  next
    case False
    with "1.prems"(1) d obtain ns1 h1
      where put: "addNode H ns ?new = Inr (ns1, h1)"
        and add: "addNode H ns1
          (if bit_at (index ?new) d then middle_node (getNodeHash H old) (getNodeHash H ?new)
           else middle_node (getNodeHash H ?new) (getNodeHash H old)) = Inr res"
      by (auto simp: pushLeaf.simps [of H md _ _ _ d] bind_sol_Inr Let_def)
    have "typed_write ns (ns1, h1)" by (rule addNode_typed [OF put "1.prems"(2)]) simp_all
    from typed_write_then [OF this add] show ?thesis
      using store.put_hash [OF put] followable_grows [OF _ "1.prems"(3)] by auto
  qed
qed

lemma addLeaf_internal_typed:
  "addLeaf_internal H md ns (leaf_node i v) k d = Inr res \<Longrightarrow> well_typed ns \<Longrightarrow> addressed_nodes H ns \<Longrightarrow>
     typed_write ns res"
proof (induction H md ns "leaf_node i v" k d arbitrary: res rule: addLeaf_internal.induct)
  case (1 H md ns k d)
  let ?new = "leaf_node i v"
  from "1.prems"(1) have d: "\<not> d > md" by (auto simp: addLeaf_internal.simps [of H md])
  note run = "1.prems"(1) [unfolded addLeaf_internal.simps [of H md ns ?new k d]]
  have node: "well_typed_node ns (ns k)" using "1.prems"(2) by (simp add: well_typed_def)
  show ?case
  proof (cases "nodeType (ns k)")
    case EMPTY
    with run d show ?thesis by (auto intro: addNode_typed "1.prems"(2))
  next
    case LEAF
    have "followable ns (getNodeHash H (ns k))"
      using "1.prems"(3) LEAF by (simp add: store.addressed_def followable_def)
    with run d LEAF "1.prems"(2) show ?thesis
      by (auto simp: Let_def intro: addNode_typed pushLeaf_typed split: if_splits)
  next
    case MIDDLE
    then have kids: "followable ns (childLeft (ns k))" "followable ns (childRight (ns k))"
      using node by (simp_all add: well_typed_node_def)
    show ?thesis
    proof (cases "bit_at (index ?new) d")
      case True
      with run d MIDDLE obtain ns1 h1
        where rec: "addLeaf_internal H md ns ?new (childRight (ns k)) (d + 1) = Inr (ns1, h1)"
          and add: "addNode H ns1 (middle_node (childLeft (ns k)) h1) = Inr res"
        by (auto simp: bind_sol_Inr Let_def)
      show ?thesis
        by (rule typed_write_then [OF "1.hyps"(1) [OF d refl MIDDLE True rec "1.prems"(2,3)] add])
          (simp_all add: followable_grows [OF _ kids(1)])
    next
      case False
      with run d MIDDLE obtain ns1 h1
        where rec: "addLeaf_internal H md ns ?new (childLeft (ns k)) (d + 1) = Inr (ns1, h1)"
          and add: "addNode H ns1 (middle_node h1 (childRight (ns k))) = Inr res"
        by (auto simp: bind_sol_Inr Let_def)
      show ?thesis
        by (rule typed_write_then [OF "1.hyps"(2) [OF d refl MIDDLE False rec "1.prems"(2,3)] add])
          (simp_all add: followable_grows [OF _ kids(2)])
    qed
  qed
qed

section \<open>Reachable states\<close>

definition typed_state :: "smt_data \<Rightarrow> bool" where
  "typed_state s \<longleftrightarrow> well_typed (nodes s) \<and> (\<forall>e \<in> set (rootEntries s). followable (nodes s) (root e))"

lemma typed_state_tx:
  assumes "reachable H c" and "typed_state (data c)" and "apply_tx H x c = Inr c'"
  shows "typed_state (data c')"
proof (cases x)
  case (Initialize d)
  with assms(2,3) show ?thesis
    by (auto simp: apply_tx_def bind_sol_Inr initialize_Inr typed_state_def)
next
  case (SetMaxDepth d)
  with assms(2,3) show ?thesis by (auto simp: apply_tx_def bind_sol_Inr setMaxDepth_Inr typed_state_def)
next
  case (AddLeaf i v)
  with assms(3) obtain s' where run: "addLeaf H (env c) (data c) i v = Inr s'" and c': "data c' = s'"
    by (auto simp: apply_tx_def bind_sol_Inr)
  from run obtain r0 res where
    core: "addLeaf_internal H (unat (maxDepth (data c))) (nodes (data c)) (leaf_node i v) r0 0 = Inr res"
    and s': "s' = addEntry ((data c)\<lparr>nodes := fst res\<rparr>) (snd res) (block_timestamp (env c)) (block_number (env c))"
    by (auto simp: addLeaf_def bind_sol_Inr)
  have "addressed_nodes H (nodes (data c))" using reachable_ok [OF assms(1)] by (simp add: state_ok_def)
  with addLeaf_internal_typed [OF core] assms(2) show ?thesis
    by (auto simp: c' s' typed_state_def typed_write_def followable_grows)
next
  case (NextBlock t n)
  with assms(2,3) show ?thesis by (auto simp: apply_tx_def bind_sol_Inr)
qed

lemma reachable_typed: "reachable H c \<Longrightarrow> typed_state (data c)"
proof (induction rule: reachable.induct)
  case (reach_start c)
  then show ?case by (simp add: typed_state_def zero_data_def well_typed_def well_typed_node_def)
next
  case (reach_tx c x c')
  show ?case by (rule typed_state_tx [OF reach_tx.hyps(1) reach_tx.IH reach_tx.hyps(2)])
qed

section \<open>Property\<close>

text \<open>C12: The node store is well typed in every reachable state, for every hash function: what a hash
  leads to is the untouched zero node, or a leaf without children, or a middle node without
  index and value whose two children are the empty tree or stored themselves; every stored
  node stands under its own hash; and every root of the history is the empty tree or stored.
  So \<open>getNode\<close> can be followed from any root without meeting a dangling hash.\<close>

theorem node_store_well_typed:
  assumes "reachable H c"
  shows "(let n = getNode (data c) h;
             stored = (\<lambda>k. k = 0 \<or> nodeType (getNode (data c) k) \<noteq> EMPTY)
         in n = empty_node
          \<or> (\<exists>i v. n = leaf_node i v \<and> getNodeHash H n = h)
          \<or> (\<exists>l r. n = middle_node l r \<and> getNodeHash H n = h \<and> stored l \<and> stored r))
    \<and> list_all (\<lambda>e. root e = 0 \<or> nodeType (getNode (data c) (root e)) \<noteq> EMPTY) (rootEntries (data c))"
proof -
  let ?ns = "nodes (data c)"
  have typed: "typed_state (data c)" by (rule reachable_typed [OF assms])
  then have node: "well_typed_node ?ns (?ns h)" by (simp add: typed_state_def well_typed_def)
  have hash: "nodeType (?ns h) \<noteq> EMPTY \<Longrightarrow> getNodeHash H (?ns h) = h"
    using reachable_ok [OF assms] by (simp add: state_ok_def store.addressed_def)
  have "?ns h = empty_node \<or> (\<exists>i v. ?ns h = leaf_node i v \<and> getNodeHash H (?ns h) = h) \<or>
      (\<exists>l r. ?ns h = middle_node l r \<and> getNodeHash H (?ns h) = h \<and> followable ?ns l \<and> followable ?ns r)"
    using well_typed_forms [OF node] hash by (metis node_sel(2,5) NodeType.distinct(1,3))
  moreover have "list_all (\<lambda>e. root e = 0 \<or> nodeType (getNode (data c) (root e)) \<noteq> EMPTY) (rootEntries (data c))"
    using typed by (simp add: typed_state_def followable_def getNode_def list_all_iff)
  ultimately show ?thesis
    unfolding getNode_def followable_def Let_def by blast
qed

theorem node_store_well_typed_witness:
  "(let s = data sample_chain; h = root (last (rootEntries s))
    in \<exists>l r. getNode s h = middle_node l r \<and> getNodeHash sample_poseidon (getNode s h) = h
         \<and> nodeType (getNode s l) = LEAF \<and> nodeType (getNode s r) = MIDDLE)"
proof -
  let ?s = "data sample_chain"
  let ?h = "root (last (rootEntries ?s))"
  have kinds: "nodeType (getNode ?s ?h) = MIDDLE" "nodeType (getNode ?s (childLeft (getNode ?s ?h))) = LEAF"
    "nodeType (getNode ?s (childRight (getNode ?s ?h))) = MIDDLE"
    by code_simp+
  from node_store_well_typed [OF sample_chain_facts(1), of ?h] kinds show ?thesis
    by (auto simp: Let_def)
qed

end
