(* ===== verification/SmtGrowth.thy ===== *)
theory SmtGrowth
  imports SmtSpec
begin

text \<open>
  How much storage the sparse Merkle tree takes: the number of nodes and history entries that
  transactions can add.
\<close>

section \<open>Nodes written\<close>

definition stored_hashes :: "node_store \<Rightarrow> uint256 set" where
  "stored_hashes ns = {h. nodeType (ns h) \<noteq> EMPTY}"

abbreviation stored_count :: "node_store \<Rightarrow> nat" where
  "stored_count ns \<equiv> card (stored_hashes ns)"

lemma addNode_count: "addNode H ns n = Inr (ns', h) \<Longrightarrow> stored_count ns' \<le> stored_count ns + 1"
proof -
  assume "addNode H ns n = Inr (ns', h)"
  then have "stored_hashes ns' \<subseteq> insert h (stored_hashes ns)"
    by (auto simp: addNode_Inr stored_hashes_def split: if_splits)
  then have "stored_count ns' \<le> card (insert h (stored_hashes ns))" by (intro card_mono) simp_all
  also have "\<dots> \<le> stored_count ns + 1" by (simp add: card_insert_if)
  finally show ?thesis .
qed

lemma pushLeaf_count:
  "pushLeaf H md ns new old d = Inr (ns', h) \<Longrightarrow> stored_count ns' \<le> stored_count ns + (md - d) + 1"
proof (induction H md ns new old d arbitrary: ns' h rule: pushLeaf.induct)
  case (1 H md ns new old d)
  from "1.prems" have d: "d < md" by (auto simp: pushLeaf.simps [of H md] split: if_splits)
  show ?case
  proof (cases "bit_at (index new) d = bit_at (index old) d")
    case True
    with "1.prems" d obtain ns1 h1 n
      where rec: "pushLeaf H md ns new old (d + 1) = Inr (ns1, h1)" and add: "addNode H ns1 n = Inr (ns', h)"
      by (auto simp: pushLeaf.simps [of H md _ _ _ d] bind_sol_Inr)
    have "\<not> md \<le> d" using d by simp
    from "1.IH" [OF this refl refl True rec] addNode_count [OF add] d show ?thesis by linarith
  next
    case False
    with "1.prems" d obtain ns1 h1 n
      where "addNode H ns new = Inr (ns1, h1)" and "addNode H ns1 n = Inr (ns', h)"
      by (auto simp: pushLeaf.simps [of H md _ _ _ d] bind_sol_Inr Let_def)
    from this [THEN addNode_count] d show ?thesis by linarith
  qed
qed

lemma addLeaf_internal_count:
  "addLeaf_internal H md ns new k d = Inr (ns', h) \<Longrightarrow> stored_count ns' \<le> stored_count ns + (md - d) + 1"
proof (induction H md ns new k d arbitrary: ns' h rule: addLeaf_internal.induct)
  case (1 H md ns new k d)
  from "1.prems" have d: "\<not> d > md" by (auto simp: addLeaf_internal.simps [of H md] split: if_splits)
  note run = "1.prems" [unfolded addLeaf_internal.simps [of H md ns new k d]]
  show ?case
  proof (cases "nodeType (ns k)")
    case EMPTY
    with run d have "addNode H ns new = Inr (ns', h)" by simp
    from addNode_count [OF this] show ?thesis by linarith
  next
    case LEAF
    with run d have "addNode H ns new = Inr (ns', h) \<or> pushLeaf H md ns new (ns k) d = Inr (ns', h)"
      by (auto simp: Let_def split: if_splits)
    then show ?thesis using addNode_count pushLeaf_count by fastforce
  next
    case MIDDLE
    have deeper: "d + 1 \<le> md"
      if "addLeaf_internal H md ns new j (d + 1) = Inr r" for j r
      using that by (auto simp: addLeaf_internal.simps [of H md _ _ _ "Suc d"] split: if_splits)
    show ?thesis
    proof (cases "bit_at (index new) d")
      case True
      with run d MIDDLE obtain ns1 h1 n
        where rec: "addLeaf_internal H md ns new (childRight (ns k)) (d + 1) = Inr (ns1, h1)"
          and add: "addNode H ns1 n = Inr (ns', h)"
        by (auto simp: bind_sol_Inr Let_def)
      from "1.IH"(1) [OF d refl MIDDLE True rec] addNode_count [OF add] deeper [OF rec] show ?thesis by linarith
    next
      case False
      with run d MIDDLE obtain ns1 h1 n
        where rec: "addLeaf_internal H md ns new (childLeft (ns k)) (d + 1) = Inr (ns1, h1)"
          and add: "addNode H ns1 n = Inr (ns', h)"
        by (auto simp: bind_sol_Inr Let_def)
      from "1.IH"(2) [OF d refl MIDDLE False rec] addNode_count [OF add] deeper [OF rec] show ?thesis by linarith
    qed
  qed
qed

section \<open>Budgets of transactions\<close>

text \<open>A leaf may take one node per level and its own; the other transactions write no nodes.\<close>

primrec node_budget :: "tx \<Rightarrow> chain \<Rightarrow> nat" where
  "node_budget (AddLeaf i v) c = unat (maxDepth (data c)) + 1"
| "node_budget (Initialize d) c = 0"
| "node_budget (SetMaxDepth d) c = 0"
| "node_budget (NextBlock t n) c = 0"

primrec entry_budget :: "tx \<Rightarrow> nat" where
  "entry_budget (AddLeaf i v) = 1"
| "entry_budget (Initialize d) = 1"
| "entry_budget (SetMaxDepth d) = 0"
| "entry_budget (NextBlock t n) = 0"

lemma tx_writes:
  assumes "apply_tx H x c = Inr c'"
  shows "maxDepth (data c) \<le> maxDepth (data c')
    \<and> stored_count (nodes (data c')) \<le> stored_count (nodes (data c)) + node_budget x c
    \<and> length (rootEntries (data c')) = length (rootEntries (data c)) + entry_budget x"
proof (cases x)
  case (AddLeaf i v)
  with assms show ?thesis
    using addLeaf_internal_count [where d = 0]
    by (auto simp: apply_tx_def bind_sol_Inr addLeaf_def addEntry_def Let_def)
qed (use assms in \<open>auto simp: apply_tx_def bind_sol_Inr initialize_Inr setMaxDepth_Inr addEntry_def Let_def\<close>)

lemma node_budget_mono:
  "maxDepth (data c) \<le> maxDepth (data c') \<Longrightarrow> node_budget y c \<le> node_budget y c'"
  by (cases y) (simp_all add: word_le_nat_alt)

interpretation storage: step_budget "\<lambda>_. True" "apply_tx H" "\<lambda>c. stored_count (nodes (data c))" node_budget for H
proof
  fix x y s s'
  assume "apply_tx H x s = Inr s'"
  note writes = tx_writes [OF this]
  then show "node_budget y s \<le> node_budget y s'" by (simp add: node_budget_mono)
  show "stored_count (nodes (data s')) \<le> stored_count (nodes (data s)) + node_budget x s'"
    using writes node_budget_mono [of s s' x] by linarith
qed simp

lemma run_entries:
  "run_steps (map (apply_tx H) txs) c = Inr c' \<Longrightarrow>
     length (rootEntries (data c')) = length (rootEntries (data c)) + (\<Sum>x\<leftarrow>txs. entry_budget x)"
proof (induction txs arbitrary: c)
  case Nil
  then show ?case by simp
next
  case (Cons x txs)
  then obtain u where "apply_tx H x c = Inr u" "run_steps (map (apply_tx H) txs) u = Inr c'"
    by (auto split: sum.splits)
  with Cons.IH [of u] tx_writes [of H x c u] show ?case by simp
qed

section \<open>Property\<close>

definition leaves_added :: "tx list \<Rightarrow> nat" where
  "leaves_added txs = (\<Sum>x\<leftarrow>txs. case x of AddLeaf _ _ \<Rightarrow> 1 | _ \<Rightarrow> 0)"

definition initializations :: "tx list \<Rightarrow> nat" where
  "initializations txs = (\<Sum>x\<leftarrow>txs. case x of Initialize _ \<Rightarrow> 1 | _ \<Rightarrow> 0)"

lemma count_Cons [simp]:
  "leaves_added [] = 0" "initializations [] = 0"
  "leaves_added (x # txs) = (case x of AddLeaf _ _ \<Rightarrow> 1 | _ \<Rightarrow> 0) + leaves_added txs"
  "initializations (x # txs) = (case x of Initialize _ \<Rightarrow> 1 | _ \<Rightarrow> 0) + initializations txs"
  by (simp_all add: leaves_added_def initializations_def)

lemma node_budgets: "(\<Sum>x\<leftarrow>txs. node_budget x c) = leaves_added txs * (unat (maxDepth (data c)) + 1)"
  by (induction txs) (auto split: tx.split)

lemma entry_budgets: "(\<Sum>x\<leftarrow>txs. entry_budget x) = leaves_added txs + initializations txs"
  by (induction txs) (auto split: tx.split)

lemma initializations_once:
  "run_steps (map (apply_tx H) txs) c = Inr c' \<Longrightarrow>
     initializations txs \<le> (if initialized (data c) then 0 else 1)"
proof (induction txs arbitrary: c)
  case Nil
  then show ?case by simp
next
  case (Cons x txs)
  then obtain u where u: "apply_tx H x c = Inr u" "run_steps (map (apply_tx H) txs) u = Inr c'"
    by (auto split: sum.splits)
  have "(case x of Initialize _ \<Rightarrow> \<not> initialized (data c) \<and> initialized (data u)
      | _ \<Rightarrow> initialized (data u) = initialized (data c))"
    using u(1)
    by (cases x) (auto simp: apply_tx_def bind_sol_Inr initialize_Inr setMaxDepth_Inr addLeaf_def addEntry_def Let_def)
  with Cons.IH [OF u(2)] show ?case
    by (auto split: tx.splits if_splits)
qed

text \<open>C13: Storage grows at most linearly: any run of transactions adds at most one node per level of
  the final depth, and one more, for each leaf that it adds, so at most 257 nodes a leaf; and
  the history gains exactly one entry for each leaf and for the initialisation, of which there
  is at most one.  Nothing is assumed of the hash function.\<close>

theorem storage_growth_bounded:
  assumes "reachable H c" and "run_steps (map (apply_tx H) txs) c = Inr c'"
  shows "card {h. nodeType (getNode (data c') h) \<noteq> EMPTY}
      \<le> card {h. nodeType (getNode (data c) h) \<noteq> EMPTY} + leaves_added txs * (unat (getMaxDepth (data c')) + 1)
    \<and> getMaxDepth (data c') \<le> 256
    \<and> getRootHistoryLength (data c') = getRootHistoryLength (data c) + leaves_added txs + initializations txs
    \<and> initializations txs \<le> 1"
proof -
  have reach: "reachable H c'" by (rule run_reachable [OF assms])
  have "card {h. nodeType (getNode (data c') h) \<noteq> EMPTY} \<le>
      card {h. nodeType (getNode (data c) h) \<noteq> EMPTY} + leaves_added txs * (unat (getMaxDepth (data c')) + 1)"
    using storage.run_within [OF TrueI assms(2)]
    by (simp add: node_budgets stored_hashes_def getNode_def getMaxDepth_def)
  moreover have "getMaxDepth (data c') \<le> 256"
    using reachable_ok [OF reach] by (simp add: state_ok_def getMaxDepth_def)
  moreover have "initializations txs \<le> 1"
    using initializations_once [OF assms(2)] by (simp split: if_splits)
  ultimately show ?thesis
    using run_entries [OF assms(2)] by (simp add: entry_budgets getRootHistoryLength_def)
qed

theorem storage_growth_bounded_witness:
  "getRootHistoryLength (data sample_chain) = 4 \<and> leaves_added sample_txs = 3
   \<and> card {h. nodeType (getNode (data sample_chain) h) \<noteq> EMPTY} \<le> 3 * 9"
proof -
  have start: "reachable sample_poseidon start_chain"
    by (rule reach_start) (simp add: start_chain_def)
  have counts: "leaves_added sample_txs = 3" "initializations sample_txs = 1"
    by code_simp+
  have depth: "getMaxDepth (data sample_chain) = 8" by code_simp
  from storage_growth_bounded [OF start sample_chain_run [unfolded sample_run_def]] show ?thesis
    by (simp add: counts depth start_chain_def zero_data_def getRootHistoryLength_def getNode_def)
qed

end
