(* ===== verification/Deploy.thy ===== *)
theory Deploy
  imports SmtNodes
begin

text \<open>
  The deployment script \<open>contracts/script/DeployZetoAnon.s.sol\<close>: which contracts it creates, and what
  it registers with the token factory.  The contracts themselves are not part of the repository:
  the address and the failure of a creation and the failure of the registration are parameters.
\<close>

section \<open>State\<close>

type_synonym address = "160 word"

record verifiers_info =
  verifier :: address
  depositVerifier :: address
  withdrawVerifier :: address
  lockVerifier :: address
  burnVerifier :: address
  batchVerifier :: address
  batchWithdrawVerifier :: address
  batchLockVerifier :: address
  batchBurnVerifier :: address

record implementation_info =
  implementation :: address
  verifiers :: verifiers_info

text \<open>
  Whether the script broadcasts, the contracts created, the registrations made (factory, name,
  info) and the lines logged, each in order.
\<close>

record deployment =
  broadcasting :: bool
  created :: "(string \<times> address) list"
  registered :: "(address \<times> string \<times> implementation_info) list"
  console :: "(string \<times> address) list"

text \<open>\<open>new_address n\<close> is the address of the deployer's \<open>n\<close>-th creation.\<close>

record evm_lib =
  new_address :: "nat \<Rightarrow> address"
  creation_fails :: "string \<Rightarrow> sol_error option"
  registration_fails :: "string \<Rightarrow> implementation_info \<Rightarrow> sol_error option"

definition ZERO :: address where
  "ZERO = 0"

section \<open>The script\<close>

text \<open>\<open>new C()\<close>: the next address of the deployer, or the failure of the creation.\<close>

definition create :: "evm_lib \<Rightarrow> string \<Rightarrow> deployment \<Rightarrow> sol_error + (deployment \<times> address)" where
  "create E name d =
     (case creation_fails E name of
        Some e \<Rightarrow> Inl e
      | None \<Rightarrow>
          let a = new_address E (length (created d))
          in Inr (d\<lparr>created := created d @ [(name, a)]\<rparr>, a))"

definition registerImplementation ::
  "evm_lib \<Rightarrow> address \<Rightarrow> string \<Rightarrow> implementation_info \<Rightarrow> deployment \<Rightarrow> sol_error + deployment" where
  "registerImplementation E factory name info d =
     (case registration_fails E name info of
        Some e \<Rightarrow> Inl e
      | None \<Rightarrow> Inr (d\<lparr>registered := registered d @ [(factory, name, info)]\<rparr>))"

definition deploy_run :: "evm_lib \<Rightarrow> deployment \<Rightarrow> sol_error + deployment" where
  "deploy_run E d =
     (let d = d\<lparr>broadcasting := True\<rparr> in
      bind_sol (create E ''Groth16Verifier_AnonEncNullifierNonRepudiation'' d) (\<lambda>(d, transferV).
      bind_sol (create E ''Groth16Verifier_AnonEncNullifierNonRepudiationBatch'' d) (\<lambda>(d, transferBatchV).
      bind_sol (create E ''Groth16Verifier_Deposit'' d) (\<lambda>(d, depositV).
      bind_sol (create E ''Groth16Verifier_WithdrawNullifier'' d) (\<lambda>(d, withdrawNullV).
      bind_sol (create E ''Groth16Verifier_WithdrawNullifierBatch'' d) (\<lambda>(d, withdrawNullBatchV).
      bind_sol (create E ''Zeto_AnonEncNullifierNonRepudiation'' d) (\<lambda>(d, implNonRepudiation).
      bind_sol (create E ''ZetoTokenFactory'' d) (\<lambda>(d, factory).
      bind_sol (registerImplementation E factory ''Zeto_AnonEncNullifierNonRepudiation''
          \<lparr>implementation = implNonRepudiation,
           verifiers =
             \<lparr>verifier = transferV,
              depositVerifier = depositV,
              withdrawVerifier = withdrawNullV,
              lockVerifier = ZERO,
              burnVerifier = ZERO,
              batchVerifier = transferBatchV,
              batchWithdrawVerifier = withdrawNullBatchV,
              batchLockVerifier = ZERO,
              batchBurnVerifier = ZERO\<rparr>\<rparr> d) (\<lambda>d.
      let d = d\<lparr>broadcasting := False\<rparr>
      in Inr (d\<lparr>console := console d @
           [(''Groth16Verifier_AnonEncNullifierNonRepudiation:'', transferV),
            (''Groth16Verifier_AnonEncNullifierNonRepudiationBatch:'', transferBatchV),
            (''Zeto_AnonEncNullifierNonRepudiation (impl):'', implNonRepudiation),
            (''ZetoTokenFactory:'', factory)]\<rparr>))))))))))"

section \<open>Lemmas\<close>

definition fresh_deployment :: deployment where
  "fresh_deployment = \<lparr>broadcasting = False, created = [], registered = [], console = []\<rparr>"

definition contract_names :: "string list" where
  "contract_names =
     [''Groth16Verifier_AnonEncNullifierNonRepudiation'', ''Groth16Verifier_AnonEncNullifierNonRepudiationBatch'',
      ''Groth16Verifier_Deposit'', ''Groth16Verifier_WithdrawNullifier'', ''Groth16Verifier_WithdrawNullifierBatch'',
      ''Zeto_AnonEncNullifierNonRepudiation'', ''ZetoTokenFactory'']"

text \<open>The contract at an address.\<close>

definition contract_at :: "deployment \<Rightarrow> address \<Rightarrow> string option" where
  "contract_at d a = map_of (map (\<lambda>(n, b). (b, n)) (created d)) a"

lemma create_Inr:
  "create E n d = Inr (d', a) \<longleftrightarrow>
     creation_fails E n = None \<and> a = new_address E (length (created d)) \<and> d' = d\<lparr>created := created d @ [(n, a)]\<rparr>"
  by (auto simp: create_def Let_def split: option.splits)

lemma registerImplementation_Inr:
  "registerImplementation E f n i d = Inr d' \<longleftrightarrow>
     registration_fails E n i = None \<and> d' = d\<lparr>registered := registered d @ [(f, n, i)]\<rparr>"
  by (auto simp: registerImplementation_def split: option.splits)

text \<open>The addresses of the script's seven creations are different and not zero.\<close>

definition fresh_addresses :: "evm_lib \<Rightarrow> bool" where
  "fresh_addresses E \<longleftrightarrow> distinct (0 # map (new_address E) [0..<7])"

lemma fresh_addresses_inj:
  "fresh_addresses E \<Longrightarrow> m < 7 \<Longrightarrow> n < 7 \<Longrightarrow> new_address E m = new_address E n \<longleftrightarrow> m = n"
  by (auto simp: fresh_addresses_def distinct_map inj_on_eq_iff)

lemma fresh_addresses_nonzero:
  "fresh_addresses E \<Longrightarrow> n < 7 \<Longrightarrow> new_address E n \<noteq> 0 \<and> 0 \<noteq> new_address E n"
  by (auto simp: fresh_addresses_def)

section \<open>Property\<close>

text \<open>C33: The deployment registers each verifier in its slot: a run of the script from scratch that does
  not fail creates the seven contracts once each and registers one implementation with the
  factory it created, under the name of the token contract, whose address is the token
  contract's, whose five used slots hold the verifiers made for them and whose four lock and
  burn slots hold the zero address, at which no contract is; it stops broadcasting; and every
  line it prints names the contract at the printed address.\<close>

theorem deployment_registers_each_verifier:
  assumes "fresh_addresses E" and "deploy_run E fresh_deployment = Inr d"
  shows "map fst (created d) = contract_names \<and> distinct (map snd (created d)) \<and> \<not> broadcasting d
    \<and> (\<exists>factory info. registered d = [(factory, ''Zeto_AnonEncNullifierNonRepudiation'', info)]
        \<and> contract_at d factory = Some ''ZetoTokenFactory''
        \<and> contract_at d (implementation info) = Some ''Zeto_AnonEncNullifierNonRepudiation''
        \<and> map (contract_at d \<circ> (\<lambda>slot. slot (verifiers info)))
            [verifier, batchVerifier, depositVerifier, withdrawVerifier, batchWithdrawVerifier]
          = map Some (take 5 contract_names)
        \<and> (\<lambda>slot. slot (verifiers info)) ` {lockVerifier, burnVerifier, batchLockVerifier, batchBurnVerifier} = {ZERO}
        \<and> contract_at d ZERO = None)
    \<and> list_all (\<lambda>(line, a). \<exists>n. contract_at d a = Some n \<and> take (length n) line = n) (console d)"
  using assms(2)
  by (auto simp: deploy_run_def Let_def bind_sol_Inr create_Inr registerImplementation_Inr fresh_deployment_def
      contract_names_def contract_at_def ZERO_def
      fresh_addresses_inj [OF assms(1)] fresh_addresses_nonzero [OF assms(1)])

section \<open>Witness\<close>

text \<open>A chain where nothing fails.\<close>

definition sample_evm :: evm_lib where
  "sample_evm =
     \<lparr>new_address = (\<lambda>n. push_bit 8 1 + of_nat n), creation_fails = (\<lambda>_. None), registration_fails = (\<lambda>_ _. None)\<rparr>"

lemma sample_evm_fresh: "fresh_addresses sample_evm"
  by (simp add: fresh_addresses_def sample_evm_def upt_rec)

lemma sample_deployment: "\<exists>d. deploy_run sample_evm fresh_deployment = Inr d"
  by (simp add: deploy_run_def create_def registerImplementation_def bind_sol_def sample_evm_def Let_def)

theorem deployment_registers_each_verifier_witness:
  "\<exists>d. deploy_run sample_evm fresh_deployment = Inr d
     \<and> map fst (created d) = contract_names \<and> distinct (map snd (created d)) \<and> \<not> broadcasting d"
proof -
  obtain d where d: "deploy_run sample_evm fresh_deployment = Inr d" using sample_deployment by blast
  from deployment_registers_each_verifier [OF sample_evm_fresh d] show ?thesis using d by blast
qed

end
