(* ===== verification/Spec2Isabelle.thy ===== *)
theory Spec2Isabelle
  imports Staking Accounts Genesis Announce Creators Restore SmtTime SmtSound SmtProgress SmtTyping
    SmtGrowth Deploy
begin

text \<open>
  The sandbox ledger: a Cosmos SDK chain with proof-of-authority validators, the EVM and IBC v2,
  and contracts for private tokens.  The repository is the application (\<open>app/\<close>, \<open>cmd/\<close>, \<open>testutil/\<close>,
  in Go), which wires library modules together, the script that deploys the token contracts
  (\<open>contracts/script/\<close>, in Solidity), and a sparse Merkle tree library for them
  (\<open>contracts/src/iden3-shims/\<close>, in Solidity).  The library modelled is the one in the repository;
  \<open>contracts/remappings.txt\<close> and \<open>deploy-zeto.sh\<close> link the contracts to another version of it in a
  git submodule.

  \<^bold>\<open>Parts and how they interact\<close>

  \<^item> \<open>main\<close> sets up the SDK configuration and builds the root command; building it constructs the
    application once, and the commands it registers construct it again (\<open>newApp\<close>, \<open>appExport\<close>).
  \<^item> \<open>NewApp\<close> makes store keys, keepers, the EVM, the IBC routers, the module manager with its
    orders, the handlers and the mempool, and loads the latest version.  The ante handler, the
    ABCI hooks, the services and the export all read the fields that \<open>NewApp\<close> assigned.
  \<^item> The EVM and ERC-20 keepers see the POA keeper through the staking adapter; the module
    accounts give the mint and burn permissions and the blocked addresses; the genesis code
    makes the EVM denomination known to bank.
  \<^item> The tree is called by transactions at growing block times; it keeps nodes keyed by their hash
    and a history of roots, and gives out inclusion proofs.
  \<^item> The deployment script creates the verifiers, the token implementation and the factory, and
    registers the implementation with its verifiers.

  \<^bold>\<open>Theories and the code they model\<close>

  \<^item> \<open>Prelude\<close>: Go errors, panics and exits; a long function as the list of its steps
    (\<open>run_steps\<close>), with the interfaces \<open>step_invariant\<close>, \<open>step_growth\<close> and \<open>step_budget\<close>; iteration over Go maps.
    \<open>GoNames\<close>: the constants of imported packages, by name; their strings are a parameter.
  \<^item> \<open>Staking\<close>: \<open>poaStakingKeeper\<close> of \<open>app/app.go\<close>.  The closure of \<open>GetValidatorByConsAddr\<close> is
    \<open>match_validator\<close>, its captured variables are the state of the iteration.
  \<^item> \<open>Accounts\<close>: \<open>maccPerms\<close> and \<open>blockedAddresses\<close>.
  \<^item> \<open>Genesis\<close>: \<open>app/genesis.go\<close> and \<open>SandboxApp.DefaultGenesis\<close>.
  \<^item> \<open>Ante\<close>: \<open>app/ante.go\<close>, \<open>onPendingTx\<close> and \<open>RegisterPendingTxListener\<close>; a decorator is the
    constructor call that makes it.  The registry of listeners is the interface \<open>listener_registry\<close>.
  \<^item> \<open>Values\<close>: what the application passes to library code, and the trace of library calls.
    \<open>Wiring\<close>: \<open>NewApp\<close> as thirteen steps on the record \<open>sandbox_app\<close> (the fields of the struct,
    zero until assigned), \<open>setAnteHandler\<close>, \<open>setPostHandler\<close>, \<open>configureEVMMempool\<close>.
    A library object is named by the constructor that made it; none is called twice in a run
    (\<open>callees_distinct\<close>).
    \<open>WiringRun\<close>: what each step stops with and leaves behind, and the observations on the trace.
    \<open>WiringSpec\<close>: the built application.
    \<open>Announce\<close>: its ante handler together with the registered listeners.
  \<^item> \<open>Services\<close>: \<open>RegisterAPIRoutes\<close>, \<open>RegisterTxService\<close>, \<open>RegisterTendermintService\<close>,
    \<open>RegisterNodeService\<close>, \<open>Name\<close>, \<open>GetAnteHandler\<close>.
  \<^item> \<open>Lifecycle\<close>: the ABCI hooks, the accessors, \<open>Close\<close>, \<open>AutoCliOpts\<close>, \<open>chainIDFromOpts\<close>, \<open>newApp\<close>,
    \<open>appExport\<close> and \<open>app/export.go\<close>.  \<open>Restore\<close>: export and initialisation together.
  \<^item> \<open>Commands\<close>: \<open>setupSDKConfig\<close> and \<open>main\<close> of \<open>cmd/sandboxd/main.go\<close>, \<open>testutil/address_prefix.go\<close>,
    \<open>NewRootCmd\<close> with its client context and pre-run hook (whose two contexts share a viper), \<open>initRootCmd\<close>, \<open>queryCommand\<close>, \<open>txCommand\<close>.
    \<open>Creators\<close>: the constructions of the application that the commands use, compared: every step of
    \<open>NewApp\<close> is independent of the calls made before it (\<open>framed\<close>).
  \<^item> \<open>SmtNodes\<close>: nodes, \<open>_getNodeHash\<close>, \<open>_addNode\<close>, \<open>_pushLeaf\<close>, \<open>_addLeaf\<close> of \<open>SmtLib.sol\<close>, over the interface
    \<open>content_store\<close>.  \<open>SmtHistory\<close>: the root history, its readers and the binary search of
    \<open>BinarySearchSmtRoots\<close>, over the interface \<open>sorted_log\<close>.  \<open>SmtProof\<close>: \<open>getProofByRoot\<close> and its callers,
    and the recomputation of a root from a proof.  \<open>SmtContract\<close>: \<open>initialize\<close>, \<open>setMaxDepth\<close>,
    \<open>addLeaf\<close>, \<open>PoseidonHasher.sol\<close>, and the reachable states of a chain that calls them.
  \<^item> \<open>SmtTrie\<close> and \<open>SmtShape\<close>: the abstract trie that the stored nodes represent, insertion into it and
    its canonical shape.  \<open>SmtSpec\<close>, \<open>SmtTime\<close> and \<open>SmtSound\<close>: what the contract
    guarantees, in each state, over time, and to a verifier of arbitrary proofs.  \<open>SmtTyping\<close>: the
    types of stored nodes.  \<open>SmtProgress\<close>: which transactions are possible from any state.
    \<open>SmtGrowth\<close>: how much storage they take.
  \<^item> \<open>Deploy\<close>: \<open>run\<close> of \<open>contracts/script/DeployZetoAnon.s.sol\<close>, on a record of what the script created,
    registered and printed.

  Go names that HOL or another record has already carry a prefix (\<open>app_keys\<close>, \<open>ho_Cdc\<close>, \<open>p_root\<close>); the
  internal Solidity functions lose their underscore, \<open>_addLeaf\<close> is \<open>addLeaf_internal\<close>.

  \<^bold>\<open>What the lemmas show\<close>

  \<^item> Construction: \<open>NewApp\<close> stops exactly with the first failure it checks; otherwise every call got
    assigned fields and existing store keys, each store key went to one keeper, the IBC routes,
    precompiles, module orders and BaseApp settings are the intended ones, and one mempool object
    is in every place that needs it.
  \<^item> Transactions: the two ante pipelines are isolated, a Cosmos transaction's sequence advances only
    behind fee and signature checks, fees go to the POA account; listeners hear of the Ethereum transactions that were accepted.
  \<^item> Staking adapter, genesis, accounts: equivalence with a lookup, for every list of validators;
    results for every map iteration order; the error values of every branch.
  \<^item> Lifecycle and commands: what is exported, closed and passed on, that an export can start
    a chain, which failures stop \<open>main\<close> and what its second sealing of the configuration means,
    and that all commands, the exports included, construct one application.
  \<^item> The tree: by simulation, every operation on stored nodes implements the one on tries
    (\<open>addLeaf_internal_refines\<close>), tries refine finite maps (\<open>lookup_ins\<close>), and the shape of a trie is
    fixed by its content (\<open>canonical_unique\<close>).  \<open>state_ok\<close> is the invariant of the reachable states.  So runs
    of the contract refine runs of a map, proofs exist and verify, the root depends on the content
    only, past answers never change, a leaf is refused exactly for one of two reasons (\<open>crowded\<close>,
    \<open>collides\<close>), no state is a dead end, storage grows linearly, every hash in the store leads to a
    node of a known form (\<open>typed_state\<close>), and a forged proof carries a collision (\<open>climb_path\<close>).
  \<^item> The deployment: each contract is created once, each verifier registered in its slot.
  \<^item> The search is shown to end and to find the latest entry for every history with growing times.

  \<^bold>\<open>Bounds and measures\<close>

  Depths are natural numbers up to the contract's cap of 256, the number of bits of an index;
  \<open>_pushLeaf\<close> and \<open>_addLeaf\<close> end because the distance to the maximal depth falls.  The loop of
  \<open>getProofByRoot\<close> counts its \<open>maxDepth + 1\<close> iterations down, which is the loop's own bound.  Array
  positions are natural numbers: an array has fewer than \<open>2^256\<close> elements.  Roots, indices, values,
  times and block numbers are 256-bit words, heights 64-bit words.

  \<^bold>\<open>Library code\<close>

  Code outside the repository is a parameter.  What is relied on is a named hypothesis: key-map
  constructors give fresh keys (\<open>key_maps_law\<close>, part of \<open>built\<close>), package constants are distinct
  (\<open>inj_on\<close> of the valuation), a map iteration visits each key once (\<open>iter_order\<close>), validators are
  iterated in turn (\<open>iterates_over\<close>), the genesis codec reads what it wrote (\<open>codec_roundtrip\<close>; for exported
  JSON up to its layout, \<open>json_law\<close>), the SDK
  configuration panics only once it is sealed (\<open>config_law\<close>, which leaves open whether sealing it
  again panics), BaseApp is at the version loaded last
  (\<open>load_law\<close>), page bounds lie inside the array (\<open>bounds_law\<close>), new contracts have new addresses
  (\<open>fresh_addresses\<close>), decorators are linked in order (\<open>chains_with\<close>)
  and one of them calls the listeners (\<open>listeners_called\<close>).  Poseidon is arbitrary: nothing assumes
  it to be free of collisions, as \<open>_addNode\<close> detects them and statements about forged proofs name
  them; \<open>zero_unused\<close> says that no stored node
  happens to hash to zero, which the contract uses for the empty tree.

  \<^bold>\<open>Not modelled\<close>

  The library modules themselves (Cosmos SDK, EVM, IBC, CometBFT), cobra's parsing and execution of
  commands, the token contracts, verifiers and factory (git submodules, absent from the
  repository), the storage gap and gas of the tree contract, \<open>contracts/deploy-zeto.sh\<close>, the bytecode
  and its generator under \<open>contracts/poseidon\<close>, tests, shell scripts and workflows: library code,
  glue, generated code or process handling.  Of the Go files, what no definition covers is
  package clauses, imports, comments and the unused constant \<open>Bech32Prefix\<close>.
\<close>

end
